(* ===== verification/Prelude.thy ===== *)
theory Prelude
  imports Main "HOL-Library.List_Lexorder" "HOL-Library.Char_ord" "HOL-Library.Sublist"
begin

section \<open>Shared vocabulary\<close>

text \<open>
  What every component of the development uses: the fact collections, the byte predicates,
  association lists in the role of Go maps whose iteration order matters, and the insertion
  and binary-search operations of the Go package \<open>slices\<close> with the lemmas about them.
\<close>

named_theorems msg_simps \<open>constructors of ext_proc messages, unfolded\<close>
named_theorems era_simps \<open>the two protocol eras, evaluated\<close>
named_theorems str_simps \<open>the Go string operations in terms of the list library\<close>

type_synonym bytes = string

subsection \<open>Lists\<close>

lemma list_all_takeWhile: "list_all P (takeWhile P xs)"
  by (induction xs) auto

lemma distinct_map_of_SomeI:
  "distinct (map fst kvs) \<Longrightarrow> (k, v) \<in> set kvs \<Longrightarrow> map_of kvs k = Some v"
  by (simp add: map_of_eq_Some_iff)

lemma map_of_perm:
  assumes "distinct (map fst kvs)" and "set kvs' = set kvs" and "distinct (map fst kvs')"
  shows "map_of kvs' = map_of kvs"
proof (rule ext)
  fix k
  show "map_of kvs' k = map_of kvs k"
    by (cases "map_of kvs k") (metis assms map_of_eq_Some_iff option.exhaust)+
qed

subsection \<open>Binary search and insertion (package \<open>slices\<close>)\<close>

text \<open>
  \<open>slices.BinarySearchFunc\<close>: the loop on the half-open range \<open>i..j\<close>, with \<open>bel x\<close> standing
  for \<open>cmp(x, target) < 0\<close>. The index read is \<open>(i + j) / 2 < j\<close>, so it is in range whenever
  \<open>j\<close> is at most the length.
\<close>

function bsearch :: "('a \<Rightarrow> bool) \<Rightarrow> 'a list \<Rightarrow> nat \<Rightarrow> nat \<Rightarrow> nat" where
  "bsearch bel xs i j =
     (if i < j
      then (let h = (i + j) div 2
            in if bel (xs ! h) then bsearch bel xs (Suc h) j else bsearch bel xs i h)
      else i)"
  by pat_completeness auto
termination
  by (relation "measure (\<lambda>(bel, xs, i, j). j - i)") auto

declare bsearch.simps [simp del]

definition slices_insert :: "'a list \<Rightarrow> nat \<Rightarrow> 'a \<Rightarrow> 'a list" where
  "slices_insert xs i x = take i xs @ x # drop i xs"

lemma set_slices_insert [simp]: "set (slices_insert xs i x) = insert x (set xs)"
  by (simp add: slices_insert_def)
    (metis append_take_drop_id set_append)

lemma length_slices_insert [simp]: "length (slices_insert xs i x) = Suc (length xs)"
  by (simp add: slices_insert_def)

text \<open>
  The search returns the number of elements below the target when the elements that are below
  it form a prefix of the list, which is what sortedness gives.
\<close>

lemma bsearch_prefix:
  assumes "k \<le> length xs" and "\<And>n. n < length xs \<Longrightarrow> bel (xs ! n) \<longleftrightarrow> n < k"
    and "i \<le> k" and "k \<le> j" and "j \<le> length xs"
  shows "bsearch bel xs i j = k"
  using assms
proof (induction bel xs i j rule: bsearch.induct)
  case (1 bel xs i j)
  show ?case
  proof (cases "i < j")
    case False
    with "1.prems" show ?thesis by (simp add: bsearch.simps [of bel xs i j])
  next
    case True
    define h where "h = (i + j) div 2"
    have h: "h < j" "i \<le> h" "h < length xs" using True "1.prems" by (auto simp: h_def)
    show ?thesis
    proof (cases "bel (xs ! h)")
      case True
      then have "Suc h \<le> k" using "1.prems"(2) h(3) by auto
      then show ?thesis
        using "1.IH"(1) [OF \<open>i < j\<close> h_def True "1.prems"(1,2) _ "1.prems"(4,5)] \<open>i < j\<close> True
        by (simp add: bsearch.simps [of bel xs i j] h_def Let_def)
    next
      case False
      then have "k \<le> h" using "1.prems"(2) h(3) by auto
      then show ?thesis
        using "1.IH"(2) [OF \<open>i < j\<close> h_def False "1.prems"(1,2,3)] h \<open>i < j\<close> False
        by (simp add: bsearch.simps [of bel xs i j] h_def Let_def)
    qed
  qed
qed

lemma sorted_below_prefix:
  fixes x :: "'a::linorder"
  assumes "sorted xs" and "n < length xs"
  shows "xs ! n < x \<longleftrightarrow> n < length (takeWhile (\<lambda>y. y < x) xs)"
  using assms
proof (induction xs arbitrary: n)
  case Nil
  then show ?case by simp
next
  case (Cons y ys)
  show ?case
  proof (cases n)
    case 0
    then show ?thesis by simp
  next
    case (Suc m)
    with Cons.prems have m: "m < length ys" "sorted ys" "y \<le> ys ! m" by auto
    with Cons.IH [OF m(2,1)] Suc show ?thesis by auto
  qed
qed

lemma bsearch_sorted:
  fixes x :: "'b::linorder"
  assumes "sorted (map f xs)"
  shows "bsearch (\<lambda>y. f y < x) xs 0 (length xs) = length (takeWhile (\<lambda>y. f y < x) xs)"
proof (rule bsearch_prefix)
  show "length (takeWhile (\<lambda>y. f y < x) xs) \<le> length xs"
    by (rule length_takeWhile_le)
  show "f (xs ! n) < x \<longleftrightarrow> n < length (takeWhile (\<lambda>y. f y < x) xs)" if "n < length xs" for n
    using sorted_below_prefix [OF assms, of n x] that
    by (simp add: takeWhile_map o_def)
qed (simp_all add: length_takeWhile_le)

lemma take_length_takeWhile [simp]: "take (length (takeWhile P xs)) xs = takeWhile P xs"
  by (metis takeWhile_eq_take)

lemma drop_length_takeWhile [simp]: "drop (length (takeWhile P xs)) xs = dropWhile P xs"
  by (metis dropWhile_eq_drop)

text \<open>Inserting at the search position keeps strictly sorted keys strictly sorted.\<close>

lemma sorted_insert_at:
  fixes f :: "'a \<Rightarrow> 'b::linorder"
  assumes "sorted (map f xs)" and "distinct (map f xs)" and "f x \<notin> f ` set xs"
  defines "ys \<equiv> slices_insert xs (length (takeWhile (\<lambda>y. f y < f x) xs)) x"
  shows "sorted (map f ys)" and "distinct (map f ys)"
proof -
  let ?P = "\<lambda>y. f y < f x"
  have split: "xs = takeWhile ?P xs @ dropWhile ?P xs" by simp
  have ys: "ys = takeWhile ?P xs @ x # dropWhile ?P xs"
    by (simp add: ys_def slices_insert_def)
  have below: "f y < f x" if "y \<in> set (takeWhile ?P xs)" for y
    using that by (auto dest: set_takeWhileD)
  have above: "f x \<le> f y" if "y \<in> set (dropWhile ?P xs)" for y
  proof (cases "dropWhile ?P xs")
    case Nil
    with that show ?thesis by simp
  next
    case (Cons z zs)
    then have "\<not> f z < f x" by (metis hd_dropWhile list.distinct(1) list.sel(1))
    moreover have "sorted (map f (z # zs))"
      using assms(1) split Cons by (metis map_append sorted_append)
    ultimately show ?thesis using that Cons by auto
  qed
  have parts: "sorted (map f (takeWhile ?P xs))" "sorted (map f (dropWhile ?P xs))"
    using assms(1) split by (metis map_append sorted_append)+
  show "sorted (map f ys)"
    using parts below above
    by (fastforce simp: ys sorted_append intro: order_trans less_imp_le)
  have "distinct (map f (takeWhile ?P xs) @ map f (dropWhile ?P xs))"
    using assms(2) split by (metis map_append)
  moreover have "f x \<notin> f ` set (takeWhile ?P xs)" "f x \<notin> f ` set (dropWhile ?P xs)"
    using assms(3) by (auto dest: set_takeWhileD set_dropWhileD)
  ultimately show "distinct (map f ys)" by (auto simp: ys)
qed

end
