(* ===== verification/Go_Strings.thy ===== *)
theory Go_Strings
  imports Prelude
begin

section \<open>Go strings\<close>

text \<open>
  A Go string is a sequence of bytes; here it is a \<^typ>\<open>string\<close>, a list of 8-bit characters,
  ordered lexicographically by byte value as Go's comparison operators order strings.
  This theory holds what the program uses of the packages \<open>strings\<close>, \<open>unicode/utf8\<close> and
  \<open>strconv\<close>. The case mapping and the printability of code points outside ASCII are tables of
  the Unicode database that the Go distribution generates; they are the fields of the record
  \<open>unicode_tables\<close>, an argument of the operations that consult them.
\<close>

record unicode_tables =
  lower_table :: "nat \<Rightarrow> nat"
  upper_table :: "nat \<Rightarrow> nat"
  print_table :: "nat \<Rightarrow> bool"

abbreviation byte_of :: "char \<Rightarrow> nat" where
  "byte_of \<equiv> of_char"

definition is_ascii :: "char \<Rightarrow> bool" where
  "is_ascii c \<longleftrightarrow> byte_of c < 128"

subsection \<open>UTF-8\<close>

definition rune_error :: nat where
  "rune_error = 0xFFFD"

definition is_cont :: "nat \<Rightarrow> nat \<Rightarrow> char \<Rightarrow> bool" where
  "is_cont lo hi c \<longleftrightarrow> lo \<le> byte_of c \<and> byte_of c \<le> hi"

definition cont_bits :: "char \<Rightarrow> nat" where
  "cont_bits c = byte_of c - 0x80"

text \<open>
  \<open>utf8.DecodeRuneInString\<close>: the first code point and its width in bytes; an invalid or
  incomplete encoding is \<open>rune_error\<close> of width 1.
\<close>

definition decode2 :: "nat \<Rightarrow> string \<Rightarrow> nat \<times> nat" where
  "decode2 b cs =
     (case cs of
        c1 # _ \<Rightarrow>
          if is_cont 0x80 0xBF c1 then ((b - 0xC0) * 64 + cont_bits c1, 2) else (rune_error, 1)
      | _ \<Rightarrow> (rune_error, 1))"

definition decode3 :: "nat \<Rightarrow> string \<Rightarrow> nat \<times> nat" where
  "decode3 b cs =
     (case cs of
        c1 # c2 # _ \<Rightarrow>
          if is_cont (if b = 0xE0 then 0xA0 else 0x80) (if b = 0xED then 0x9F else 0xBF) c1 \<and>
             is_cont 0x80 0xBF c2
          then ((b - 0xE0) * 4096 + cont_bits c1 * 64 + cont_bits c2, 3) else (rune_error, 1)
      | _ \<Rightarrow> (rune_error, 1))"

definition decode4 :: "nat \<Rightarrow> string \<Rightarrow> nat \<times> nat" where
  "decode4 b cs =
     (case cs of
        c1 # c2 # c3 # _ \<Rightarrow>
          if is_cont (if b = 0xF0 then 0x90 else 0x80) (if b = 0xF4 then 0x8F else 0xBF) c1 \<and>
             is_cont 0x80 0xBF c2 \<and> is_cont 0x80 0xBF c3
          then ((b - 0xF0) * 262144 + cont_bits c1 * 4096 + cont_bits c2 * 64 + cont_bits c3, 4)
          else (rune_error, 1)
      | _ \<Rightarrow> (rune_error, 1))"

fun decode_rune :: "string \<Rightarrow> nat \<times> nat" where
  "decode_rune [] = (rune_error, 0)"
| "decode_rune (c # cs) =
     (let b = byte_of c in
      if b < 0x80 then (b, 1)
      else if 0xC2 \<le> b \<and> b \<le> 0xDF then decode2 b cs
      else if 0xE0 \<le> b \<and> b \<le> 0xEF then decode3 b cs
      else if 0xF0 \<le> b \<and> b \<le> 0xF4 then decode4 b cs
      else (rune_error, 1))"

lemma decode_parts_width:
  "1 \<le> snd (decode2 b cs)" "1 \<le> snd (decode3 b cs)" "1 \<le> snd (decode4 b cs)"
  by (simp_all add: decode2_def decode3_def decode4_def split: list.split)

lemma decode2_ge: "0xC2 \<le> b \<Longrightarrow> 128 \<le> fst (decode2 b cs)"
  by (auto simp: decode2_def rune_error_def split: list.split)

lemma decode3_ge: "0xE0 \<le> b \<Longrightarrow> 128 \<le> fst (decode3 b cs)"
  by (cases "b = 0xE0")
    (auto simp: decode3_def rune_error_def is_cont_def cont_bits_def split: list.split)

lemma decode4_ge: "0xF0 \<le> b \<Longrightarrow> 128 \<le> fst (decode4 b cs)"
  by (cases "b = 0xF0")
    (auto simp: decode4_def rune_error_def is_cont_def cont_bits_def split: list.split)

lemma decode_rune_width: "s \<noteq> [] \<Longrightarrow> 1 \<le> snd (decode_rune s)"
  by (cases s) (simp_all add: Let_def decode_parts_width [simplified])

lemma decode_rune_ascii: "is_ascii c \<Longrightarrow> decode_rune (c # cs) = (byte_of c, 1)"
  by (simp add: is_ascii_def)

text \<open>The code point of a byte outside ASCII is never an ASCII code point.\<close>

lemma decode_rune_nonascii:
  "\<not> is_ascii c \<Longrightarrow> 128 \<le> fst (decode_rune (c # cs))"
  by (simp add: is_ascii_def Let_def rune_error_def decode2_ge decode3_ge decode4_ge)

declare decode_rune.simps(2) [simp del]

text \<open>A string as its code points, each with the bytes that encode it.\<close>

function split_runes :: "string \<Rightarrow> (nat \<times> string) list" where
  "split_runes s =
     (case s of
        [] \<Rightarrow> []
      | _ # _ \<Rightarrow>
          let (r, w) = decode_rune s in (r, take w s) # split_runes (drop w s))"
  by pat_completeness auto
termination
proof (relation "measure length", goal_cases)
  case 1
  then show ?case by simp
next
  case (2 s c cs p r w)
  then have "1 \<le> w" using decode_rune_width [of s] by (metis list.distinct(1) snd_conv)
  with 2 show ?case by simp
qed

declare split_runes.simps [simp del]

definition runes :: "string \<Rightarrow> nat list" where
  "runes s = map fst (split_runes s)"

definition encode_rune :: "nat \<Rightarrow> string" where
  "encode_rune r0 =
     (let r = (if r0 > 0x10FFFF \<or> (0xD800 \<le> r0 \<and> r0 \<le> 0xDFFF) then rune_error else r0) in
      if r < 0x80 then [char_of r]
      else if r < 0x800 then [char_of (0xC0 + r div 64), char_of (0x80 + r mod 64)]
      else if r < 0x10000 then
        [char_of (0xE0 + r div 4096), char_of (0x80 + r div 64 mod 64), char_of (0x80 + r mod 64)]
      else
        [char_of (0xF0 + r div 262144), char_of (0x80 + r div 4096 mod 64),
         char_of (0x80 + r div 64 mod 64), char_of (0x80 + r mod 64)])"

lemma split_runes_Nil [simp]: "split_runes [] = []"
  by (simp add: split_runes.simps [of "[]"])

lemma split_runes_Cons:
  "decode_rune (c # cs) = (r, w) \<Longrightarrow>
     split_runes (c # cs) = (r, take w (c # cs)) # split_runes (drop w (c # cs))"
  by (simp add: split_runes.simps [of "c # cs"])

lemma split_runes_ascii_Cons:
  "is_ascii c \<Longrightarrow> split_runes (c # cs) = (byte_of c, [c]) # split_runes cs"
  by (simp add: split_runes_Cons [OF decode_rune_ascii])

lemma split_runes_ascii:
  "list_all is_ascii s \<Longrightarrow> split_runes s = map (\<lambda>c. (byte_of c, [c])) s"
  by (induction s) (simp_all add: split_runes_ascii_Cons)

lemma runes_ascii: "list_all is_ascii s \<Longrightarrow> runes s = map byte_of s"
  by (simp add: runes_def split_runes_ascii o_def)

text \<open>Splitting loses no byte.\<close>

lemma concat_split_runes: "concat (map snd (split_runes s)) = s"
proof (induction s rule: split_runes.induct)
  case (1 s)
  show ?case
  proof (cases s)
    case Nil
    then show ?thesis by simp
  next
    case (Cons c cs)
    obtain r w where rw: "decode_rune s = (r, w)" by fastforce
    have IH: "concat (map snd (split_runes (drop w s))) = drop w s"
      using "1" [OF Cons, of "(r, w)" r w] rw by simp
    have "split_runes s = (r, take w s) # split_runes (drop w s)"
      using split_runes_Cons [of c cs r w] rw unfolding Cons by simp
    then show ?thesis using IH by simp
  qed
qed

lemma runes_all_ascii_iff:
  "(\<forall>r \<in> set (runes s). r < 128) \<longleftrightarrow> list_all is_ascii s"
proof (induction s rule: split_runes.induct)
  case (1 s)
  show ?case
  proof (cases s)
    case Nil
    then show ?thesis by (simp add: runes_def)
  next
    case (Cons c cs)
    show ?thesis
    proof (cases "is_ascii c")
      case True
      have IH: "(\<forall>r \<in> set (runes cs). r < 128) \<longleftrightarrow> list_all is_ascii cs"
        using "1" [OF Cons, of "(byte_of c, 1)" "byte_of c" 1] Cons True
        by (simp add: decode_rune_ascii)
      have "runes s = byte_of c # runes cs"
        using Cons True by (simp add: runes_def split_runes_ascii_Cons)
      moreover have "byte_of c < 128" using True by (simp add: is_ascii_def)
      ultimately show ?thesis using IH Cons True by simp
    next
      case False
      obtain r w where rw: "decode_rune (c # cs) = (r, w)" by fastforce
      have "128 \<le> r" using decode_rune_nonascii [OF False, of cs] rw by simp
      moreover have "r \<in> set (runes s)"
        using Cons split_runes_Cons [OF rw] by (simp add: runes_def)
      ultimately have "\<not> (\<forall>r \<in> set (runes s). r < 128)" by (meson not_less)
      then show ?thesis using Cons False by simp
    qed
  qed
qed


subsection \<open>Case and white space\<close>

definition ascii_lower :: "char \<Rightarrow> char" where
  "ascii_lower c = (if 65 \<le> byte_of c \<and> byte_of c \<le> 90 then char_of (byte_of c + 32) else c)"

definition ascii_upper :: "char \<Rightarrow> char" where
  "ascii_upper c = (if 97 \<le> byte_of c \<and> byte_of c \<le> 122 then char_of (byte_of c - 32) else c)"

definition lower_rune :: "unicode_tables \<Rightarrow> nat \<Rightarrow> nat" where
  "lower_rune U r = (if r < 128 then byte_of (ascii_lower (char_of r)) else lower_table U r)"

definition upper_rune :: "unicode_tables \<Rightarrow> nat \<Rightarrow> nat" where
  "upper_rune U r = (if r < 128 then byte_of (ascii_upper (char_of r)) else upper_table U r)"

text \<open>\<open>strings.ToLower\<close> and \<open>strings.ToUpper\<close>, with their fast path for ASCII strings.\<close>

definition to_lower :: "unicode_tables \<Rightarrow> string \<Rightarrow> string" where
  "to_lower U s =
     (if list_all is_ascii s then map ascii_lower s
      else concat (map (encode_rune \<circ> lower_rune U) (runes s)))"

definition to_upper :: "unicode_tables \<Rightarrow> string \<Rightarrow> string" where
  "to_upper U s =
     (if list_all is_ascii s then map ascii_upper s
      else concat (map (encode_rune \<circ> upper_rune U) (runes s)))"

text \<open>\<open>unicode.IsSpace\<close>: the code points with the property White_Space.\<close>

definition is_space :: "nat \<Rightarrow> bool" where
  "is_space r \<longleftrightarrow>
     r \<in> {0x09, 0x0A, 0x0B, 0x0C, 0x0D, 0x20, 0x85, 0xA0, 0x1680, 0x2028, 0x2029, 0x202F, 0x205F,
          0x3000} \<or> (0x2000 \<le> r \<and> r \<le> 0x200A)"

definition trim_space :: "string \<Rightarrow> string" where
  "trim_space s =
     concat (map snd
       (rev (dropWhile (is_space \<circ> fst) (rev (dropWhile (is_space \<circ> fst) (split_runes s))))))"

lemma of_char_ascii_lower [simp]:
  "byte_of (ascii_lower c) = (if 65 \<le> byte_of c \<and> byte_of c \<le> 90 then byte_of c + 32 else byte_of c)"
  by (simp add: ascii_lower_def)

lemma is_ascii_lower [simp]: "is_ascii (ascii_lower c) \<longleftrightarrow> is_ascii c"
  by (auto simp: is_ascii_def)

lemma ascii_lower_idem [simp]: "ascii_lower (ascii_lower c) = ascii_lower c"
  by (simp add: ascii_lower_def)

lemma to_lower_ascii: "list_all is_ascii s \<Longrightarrow> to_lower U s = map ascii_lower s"
  by (simp add: to_lower_def)

lemma to_lower_ascii_idem:
  "list_all is_ascii s \<Longrightarrow> to_lower U (to_lower U s) = to_lower U s"
  by (simp add: to_lower_def list.pred_map o_def list_all_iff)

lemma trim_space_Nil [simp]: "trim_space [] = []"
  by (simp add: trim_space_def)

text \<open>A string of ASCII bytes none of which is white space is its own trimming.\<close>

lemma trim_space_id:
  assumes "list_all is_ascii s" and "\<forall>c \<in> set s. \<not> is_space (byte_of c)"
  shows "trim_space s = s"
proof -
  have sp: "split_runes s = map (\<lambda>c. (byte_of c, [c])) s"
    using assms(1) by (rule split_runes_ascii)
  have none: "\<forall>p \<in> set (split_runes s). \<not> (is_space \<circ> fst) p"
    using assms(2) by (auto simp: sp)
  have keep: "dropWhile (is_space \<circ> fst) ps = ps" if "\<forall>p \<in> set ps. \<not> (is_space \<circ> fst) p" for ps
    using that by (cases ps) auto
  from none keep [of "split_runes s"] keep [of "rev (split_runes s)"] show ?thesis
    by (simp add: trim_space_def concat_split_runes)
qed

lemma trim_space_leading:
  "is_ascii c \<Longrightarrow> is_space (byte_of c) \<Longrightarrow> trim_space (c # s) = trim_space s"
  by (simp add: trim_space_def split_runes_ascii_Cons)

subsection \<open>Prefixes, suffixes and searching\<close>

definition has_prefix :: "string \<Rightarrow> string \<Rightarrow> bool" where
  "has_prefix s p \<longleftrightarrow> length p \<le> length s \<and> take (length p) s = p"

definition has_suffix :: "string \<Rightarrow> string \<Rightarrow> bool" where
  "has_suffix s p \<longleftrightarrow> length p \<le> length s \<and> drop (length s - length p) s = p"

lemma has_prefix_iff [str_simps]: "has_prefix s p \<longleftrightarrow> (\<exists>t. s = p @ t)"
  by (auto simp: has_prefix_def) (metis append_take_drop_id)

lemma has_suffix_iff [str_simps]: "has_suffix s p \<longleftrightarrow> (\<exists>t. s = t @ p)"
  by (auto simp: has_suffix_def) (metis append_take_drop_id)

lemma has_prefix_append [simp]: "has_prefix (p @ t) p"
  by (simp add: has_prefix_def)

lemma has_suffix_append [simp]: "has_suffix (t @ p) p"
  by (simp add: has_suffix_def)

text \<open>\<open>strings.CutPrefix\<close> and \<open>strings.CutSuffix\<close>, \<open>None\<close> where they report false.\<close>

definition cut_prefix :: "string \<Rightarrow> string \<Rightarrow> string option" where
  "cut_prefix s p = (if has_prefix s p then Some (drop (length p) s) else None)"

definition cut_suffix :: "string \<Rightarrow> string \<Rightarrow> string option" where
  "cut_suffix s p = (if has_suffix s p then Some (take (length s - length p) s) else None)"

lemma cut_prefix_append [simp]: "cut_prefix (p @ t) p = Some t"
  by (simp add: cut_prefix_def)

lemma cut_suffix_append [simp]: "cut_suffix (t @ p) p = Some t"
  by (simp add: cut_suffix_def)

lemma cut_prefix_None_iff: "cut_prefix s p = None \<longleftrightarrow> \<not> has_prefix s p"
  by (simp add: cut_prefix_def)

lemma cut_suffix_None_iff: "cut_suffix s p = None \<longleftrightarrow> \<not> has_suffix s p"
  by (simp add: cut_suffix_def)

text \<open>\<open>strings.IndexByte\<close> and \<open>strings.LastIndexByte\<close>, \<open>None\<close> for -1.\<close>

fun index_byte :: "string \<Rightarrow> char \<Rightarrow> nat option" where
  "index_byte [] c = None"
| "index_byte (x # xs) c = (if x = c then Some 0 else map_option Suc (index_byte xs c))"

definition last_index_byte :: "string \<Rightarrow> char \<Rightarrow> nat option" where
  "last_index_byte s c = map_option (\<lambda>i. length s - Suc i) (index_byte (rev s) c)"

lemma index_byte_None [simp]: "index_byte s c = None \<longleftrightarrow> c \<notin> set s"
  by (induction s) auto

lemma index_byte_append:
  "c \<notin> set s \<Longrightarrow> index_byte (s @ c # t) c = Some (length s)"
  by (induction s) auto

lemma last_index_byte_None [simp]: "last_index_byte s c = None \<longleftrightarrow> c \<notin> set s"
  by (simp add: last_index_byte_def)

lemma last_index_byte_append:
  "c \<notin> set t \<Longrightarrow> last_index_byte (s @ c # t) c = Some (length s)"
  by (simp add: last_index_byte_def index_byte_append)

text \<open>\<open>strings.Contains\<close> and \<open>strings.ContainsAny\<close> (for a set of ASCII characters).\<close>

fun contains :: "string \<Rightarrow> string \<Rightarrow> bool" where
  "contains [] sub = (sub = [])"
| "contains (c # cs) sub = (has_prefix (c # cs) sub \<or> contains cs sub)"

definition contains_any :: "string \<Rightarrow> string \<Rightarrow> bool" where
  "contains_any s chars = list_ex (\<lambda>c. c \<in> set chars) s"

lemma contains_single [simp]: "contains s [c] \<longleftrightarrow> c \<in> set s"
  by (induction s) (auto simp: has_prefix_def)

lemma contains_iff: "contains s sub \<longleftrightarrow> (\<exists>t u. s = t @ sub @ u)"
proof (induction s)
  case Nil
  then show ?case by auto
next
  case (Cons c cs)
  show ?case
    by (auto simp: Cons.IH has_prefix_iff) (metis append_Cons append_Nil list.exhaust list.sel(3))+
qed

subsection \<open>Replacing and joining\<close>

text \<open>
  \<open>strings.ReplaceAll\<close>: the occurrences of \<open>old\<close> from left to right, not overlapping; an empty
  \<open>old\<close> matches before every code point and at the end.
\<close>

function replace_all :: "string \<Rightarrow> string \<Rightarrow> string \<Rightarrow> string" where
  "replace_all s old new =
     (if old = [] then concat (map (\<lambda>p. new @ snd p) (split_runes s)) @ new
      else case s of
             [] \<Rightarrow> []
           | c # cs \<Rightarrow>
               if has_prefix s old then new @ replace_all (drop (length old) s) old new
               else c # replace_all cs old new)"
  by pat_completeness auto
termination
  by (relation "measure (\<lambda>(s, old, new). length s)") (auto simp: has_prefix_def)

declare replace_all.simps [simp del]

text \<open>\<open>strings.Join\<close>.\<close>

fun join :: "string list \<Rightarrow> string \<Rightarrow> string" where
  "join [] sep = []"
| "join [x] sep = x"
| "join (x # y # ys) sep = x @ sep @ join (y # ys) sep"

lemma replace_all_Nil [simp]: "old \<noteq> [] \<Longrightarrow> replace_all [] old new = []"
  by (simp add: replace_all.simps [of "[]"])

lemma replace_all_hit:
  "old \<noteq> [] \<Longrightarrow> replace_all (old @ s) old new = new @ replace_all s old new"
  by (cases old) (simp_all add: replace_all.simps [of "_ # _"] has_prefix_def)

lemma replace_all_miss:
  "old \<noteq> [] \<Longrightarrow> \<not> has_prefix (c # s) old \<Longrightarrow>
     replace_all (c # s) old new = c # replace_all s old new"
  by (simp add: replace_all.simps [of "c # s"])

lemma replace_all_absent: "old \<noteq> [] \<Longrightarrow> \<not> contains s old \<Longrightarrow> replace_all s old new = s"
  by (induction s) (simp_all add: replace_all_miss)

end
