(* ===== verification/Go_Strconv.thy ===== *)
theory Go_Strconv
  imports Go_Strings
begin

section \<open>Numbers and quoting (package \<open>strconv\<close>)\<close>

text \<open>
  \<open>strconv.Itoa\<close>, \<open>strconv.Atoi\<close> on the 64-bit type \<open>int\<close>, and \<open>strconv.Quote\<close>, which is what
  the verb \<open>%q\<close> of package \<open>fmt\<close> prints for a string. \<open>atoi_itoa\<close> is the round trip.
\<close>

subsection \<open>Itoa and Atoi\<close>

definition digit_char :: "nat \<Rightarrow> char" where
  "digit_char d = char_of (48 + d)"

definition is_digit :: "char \<Rightarrow> bool" where
  "is_digit c \<longleftrightarrow> 48 \<le> byte_of c \<and> byte_of c \<le> 57"

fun nat_to_string :: "nat \<Rightarrow> string" where
  "nat_to_string n =
     (if n < 10 then [digit_char n] else nat_to_string (n div 10) @ [digit_char (n mod 10)])"

declare nat_to_string.simps [simp del]

definition itoa :: "int \<Rightarrow> string" where
  "itoa i = (if i < 0 then ''-'' @ nat_to_string (nat (- i)) else nat_to_string (nat i))"

definition digits_value :: "string \<Rightarrow> nat" where
  "digits_value s = foldl (\<lambda>a c. a * 10 + (byte_of c - 48)) 0 s"

definition int64_max :: int where
  "int64_max = 2 ^ 63 - 1"

definition int64_min :: int where
  "int64_min = - (2 ^ 63)"

text \<open>
  \<open>strconv.Atoi\<close>: an optional sign, at least one decimal digit and nothing else; a value outside
  the 64-bit range is an error too. \<open>None\<close> is the error.
\<close>

definition atoi :: "string \<Rightarrow> int option" where
  "atoi s =
     (let (neg, ds) =
        (case s of
           c # cs \<Rightarrow> if c = CHR ''-'' then (True, cs) else if c = CHR ''+'' then (False, cs) else (False, s)
         | [] \<Rightarrow> (False, s))
      in if ds = [] \<or> \<not> list_all is_digit ds then None
         else let v = (if neg then - int (digits_value ds) else int (digits_value ds))
              in if int64_min \<le> v \<and> v \<le> int64_max then Some v else None)"

lemma byte_of_digit_char [simp]: "d < 10 \<Longrightarrow> byte_of (digit_char d) = 48 + d"
  by (simp add: digit_char_def)

lemma is_digit_char [simp]: "d < 10 \<Longrightarrow> is_digit (digit_char d)"
  by (simp add: is_digit_def)

lemma digits_value_snoc [simp]: "digits_value (s @ [c]) = digits_value s * 10 + (byte_of c - 48)"
  by (simp add: digits_value_def)

lemma digits_value_Nil [simp]: "digits_value [] = 0"
  by (simp add: digits_value_def)

lemma nat_to_string_digits: "list_all is_digit (nat_to_string n)"
proof (induction n rule: nat_to_string.induct)
  case (1 n)
  then show ?case by (cases "n < 10") (simp_all add: nat_to_string.simps [of n])
qed

lemma nat_to_string_nonempty [simp]: "nat_to_string n \<noteq> []"
  by (simp add: nat_to_string.simps [of n])

lemma digits_value_nat_to_string [simp]: "digits_value (nat_to_string n) = n"
proof (induction n rule: nat_to_string.induct)
  case (1 n)
  have one: "digits_value [c] = byte_of c - 48" for c
    using digits_value_snoc [of "[]" c] by simp
  show ?case using 1 by (cases "n < 10") (simp_all add: nat_to_string.simps [of n] one)
qed

lemma nat_to_string_hd: "\<exists>c cs. nat_to_string n = c # cs \<and> is_digit c"
proof -
  obtain c cs where "nat_to_string n = c # cs"
    by (cases "nat_to_string n") auto
  then show ?thesis using nat_to_string_digits [of n] by auto
qed

lemma is_digit_not_sign: "is_digit c \<Longrightarrow> c \<noteq> CHR ''-'' \<and> c \<noteq> CHR ''+''"
  by (auto simp: is_digit_def)

lemma atoi_digits:
  assumes "list_all is_digit ds" and "ds \<noteq> []"
  shows "atoi ds = (if int (digits_value ds) \<le> int64_max then Some (int (digits_value ds)) else None)"
proof -
  obtain c cs where ds: "ds = c # cs" using assms(2) by (cases ds) auto
  with assms(1) have "c \<noteq> CHR ''-''" "c \<noteq> CHR ''+''"
    using is_digit_not_sign [of c] by auto
  with ds have "(case ds of c # cs \<Rightarrow> if c = CHR ''-'' then (True, cs)
       else if c = CHR ''+'' then (False, cs) else (False, ds) | [] \<Rightarrow> (False, ds)) = (False, ds)"
    by simp
  moreover have "int64_min \<le> int n" for n by (simp add: int64_min_def)
  ultimately show ?thesis using assms unfolding atoi_def Let_def by simp
qed

lemma atoi_itoa:
  assumes "int64_min \<le> i" and "i \<le> int64_max"
  shows "atoi (itoa i) = Some i"
proof (cases "i < 0")
  case True
  have "atoi (CHR ''-'' # nat_to_string (nat (- i))) = Some i"
    using assms True by (simp add: atoi_def nat_to_string_digits)
  with True show ?thesis by (simp add: itoa_def)
next
  case False
  with assms show ?thesis
    by (simp add: itoa_def atoi_digits nat_to_string_digits)
qed

lemma atoi_range: "atoi s = Some v \<Longrightarrow> int64_min \<le> v \<and> v \<le> int64_max"
  by (auto simp: atoi_def Let_def split: prod.splits if_splits)

subsection \<open>Quote\<close>

definition hex_lower :: "nat \<Rightarrow> char" where
  "hex_lower d = (if d < 10 then char_of (48 + d) else char_of (87 + d))"

definition hex_upper :: "nat \<Rightarrow> char" where
  "hex_upper d = (if d < 10 then char_of (48 + d) else char_of (55 + d))"

text \<open>The \<open>n\<close> hexadecimal digits of a number, most significant first.\<close>

fun hex_digits :: "nat \<Rightarrow> nat \<Rightarrow> string" where
  "hex_digits 0 v = []"
| "hex_digits (Suc n) v = hex_lower (v div 16 ^ n mod 16) # hex_digits n v"

definition is_print :: "unicode_tables \<Rightarrow> nat \<Rightarrow> bool" where
  "is_print U r = (if r < 128 then 32 \<le> r \<and> r < 127 else print_table U r)"

definition quote_escape :: "nat \<Rightarrow> string" where
  "quote_escape r =
     (if r = 7 then [CHR 0x5C, CHR ''a''] else if r = 8 then [CHR 0x5C, CHR ''b'']
      else if r = 12 then [CHR 0x5C, CHR ''f''] else if r = 10 then [CHR 0x5C, CHR ''n'']
      else if r = 13 then [CHR 0x5C, CHR ''r''] else if r = 9 then [CHR 0x5C, CHR ''t'']
      else if r = 11 then [CHR 0x5C, CHR ''v'']
      else if r < 32 \<or> r = 127 then [CHR 0x5C, CHR ''x''] @ hex_digits 2 r
      else if r < 0x10000 then [CHR 0x5C, CHR ''u''] @ hex_digits 4 r
      else [CHR 0x5C, CHR ''U''] @ hex_digits 8 r)"

definition quote_rune :: "unicode_tables \<Rightarrow> nat \<times> string \<Rightarrow> string" where
  "quote_rune U p =
     (let (r, bs) = p in
      if r = rune_error \<and> length bs = 1 then [CHR 0x5C, CHR ''x''] @ hex_digits 2 (byte_of (hd bs))
      else if r = 34 \<or> r = 92 then [CHR 0x5C, char_of r]
      else if is_print U r then bs
      else quote_escape r)"

definition quote :: "unicode_tables \<Rightarrow> string \<Rightarrow> string" where
  "quote U s = [CHR 0x22] @ concat (map (quote_rune U) (split_runes s)) @ [CHR 0x22]"

text \<open>Printable ASCII without quote or backslash is quoted verbatim.\<close>

definition plain_char :: "char \<Rightarrow> bool" where
  "plain_char c \<longleftrightarrow> 32 \<le> byte_of c \<and> byte_of c < 127 \<and> c \<noteq> CHR 0x22 \<and> c \<noteq> CHR 0x5C"

lemma quote_rune_plain: "plain_char c \<Longrightarrow> quote_rune U (byte_of c, [c]) = [c]"
proof -
  assume c: "plain_char c"
  have "byte_of c \<noteq> 34" "byte_of c \<noteq> 92"
    using c of_char_eq_iff [of c "CHR 0x22", where ?'a = nat]
      of_char_eq_iff [of c "CHR 0x5C", where ?'a = nat]
    by (auto simp: plain_char_def simp del: of_char_eq_iff)
  with c show ?thesis
    by (simp add: quote_rune_def rune_error_def is_print_def plain_char_def)
qed

lemma plain_char_ascii: "plain_char c \<Longrightarrow> is_ascii c"
  unfolding plain_char_def is_ascii_def by linarith

lemma quote_plain:
  assumes "list_all plain_char s"
  shows "quote U s = CHR 0x22 # s @ [CHR 0x22]"
proof -
  have "list_all is_ascii s"
    using assms by (rule list.pred_mono_strong) (rule plain_char_ascii)
  then have sp: "split_runes s = map (\<lambda>c. (byte_of c, [c])) s"
    by (rule split_runes_ascii)
  have "concat (map (quote_rune U \<circ> (\<lambda>c. (byte_of c, [c]))) s) = s"
    using assms by (induction s) (simp_all add: quote_rune_plain)
  then show ?thesis by (simp add: quote_def sp)
qed

end
