(* ===== verification/Ext_Proc.thy ===== *)
theory Ext_Proc
  imports Go_Strconv
begin

section \<open>Messages to and from Envoy (\<open>extproc_response.go\<close>)\<close>

text \<open>
  The ext_proc messages as data, the constructors of \<open>extproc_response.go\<close> and \<open>frame\<close>, which
  cuts a rewritten body into chunks. A Go map is an association list with distinct keys in the
  order the loop visits it. The locale \<open>framing\<close> is what \<open>frame\<close> asks of a \<open>messageFactory\<close>;
  its lemmas say that a peer which reads the framed messages gets the body back.
\<close>

subsection \<open>The protobuf messages\<close>

record header_value =
  hkey :: string
  raw_value :: bytes

type_synonym header_map = "header_value list"

datatype append_action =
  APPEND_IF_EXISTS_OR_ADD | ADD_IF_ABSENT | OVERWRITE_IF_EXISTS_OR_ADD | OVERWRITE_IF_EXISTS

record header_value_option =
  hvo_header :: header_value
  hvo_action :: append_action

record header_mutation =
  set_headers :: "header_value_option list"
  remove_headers :: "string list"

datatype body_mutation = Body bytes | StreamedResponse bytes bool

datatype response_status = CONTINUE | CONTINUE_AND_REPLACE

record common_response =
  cr_status :: response_status
  cr_headers :: "header_mutation option"
  cr_body :: "body_mutation option"

record immediate_response =
  ir_status :: int
  ir_headers :: "header_mutation option"
  ir_body :: bytes

text \<open>\<open>HeadersResponse\<close> and \<open>BodyResponse\<close> hold a \<open>CommonResponse\<close> and nothing else.\<close>

datatype processing_response =
  RequestHeadersResponse common_response
| ResponseHeadersResponse common_response
| RequestBodyResponse common_response
| ResponseBodyResponse common_response
| RequestTrailersResponse
| ResponseTrailersResponse
| ImmediateResponse immediate_response

text \<open>
  What Envoy sends: headers and body chunks carry the end-of-stream flag; \<open>NoRequest\<close> is a message
  whose oneof is not set.
\<close>

datatype processing_request =
  RequestHeaders header_map bool
| RequestBody bytes bool
| RequestTrailers
| ResponseHeaders header_map bool
| ResponseBody bytes bool
| ResponseTrailers
| NoRequest

definition empty_common_response :: common_response where
  "empty_common_response =
     \<lparr>cr_status = CONTINUE, cr_headers = None, cr_body = None\<rparr>"

subsection \<open>Constants\<close>

definition kb :: nat where
  "kb = 1024"

definition streamChunkSize :: nat where
  "streamChunkSize = 60 * kb"

definition headerMCPProtocolVersion :: string where
  "headerMCPProtocolVersion = ''mcp-protocol-version''"

definition headerMCPMethod :: string where
  "headerMCPMethod = ''mcp-method''"

definition headerMCPName :: string where
  "headerMCPName = ''mcp-name''"

definition headerMCPParamPrefix :: string where
  "headerMCPParamPrefix = ''mcp-param-''"

definition contentHeaders :: "string list" where
  "contentHeaders = [''content-length'', ''content-type'']"

definition removeOnRoutingHeaders :: "string list" where
  "removeOnRoutingHeaders =
     [''content-length'', ''content-type'', headerMCPProtocolVersion, headerMCPMethod, headerMCPName]"

definition StatusOK :: int where "StatusOK = 200"
definition StatusAccepted :: int where "StatusAccepted = 202"
definition StatusBadRequest :: int where "StatusBadRequest = 400"
definition StatusForbidden :: int where "StatusForbidden = 403"
definition StatusNotFound :: int where "StatusNotFound = 404"
definition StatusMethodNotAllowed :: int where "StatusMethodNotAllowed = 405"

lemmas http_codes =
  StatusOK_def StatusAccepted_def StatusBadRequest_def StatusForbidden_def StatusNotFound_def
  StatusMethodNotAllowed_def

subsection \<open>Message factories\<close>

definition newRequestHeaders :: "common_response \<Rightarrow> processing_response" where
  "newRequestHeaders response = RequestHeadersResponse response"

definition newResponseHeaders :: "common_response \<Rightarrow> processing_response" where
  "newResponseHeaders response = ResponseHeadersResponse response"

definition newRequestBody :: "common_response \<Rightarrow> processing_response" where
  "newRequestBody response = RequestBodyResponse response"

definition newResponseBody :: "common_response \<Rightarrow> processing_response" where
  "newResponseBody response = ResponseBodyResponse response"

definition requestTrailersResponse :: processing_response where
  "requestTrailersResponse = RequestTrailersResponse"

definition responseTrailersResponse :: processing_response where
  "responseTrailersResponse = ResponseTrailersResponse"

record message_factory =
  wrap_headers :: "common_response \<Rightarrow> processing_response"
  wrap_body :: "common_response \<Rightarrow> processing_response"
  trailer :: processing_response

definition requestFactory :: message_factory where
  "requestFactory =
     \<lparr>wrap_headers = newRequestHeaders, wrap_body = newRequestBody, trailer = requestTrailersResponse\<rparr>"

definition responseFactory :: message_factory where
  "responseFactory =
     \<lparr>wrap_headers = newResponseHeaders, wrap_body = newResponseBody,
      trailer = responseTrailersResponse\<rparr>"

lemmas factory_simps [msg_simps] =
  requestFactory_def responseFactory_def newRequestHeaders_def newResponseHeaders_def
  newRequestBody_def newResponseBody_def requestTrailersResponse_def responseTrailersResponse_def

definition headerMutation ::
  "message_factory \<Rightarrow> header_value_option list \<Rightarrow> string list \<Rightarrow> processing_response" where
  "headerMutation f setHeaders removeHeaders =
     wrap_headers f
       (empty_common_response
          \<lparr>cr_headers := Some \<lparr>set_headers = setHeaders, remove_headers = removeHeaders\<rparr>\<rparr>)"

subsection \<open>Immediate responses\<close>

definition appendHeader ::
  "header_value_option list \<Rightarrow> string \<Rightarrow> string \<Rightarrow> header_value_option list" where
  "appendHeader headers key value =
     headers @ [\<lparr>hvo_header = \<lparr>hkey = key, raw_value = value\<rparr>, hvo_action = OVERWRITE_IF_EXISTS_OR_ADD\<rparr>]"

definition immediateResponse :: "immediate_response \<Rightarrow> processing_response list" where
  "immediateResponse immediate =
     [wrap_headers requestFactory empty_common_response, ImmediateResponse immediate]"

definition httpStatusResponse :: "int \<Rightarrow> processing_response list" where
  "httpStatusResponse st = immediateResponse \<lparr>ir_status = st, ir_headers = None, ir_body = []\<rparr>"

definition methodNotAllowedResponse :: "processing_response list" where
  "methodNotAllowedResponse =
     immediateResponse
       \<lparr>ir_status = StatusMethodNotAllowed,
        ir_headers = Some \<lparr>set_headers = appendHeader [] ''allow'' ''POST'', remove_headers = []\<rparr>,
        ir_body = []\<rparr>"

definition forbiddenResponse :: "processing_response list" where
  "forbiddenResponse = httpStatusResponse StatusForbidden"

definition newImmediateBodyResponseWithStatus :: "bytes \<Rightarrow> int \<Rightarrow> processing_response list" where
  "newImmediateBodyResponseWithStatus body st =
     immediateResponse
       \<lparr>ir_status = st,
        ir_headers =
          Some \<lparr>set_headers = appendHeader [] ''content-type'' ''application/json'', remove_headers = []\<rparr>,
        ir_body = body\<rparr>"

definition newImmediateBodyResponse :: "bytes \<Rightarrow> processing_response list" where
  "newImmediateBodyResponse body = newImmediateBodyResponseWithStatus body StatusOK"

lemmas immediate_simps [msg_simps] =
  immediateResponse_def httpStatusResponse_def methodNotAllowedResponse_def forbiddenResponse_def
  newImmediateBodyResponseWithStatus_def newImmediateBodyResponse_def

subsection \<open>Streamed mutations\<close>

record streamed_mutation =
  sm_headers :: processing_response
  sm_body :: bytes

text \<open>
  \<open>rerouteWithBodyMutation\<close>: the headers of the map in the order it is visited, then the three
  pseudo-headers.
\<close>

definition reroute_headers ::
  "string \<Rightarrow> string \<Rightarrow> string \<Rightarrow> (string \<times> string) list \<Rightarrow> header_value_option list" where
  "reroute_headers host meth path extraHeaders =
     appendHeader
       (appendHeader
          (appendHeader (foldl (\<lambda>hs (k, v). appendHeader hs k v) [] extraHeaders) '':method'' meth)
          '':path'' path)
       '':authority'' host"

definition rerouteWithBodyMutation ::
  "string \<Rightarrow> string \<Rightarrow> string \<Rightarrow> bytes \<Rightarrow> (string \<times> string) list \<Rightarrow> string list \<Rightarrow> streamed_mutation"
  where
  "rerouteWithBodyMutation host meth path body extraHeaders stripHeaders =
     (let removeHeaders =
            (if stripHeaders \<noteq> [] then removeOnRoutingHeaders @ stripHeaders
             else removeOnRoutingHeaders)
      in \<lparr>sm_headers =
            headerMutation requestFactory (reroute_headers host meth path extraHeaders) removeHeaders,
          sm_body = body\<rparr>)"

definition newReplacedResponse :: "header_value_option list \<Rightarrow> bytes \<Rightarrow> processing_response list" where
  "newReplacedResponse hdrs body =
     [wrap_headers responseFactory
        \<lparr>cr_status = CONTINUE_AND_REPLACE,
         cr_headers =
           Some \<lparr>set_headers = appendHeader hdrs '':status'' (itoa StatusOK),
                 remove_headers = contentHeaders\<rparr>,
         cr_body = Some (Body body)\<rparr>]"

definition newStreamedBodyResponse :: "bytes \<Rightarrow> bool \<Rightarrow> common_response" where
  "newStreamedBodyResponse chunk endOfStream =
     empty_common_response\<lparr>cr_body := Some (StreamedResponse chunk endOfStream)\<rparr>"

text \<open>The loop of \<open>frame\<close>: one iteration emits one chunk; it stops once nothing is left.\<close>

function frame_chunks :: "message_factory \<Rightarrow> bool \<Rightarrow> bytes \<Rightarrow> processing_response list" where
  "frame_chunks factory hasTrailers body =
     (let n = min (length body) streamChunkSize;
          chunk = take n body;
          rest = drop n body;
          lst = (rest = [])
      in wrap_body factory (newStreamedBodyResponse chunk (lst \<and> \<not> hasTrailers)) #
         (if lst then [] else frame_chunks factory hasTrailers rest))"
  by pat_completeness auto
termination
  by (relation "measure (\<lambda>(f, t, b). length b)") (auto simp: streamChunkSize_def kb_def)

declare frame_chunks.simps [simp del]

definition frame ::
  "streamed_mutation \<Rightarrow> message_factory \<Rightarrow> bool \<Rightarrow> processing_response list" where
  "frame m factory hasTrailers =
     sm_headers m # frame_chunks factory hasTrailers (sm_body m) @
     (if hasTrailers then [trailer factory] else [])"


subsection \<open>The receiving peer\<close>

text \<open>
  What a peer makes of a sequence of body messages: it appends chunks until one carries
  end-of-stream or until trailers arrive, and returns the body, whether trailers ended it, and
  the messages it has not read. \<open>None\<close>: the messages ran out before the body ended.
\<close>

fun streamed_of :: "common_response \<Rightarrow> (bytes \<times> bool) option" where
  "streamed_of r =
     (case cr_body r of Some (StreamedResponse chunk e) \<Rightarrow> Some (chunk, e) | _ \<Rightarrow> None)"

fun body_chunk :: "processing_response \<Rightarrow> (bytes \<times> bool) option" where
  "body_chunk (RequestBodyResponse r) = streamed_of r"
| "body_chunk (ResponseBodyResponse r) = streamed_of r"
| "body_chunk _ = None"

fun is_trailers :: "processing_response \<Rightarrow> bool" where
  "is_trailers RequestTrailersResponse = True"
| "is_trailers ResponseTrailersResponse = True"
| "is_trailers _ = False"

fun reassemble ::
  "bytes \<Rightarrow> processing_response list \<Rightarrow> (bytes \<times> bool \<times> processing_response list) option" where
  "reassemble acc [] = None"
| "reassemble acc (m # ms) =
     (case body_chunk m of
        Some (chunk, e) \<Rightarrow>
          if e then Some (acc @ chunk, False, ms) else reassemble (acc @ chunk) ms
      | None \<Rightarrow> if is_trailers m then Some (acc, True, ms) else None)"

text \<open>The flags the chunks carry, and their sizes.\<close>

definition chunk_flags :: "processing_response list \<Rightarrow> bool list" where
  "chunk_flags ms = map snd (List.map_filter body_chunk ms)"

definition chunk_sizes :: "processing_response list \<Rightarrow> nat list" where
  "chunk_sizes ms = map (length \<circ> fst) (List.map_filter body_chunk ms)"

lemma streamChunkSize_pos [simp]: "0 < streamChunkSize"
  by (simp add: streamChunkSize_def kb_def)

lemma streamed_of_newStreamed [simp]: "streamed_of (newStreamedBodyResponse c e) = Some (c, e)"
  by (simp add: newStreamedBodyResponse_def empty_common_response_def)

lemma frame_chunks_last:
  "length b \<le> streamChunkSize \<Longrightarrow>
     frame_chunks F t b = [wrap_body F (newStreamedBodyResponse b (\<not> t))]"
  by (simp add: frame_chunks.simps [of F t b])

lemma frame_chunks_more:
  "streamChunkSize < length b \<Longrightarrow>
     frame_chunks F t b =
       wrap_body F (newStreamedBodyResponse (take streamChunkSize b) False) #
       frame_chunks F t (drop streamChunkSize b)"
  by (subst frame_chunks.simps) (simp add: Let_def)

declare streamed_of.simps [simp del]

lemma chunk_view_simps:
  "chunk_sizes [] = []" "chunk_flags [] = []"
  "chunk_sizes (m # ms) =
     (case body_chunk m of Some p \<Rightarrow> length (fst p) # chunk_sizes ms | None \<Rightarrow> chunk_sizes ms)"
  "chunk_flags (m # ms) =
     (case body_chunk m of Some p \<Rightarrow> snd p # chunk_flags ms | None \<Rightarrow> chunk_flags ms)"
  by (simp_all add: chunk_sizes_def chunk_flags_def map_filter_simps split: option.split)

lemma chunk_count_last: "n \<le> streamChunkSize \<Longrightarrow> (n - 1) div streamChunkSize = 0"
  using streamChunkSize_pos by (simp add: div_eq_0_iff) linarith

lemma chunk_count_more:
  "streamChunkSize < n \<Longrightarrow>
     (n - 1) div streamChunkSize = Suc ((n - streamChunkSize - 1) div streamChunkSize)"
  by (simp add: le_div_geq)

text \<open>Induction along the loop of \<open>frame\<close>.\<close>

lemma chunk_induct [case_names last more]:
  assumes "\<And>b. length b \<le> streamChunkSize \<Longrightarrow> P b"
    and "\<And>b. streamChunkSize < length b \<Longrightarrow> P (drop streamChunkSize b) \<Longrightarrow> P b"
  shows "P (b :: bytes)"
proof (induction b rule: length_induct)
  case (1 b)
  show ?case
  proof (cases "length b \<le> streamChunkSize")
    case True
    then show ?thesis by (rule assms(1))
  next
    case False
    then have "length (drop streamChunkSize b) < length b"
      using streamChunkSize_pos unfolding length_drop by linarith
    with "1" have "P (drop streamChunkSize b)" by blast
    show ?thesis
      by (rule assms(2)) (use False \<open>P (drop streamChunkSize b)\<close> in simp_all)
  qed
qed

locale framing =
  fixes F :: message_factory
  assumes chunk_wrap_body: "body_chunk (wrap_body F r) = streamed_of r"
    and chunk_trailer: "body_chunk (trailer F) = None"
    and trailers_trailer: "is_trailers (trailer F)"
begin

lemma reassemble_eos: "reassemble acc (frame_chunks F False b @ ms) = Some (acc @ b, False, ms)"
proof (induction b arbitrary: acc rule: chunk_induct)
  case (last b)
  then show ?case by (simp add: frame_chunks_last chunk_wrap_body)
next
  case (more b)
  then show ?case by (simp add: frame_chunks_more chunk_wrap_body)
qed

lemma reassemble_trailers:
  "reassemble acc (frame_chunks F True b @ trailer F # ms) = Some (acc @ b, True, ms)"
proof (induction b arbitrary: acc rule: chunk_induct)
  case (last b)
  then show ?case
    by (simp add: frame_chunks_last chunk_wrap_body chunk_trailer trailers_trailer)
next
  case (more b)
  then show ?case by (simp add: frame_chunks_more chunk_wrap_body)
qed

lemma reassemble_frame: "reassemble [] (tl (frame m F t) @ ms) = Some (sm_body m, t, ms)"
  by (cases t) (simp_all add: frame_def reassemble_eos reassemble_trailers)

lemma sizes_frame_chunks:
  "chunk_sizes (frame_chunks F t b) =
     replicate ((length b - 1) div streamChunkSize) streamChunkSize @
     [length b - (length b - 1) div streamChunkSize * streamChunkSize]"
proof (induction b rule: chunk_induct)
  case (last b)
  then show ?case
    by (simp add: frame_chunks_last chunk_view_simps chunk_wrap_body chunk_count_last [simplified])
next
  case (more b)
  then show ?case
    by (simp add: frame_chunks_more chunk_view_simps chunk_wrap_body chunk_count_more [simplified])
qed

lemma flags_frame_chunks:
  "chunk_flags (frame_chunks F t b) =
     replicate ((length b - 1) div streamChunkSize) False @ [\<not> t]"
proof (induction b rule: chunk_induct)
  case (last b)
  then show ?case
    by (simp add: frame_chunks_last chunk_view_simps chunk_wrap_body chunk_count_last [simplified])
next
  case (more b)
  then show ?case
    by (simp add: frame_chunks_more chunk_view_simps chunk_wrap_body chunk_count_more [simplified])
qed

lemma length_frame_chunks:
  "length (frame_chunks F t b) = Suc ((length b - 1) div streamChunkSize)"
proof (induction b rule: chunk_induct)
  case (last b)
  then show ?case by (simp add: frame_chunks_last chunk_count_last [simplified])
next
  case (more b)
  then show ?case by (simp add: frame_chunks_more chunk_count_more [simplified])
qed

end

interpretation req: framing requestFactory
  by unfold_locales (simp_all add: msg_simps)

interpretation resp: framing responseFactory
  by unfold_locales (simp_all add: msg_simps)

end
