(* ===== verification/Go_Base64.thy ===== *)
theory Go_Base64
  imports Go_Strings
begin

section \<open>Standard Base64 (package \<open>encoding/base64\<close>)\<close>

text \<open>
  \<open>base64.StdEncoding.DecodeString\<close>: the padded alphabet of RFC 4648. The decoder skips carriage
  returns and line feeds anywhere, wants complete four-character quanta, accepts \<open>=\<close> only as the
  padding of the last one and does not look at the bits the padding drops. \<open>b64_encode\<close> is the
  encoding of the RFC, against which the decoder is proved.
\<close>

definition b64_alphabet :: string where
  "b64_alphabet = ''ABCDEFGHIJKLMNOPQRSTUVWXYZabcdefghijklmnopqrstuvwxyz0123456789+/''"

definition b64_val :: "char \<Rightarrow> nat option" where
  "b64_val c = index_byte b64_alphabet c"

definition b64_char :: "nat \<Rightarrow> char" where
  "b64_char n = b64_alphabet ! n"

definition b64_pad :: char where
  "b64_pad = CHR ''=''"

text \<open>The 24-bit group of four sextets, and its three bytes.\<close>

definition b64_group :: "nat \<Rightarrow> nat \<Rightarrow> nat \<Rightarrow> nat \<Rightarrow> nat" where
  "b64_group p q r s = p * 2 ^ 18 + q * 2 ^ 12 + r * 2 ^ 6 + s"

definition group_bytes :: "nat \<Rightarrow> string" where
  "group_bytes v = [char_of (v div 2 ^ 16), char_of (v div 2 ^ 8 mod 2 ^ 8), char_of (v mod 2 ^ 8)]"

fun b64_quanta :: "string \<Rightarrow> string option" where
  "b64_quanta [] = Some []"
| "b64_quanta (c0 # c1 # c2 # c3 # cs) =
     (case (b64_val c0, b64_val c1) of
        (Some p, Some q) \<Rightarrow>
          (case (b64_val c2, b64_val c3) of
             (Some r, Some s) \<Rightarrow> map_option (\<lambda>bs. group_bytes (b64_group p q r s) @ bs) (b64_quanta cs)
           | (Some r, None) \<Rightarrow>
               if c3 = b64_pad \<and> cs = [] then Some (take 2 (group_bytes (b64_group p q r 0))) else None
           | (None, _) \<Rightarrow>
               if c2 = b64_pad \<and> c3 = b64_pad \<and> cs = []
               then Some (take 1 (group_bytes (b64_group p q 0 0))) else None)
      | _ \<Rightarrow> None)"
| "b64_quanta _ = None"

definition b64_decode :: "string \<Rightarrow> string option" where
  "b64_decode s = b64_quanta (filter (\<lambda>c. c \<noteq> CHR 0x0A \<and> c \<noteq> CHR 0x0D) s)"

subsection \<open>The encoding, and the round trip\<close>

definition byte_group :: "char \<Rightarrow> char \<Rightarrow> char \<Rightarrow> nat" where
  "byte_group a b c = byte_of a * 2 ^ 16 + byte_of b * 2 ^ 8 + byte_of c"

definition sextets :: "nat \<Rightarrow> string" where
  "sextets v =
     [b64_char (v div 2 ^ 18), b64_char (v div 2 ^ 12 mod 64), b64_char (v div 2 ^ 6 mod 64),
      b64_char (v mod 64)]"

fun b64_encode :: "string \<Rightarrow> string" where
  "b64_encode [] = []"
| "b64_encode [a] = take 2 (sextets (byte_group a (CHR 0x00) (CHR 0x00))) @ [b64_pad, b64_pad]"
| "b64_encode [a, b] = take 3 (sextets (byte_group a b (CHR 0x00))) @ [b64_pad]"
| "b64_encode (a # b # c # s) = sextets (byte_group a b c) @ b64_encode s"

lemma index_byte_nth:
  "distinct xs \<Longrightarrow> n < length xs \<Longrightarrow> index_byte xs (xs ! n) = Some n"
proof (induction xs arbitrary: n)
  case Nil
  then show ?case by simp
next
  case (Cons x xs)
  then show ?case by (cases n) auto
qed

lemma index_byte_Some: "index_byte xs c = Some n \<Longrightarrow> n < length xs \<and> xs ! n = c"
  by (induction xs arbitrary: n) (auto split: if_splits)

lemma b64_alphabet_facts:
  "distinct b64_alphabet" "length b64_alphabet = 64" "b64_pad \<notin> set b64_alphabet"
  "CHR 0x0A \<notin> set b64_alphabet" "CHR 0x0D \<notin> set b64_alphabet"
  by (simp_all add: b64_alphabet_def b64_pad_def)

lemma b64_val_char [simp]: "n < 64 \<Longrightarrow> b64_val (b64_char n) = Some n"
  by (simp add: b64_val_def b64_char_def index_byte_nth b64_alphabet_facts)

lemma b64_val_pad [simp]: "b64_val b64_pad = None"
  by (simp add: b64_val_def b64_alphabet_facts)

lemma b64_char_in: "n < 64 \<Longrightarrow> b64_char n \<in> set b64_alphabet"
  by (simp add: b64_char_def b64_alphabet_facts)

lemma byte_of_less: "byte_of c < 256"
  by (cases c) (simp add: of_char_def horner_sum_bit_eq_take_bit)

lemma three_bytes_bound:
  fixes x y z :: nat
  shows "x < 256 \<Longrightarrow> y < 256 \<Longrightarrow> z < 256 \<Longrightarrow> x * 2 ^ 16 + y * 2 ^ 8 + z < 2 ^ 24"
  by simp

lemma byte_group_bound: "byte_group a b c < 2 ^ 24"
  unfolding byte_group_def by (intro three_bytes_bound byte_of_less)

lemma group_of_sextets:
  "b64_group (v div 2 ^ 18) (v div 2 ^ 12 mod 64) (v div 2 ^ 6 mod 64) (v mod 64) = v"
proof -
  define v1 v2 v3 where "v1 = v div 64" and "v2 = v1 div 64" and "v3 = v2 div 64"
  have "v div 2 ^ 6 = v1" by (simp add: v1_def)
  moreover have "v div 2 ^ 12 = v2" using div_mult2_eq [of v 64 64] by (simp add: v1_def v2_def)
  moreover have "v div 2 ^ 18 = v3"
    using div_mult2_eq [of v 4096 64] div_mult2_eq [of v 64 64] by (simp add: v1_def v2_def v3_def)
  moreover have "v = 64 * v1 + v mod 64" "v1 = 64 * v2 + v1 mod 64" "v2 = 64 * v3 + v2 mod 64"
    by (simp_all add: v1_def v2_def v3_def)
  ultimately show ?thesis by (simp add: b64_group_def)
qed

lemma byte_shift:
  fixes x y :: nat
  assumes "y < 256"
  shows "(x * 256 + y) div 256 = x" and "(x * 256 + y) mod 256 = y"
  using assms by simp_all

lemma byte_group_parts:
  "byte_group a b c div 2 ^ 16 = byte_of a" "byte_group a b c div 2 ^ 8 mod 2 ^ 8 = byte_of b"
  "byte_group a b c mod 2 ^ 8 = byte_of c"
proof -
  have g: "byte_group a b c = (byte_of a * 256 + byte_of b) * 256 + byte_of c"
    by (simp add: byte_group_def)
  have d: "byte_group a b c div 256 = byte_of a * 256 + byte_of b"
    unfolding g by (rule byte_shift) (rule byte_of_less)
  have "byte_group a b c mod 256 = byte_of c"
    unfolding g by (rule byte_shift) (rule byte_of_less)
  then show "byte_group a b c mod 2 ^ 8 = byte_of c" by simp
  show "byte_group a b c div 2 ^ 8 mod 2 ^ 8 = byte_of b"
    using byte_shift(2) [OF byte_of_less] d by simp
  show "byte_group a b c div 2 ^ 16 = byte_of a"
    using byte_shift(1) [OF byte_of_less, of "byte_of a" b] d
      div_mult2_eq [of "byte_group a b c" 256 256] by simp
qed

lemma bytes_of_group [simp]: "group_bytes (byte_group a b c) = [a, b, c]"
  unfolding group_bytes_def byte_group_parts by simp

lemma sextet_bound:
  fixes v :: nat
  shows "v < 2 ^ 24 \<Longrightarrow> v div 2 ^ 18 < 64"
  by (simp add: less_mult_imp_div_less)

lemmas group_sextet_bound = sextet_bound [OF byte_group_bound]

text \<open>With the last bytes absent the low sextets of the group are zero.\<close>

lemma group_low_sextets:
  "byte_group a (CHR 0x00) (CHR 0x00) mod 64 = 0"
  "byte_group a (CHR 0x00) (CHR 0x00) div 2 ^ 6 mod 64 = 0"
  "byte_group a b (CHR 0x00) mod 64 = 0"
proof -
  have e: "byte_group a b (CHR 0x00) = 64 * (byte_of a * 1024 + byte_of b * 4)" for a b
    by (simp add: byte_group_def)
  show "byte_group a b (CHR 0x00) mod 64 = 0" unfolding e by simp
  show "byte_group a (CHR 0x00) (CHR 0x00) mod 64 = 0" unfolding e by simp
  have "byte_group a (CHR 0x00) (CHR 0x00) div 2 ^ 6 = 64 * (byte_of a * 16)"
    unfolding e by simp
  then show "byte_group a (CHR 0x00) (CHR 0x00) div 2 ^ 6 mod 64 = 0" by simp
qed

lemma b64_quanta_encode: "b64_quanta (b64_encode s) = Some s"
proof (induction s rule: b64_encode.induct)
  case 1
  then show ?case by simp
next
  case (2 a)
  show ?case
    using group_of_sextets [of "byte_group a (CHR 0x00) (CHR 0x00)"]
      group_sextet_bound [of a "CHR 0x00" "CHR 0x00"]
    unfolding group_low_sextets by (simp add: sextets_def del: power_numeral)
next
  case (3 a b)
  show ?case
    using group_of_sextets [of "byte_group a b (CHR 0x00)"]
      group_sextet_bound [of a b "CHR 0x00"]
    unfolding group_low_sextets by (simp add: sextets_def del: power_numeral)
next
  case (4 a b c s)
  show ?case
    using group_sextet_bound [of a b c] 4 group_of_sextets [of "byte_group a b c"]
    by (simp add: sextets_def del: power_numeral)
qed

lemma sextets_chars: "v < 2 ^ 24 \<Longrightarrow> set (sextets v) \<subseteq> set b64_alphabet"
  using sextet_bound [of v] by (simp add: sextets_def b64_char_in del: power_numeral)

lemma b64_encode_chars: "set (b64_encode s) \<subseteq> insert b64_pad (set b64_alphabet)"
proof (induction s rule: b64_encode.induct)
  case (2 a)
  then show ?case
    using sextets_chars [OF byte_group_bound [of a "CHR 0x00" "CHR 0x00"]]
    by (auto dest: in_set_takeD)
next
  case (3 a b)
  then show ?case
    using sextets_chars [OF byte_group_bound [of a b "CHR 0x00"]]
    by (auto dest: in_set_takeD)
next
  case (4 a b c s)
  then show ?case
    using sextets_chars [OF byte_group_bound [of a b c]] by auto
qed simp

theorem b64_decode_encode: "b64_decode (b64_encode s) = Some s"
proof -
  have "c \<noteq> CHR 0x0A \<and> c \<noteq> CHR 0x0D" if "c \<in> set (b64_encode s)" for c
    using that b64_encode_chars [of s] b64_alphabet_facts by (auto simp: b64_pad_def)
  then have "filter (\<lambda>c. c \<noteq> CHR 0x0A \<and> c \<noteq> CHR 0x0D) (b64_encode s) = b64_encode s"
    by (simp add: filter_id_conv)
  then show ?thesis by (simp add: b64_decode_def b64_quanta_encode)
qed

end
