(* ===== verification/Go_Json.thy ===== *)
theory Go_Json
  imports Go_Strconv
begin

section \<open>JSON text (package \<open>encoding/json\<close>)\<close>

text \<open>
  The grammar that \<open>json.Valid\<close> and \<open>json.Unmarshal\<close> accept, as a parser from bytes to a tree that
  keeps the order of object members and their duplicates. A number keeps its literal text; a string
  is unquoted as \<open>Unmarshal\<close> does it, with invalid UTF-8 and lone surrogates replaced by U+FFFD.
  Arrays and objects nest at most \<open>max_nesting_depth\<close> deep.
\<close>

datatype json =
  JNull
| JBool bool
| JNum string
| JStr string
| JArr "json list"
| JObj "(string \<times> json) list"

definition max_nesting_depth :: nat where
  "max_nesting_depth = 10000"

subsection \<open>Tokens\<close>

definition is_ws :: "char \<Rightarrow> bool" where
  "is_ws c \<longleftrightarrow> c = CHR '' '' \<or> c = CHR 0x09 \<or> c = CHR 0x0A \<or> c = CHR 0x0D"

definition skip_ws :: "string \<Rightarrow> string" where
  "skip_ws s = dropWhile is_ws s"

lemma length_skip_ws: "length (skip_ws s) \<le> length s"
  by (simp add: skip_ws_def length_dropWhile_le)

definition hex_val :: "char \<Rightarrow> nat option" where
  "hex_val c =
     (let b = byte_of c in
      if 48 \<le> b \<and> b \<le> 57 then Some (b - 48)
      else if 97 \<le> b \<and> b \<le> 102 then Some (b - 87)
      else if 65 \<le> b \<and> b \<le> 70 then Some (b - 55)
      else None)"

fun hex4 :: "string \<Rightarrow> (nat \<times> string) option" where
  "hex4 (a # b # c # d # s) =
     (case (hex_val a, hex_val b, hex_val c, hex_val d) of
        (Some w, Some x, Some y, Some z) \<Rightarrow> Some (w * 4096 + x * 256 + y * 16 + z, s)
      | _ \<Rightarrow> None)"
| "hex4 _ = None"

lemma length_hex4: "hex4 s = Some (r, t) \<Longrightarrow> length t < length s"
  by (cases s rule: hex4.cases) (auto split: option.splits)

definition is_surrogate :: "nat \<Rightarrow> bool" where
  "is_surrogate r \<longleftrightarrow> 0xD800 \<le> r \<and> r \<le> 0xDFFF"

text \<open>A second escape that completes the surrogate pair which starts with \<open>r\<close>.\<close>

fun low_surrogate :: "nat \<Rightarrow> string \<Rightarrow> (nat \<times> string) option" where
  "low_surrogate r (a # b # s) =
     (if a = CHR 0x5C \<and> b = CHR ''u'' then
        (case hex4 s of
           Some (r2, t) \<Rightarrow>
             if r < 0xDC00 \<and> 0xDC00 \<le> r2 \<and> r2 \<le> 0xDFFF
             then Some ((r - 0xD800) * 1024 + (r2 - 0xDC00) + 0x10000, t) else None
         | None \<Rightarrow> None)
      else None)"
| "low_surrogate r _ = None"

lemma length_low_surrogate: "low_surrogate r s = Some (v, t) \<Longrightarrow> length t < length s"
  by (cases "(r, s)" rule: low_surrogate.cases)
    (auto split: if_splits option.splits dest: length_hex4)

definition simple_escape :: "char \<Rightarrow> char option" where
  "simple_escape e =
     (if e = CHR 0x22 \<or> e = CHR 0x5C \<or> e = CHR ''/'' then Some e
      else if e = CHR ''b'' then Some (CHR 0x08) else if e = CHR ''f'' then Some (CHR 0x0C)
      else if e = CHR ''n'' then Some (CHR 0x0A) else if e = CHR ''r'' then Some (CHR 0x0D)
      else if e = CHR ''t'' then Some (CHR 0x09) else None)"

text \<open>The code point of an escape after its backslash, and what follows it.\<close>

definition lex_escape :: "string \<Rightarrow> (string \<times> string) option" where
  "lex_escape s =
     (case s of
        [] \<Rightarrow> None
      | e # cs \<Rightarrow>
          if e = CHR ''u'' then
            (case hex4 cs of
               None \<Rightarrow> None
             | Some (r, t) \<Rightarrow>
                 if is_surrogate r then
                   (case low_surrogate r t of
                      Some (v, u) \<Rightarrow> Some (encode_rune v, u)
                    | None \<Rightarrow> Some (encode_rune rune_error, t))
                 else Some (encode_rune r, t))
          else map_option (\<lambda>c. ([c], cs)) (simple_escape e))"

lemma length_lex_escape: "lex_escape s = Some (x, t) \<Longrightarrow> length t < length s"
  by (auto simp: lex_escape_def split: list.splits if_splits option.splits prod.splits
      dest!: length_hex4 length_low_surrogate)

text \<open>The rest of a string literal after its opening quote: the unquoted text and what follows.\<close>

function lex_string :: "string \<Rightarrow> (string \<times> string) option" where
  "lex_string s =
     (case s of
        [] \<Rightarrow> None
      | c # cs \<Rightarrow>
          if c = CHR 0x22 then Some ([], cs)
          else if c = CHR 0x5C then
            (case lex_escape cs of
               None \<Rightarrow> None
             | Some (x, t) \<Rightarrow> map_option (map_prod ((@) x) id) (lex_string t))
          else if byte_of c < 32 then None
          else if is_ascii c then map_option (map_prod ((#) c) id) (lex_string cs)
          else
            (let (r, w) = decode_rune s
             in map_option (map_prod ((@) (encode_rune r)) id) (lex_string (drop w s))))"
  by pat_completeness auto
termination
proof (relation "measure length", goal_cases)
  case 1
  show ?case by simp
next
  case (2 s c cs p x t)
  then show ?case by (auto dest: length_lex_escape)
next
  case 3
  then show ?case by simp
next
  case (4 s c cs p r w)
  then have "1 \<le> w" using decode_rune_width [of s] by (metis list.distinct(1) snd_conv)
  with 4 show ?case by simp
qed

declare lex_string.simps [simp del]

text \<open>One equation per branch of the loop.\<close>

lemma lex_string_Nil: "lex_string [] = None"
  by (simp add: lex_string.simps [of "[]"])

lemma lex_string_quote: "lex_string (CHR 0x22 # cs) = Some ([], cs)"
  by (simp add: lex_string.simps [of "_ # _"])

lemma lex_string_escape:
  "lex_string (CHR 0x5C # cs) =
     (case lex_escape cs of
        None \<Rightarrow> None
      | Some (x, t) \<Rightarrow> map_option (map_prod ((@) x) id) (lex_string t))"
  by (simp add: lex_string.simps [of "_ # _"])

lemma lex_string_control:
  "c \<noteq> CHR 0x22 \<Longrightarrow> c \<noteq> CHR 0x5C \<Longrightarrow> byte_of c < 32 \<Longrightarrow> lex_string (c # cs) = None"
  by (simp add: lex_string.simps [of "_ # _"])

lemma lex_string_plain:
  "c \<noteq> CHR 0x22 \<Longrightarrow> c \<noteq> CHR 0x5C \<Longrightarrow> \<not> byte_of c < 32 \<Longrightarrow> is_ascii c \<Longrightarrow>
     lex_string (c # cs) = map_option (map_prod ((#) c) id) (lex_string cs)"
  by (simp add: lex_string.simps [of "_ # _"])

lemma lex_string_utf8:
  "c \<noteq> CHR 0x22 \<Longrightarrow> c \<noteq> CHR 0x5C \<Longrightarrow> \<not> is_ascii c \<Longrightarrow> decode_rune (c # cs) = (r, w) \<Longrightarrow>
     lex_string (c # cs) =
       map_option (map_prod ((@) (encode_rune r)) id) (lex_string (drop w (c # cs)))"
  by (simp add: lex_string.simps [of "c # cs"] is_ascii_def)

lemma length_lex_string: "lex_string s = Some (x, t) \<Longrightarrow> length t < length s"
proof (induction "length s" arbitrary: s x t rule: less_induct)
  case less
  obtain c cs where s: "s = c # cs"
    using less.prems by (cases s) (simp_all add: lex_string_Nil)
  have step: "length t' < length s'" if "lex_string s' = Some (x', t')" "length s' < length s" for s' x' t'
    using less.hyps that by blast
  consider "c = CHR 0x22" | "c = CHR 0x5C" | "c \<noteq> CHR 0x22" "c \<noteq> CHR 0x5C" "byte_of c < 32"
    | "c \<noteq> CHR 0x22" "c \<noteq> CHR 0x5C" "\<not> byte_of c < 32" "is_ascii c"
    | "c \<noteq> CHR 0x22" "c \<noteq> CHR 0x5C" "\<not> is_ascii c"
    by blast
  then show ?case
  proof cases
    case 1
    with less.prems s show ?thesis by (simp add: lex_string_quote)
  next
    case 2
    with less.prems s obtain y u z where u: "lex_escape cs = Some (y, u)" "lex_string u = Some (z, t)"
      by (auto simp: lex_string_escape split: option.splits prod.splits)
    then show ?thesis using step [of u z t] length_lex_escape [of cs y u] s by simp
  next
    case 3
    with less.prems s show ?thesis by (simp add: lex_string_control)
  next
    case 4
    with less.prems s obtain z where "lex_string cs = Some (z, t)"
      by (auto simp: lex_string_plain)
    then show ?thesis using step [of cs z t] s by simp
  next
    case 5
    obtain r w where rw: "decode_rune (c # cs) = (r, w)" by fastforce
    then have w: "1 \<le> w" using decode_rune_width [of "c # cs"] by simp
    obtain z where "lex_string (drop w s) = Some (z, t)"
      using less.prems 5 s by (auto simp: lex_string_utf8 [OF 5 rw])
    then show ?thesis using step [of "drop w s" z t] s w by simp
  qed
qed

subsection \<open>Numbers\<close>

definition lex_digits :: "string \<Rightarrow> (string \<times> string) option" where
  "lex_digits s =
     (let ds = takeWhile is_digit s in if ds = [] then None else Some (ds, dropWhile is_digit s))"

definition lex_int :: "string \<Rightarrow> (string \<times> string) option" where
  "lex_int s =
     (case s of
        c # cs \<Rightarrow> if c = CHR ''0'' then Some ([c], cs) else lex_digits s
      | [] \<Rightarrow> None)"

definition lex_frac :: "string \<Rightarrow> (string \<times> string) option" where
  "lex_frac s =
     (case s of
        c # cs \<Rightarrow> if c = CHR ''.'' then map_option (map_prod ((#) c) id) (lex_digits cs) else Some ([], s)
      | [] \<Rightarrow> Some ([], s))"

definition lex_exp :: "string \<Rightarrow> (string \<times> string) option" where
  "lex_exp s =
     (case s of
        c # cs \<Rightarrow>
          if c = CHR ''e'' \<or> c = CHR ''E'' then
            (case cs of
               d # ds \<Rightarrow>
                 if d = CHR ''+'' \<or> d = CHR ''-''
                 then map_option (map_prod ((@) [c, d]) id) (lex_digits ds)
                 else map_option (map_prod ((#) c) id) (lex_digits cs)
             | [] \<Rightarrow> None)
          else Some ([], s)
      | [] \<Rightarrow> Some ([], s))"

definition lex_number :: "string \<Rightarrow> (string \<times> string) option" where
  "lex_number s =
     (let (sign, s1) = (case s of c # cs \<Rightarrow> if c = CHR ''-'' then ([c], cs) else ([], s) | [] \<Rightarrow> ([], s))
      in case lex_int s1 of
           None \<Rightarrow> None
         | Some (i, s2) \<Rightarrow>
             (case lex_frac s2 of
                None \<Rightarrow> None
              | Some (f, s3) \<Rightarrow>
                  (case lex_exp s3 of
                     None \<Rightarrow> None
                   | Some (e, s4) \<Rightarrow> Some (sign @ i @ f @ e, s4))))"

subsection \<open>Values\<close>

text \<open>
  The depth that is left decreases with every bracket. The tests \<open>length r' < length s\<close> hold
  whenever they are reached; they are what the termination proof needs.
\<close>

function parse_value :: "nat \<Rightarrow> string \<Rightarrow> (json \<times> string) option"
  and parse_elems :: "nat \<Rightarrow> string \<Rightarrow> (json list \<times> string) option"
  and parse_members :: "nat \<Rightarrow> string \<Rightarrow> ((string \<times> json) list \<times> string) option"
where
  "parse_value d s =
     (case skip_ws s of
        [] \<Rightarrow> None
      | c # cs \<Rightarrow>
          if c = CHR 0x22 then map_option (map_prod JStr id) (lex_string cs)
          else if c = CHR ''['' then
            (if d = 0 then None
             else if skip_ws cs \<noteq> [] \<and> hd (skip_ws cs) = CHR '']'' then Some (JArr [], tl (skip_ws cs))
             else map_option (map_prod JArr id) (parse_elems (d - 1) cs))
          else if c = CHR ''{'' then
            (if d = 0 then None
             else if skip_ws cs \<noteq> [] \<and> hd (skip_ws cs) = CHR ''}'' then Some (JObj [], tl (skip_ws cs))
             else map_option (map_prod JObj id) (parse_members (d - 1) cs))
          else if has_prefix (c # cs) ''true'' then Some (JBool True, drop 4 (c # cs))
          else if has_prefix (c # cs) ''false'' then Some (JBool False, drop 5 (c # cs))
          else if has_prefix (c # cs) ''null'' then Some (JNull, drop 4 (c # cs))
          else map_option (map_prod JNum id) (lex_number (c # cs)))"
| "parse_elems d s =
     (case parse_value d s of
        None \<Rightarrow> None
      | Some (v, r) \<Rightarrow>
          (case skip_ws r of
             [] \<Rightarrow> None
           | e # r' \<Rightarrow>
               if e = CHR '','' then
                 (if length r' < length s then map_option (map_prod ((#) v) id) (parse_elems d r')
                  else None)
               else if e = CHR '']'' then Some ([v], r')
               else None))"
| "parse_members d s =
     (case skip_ws s of
        [] \<Rightarrow> None
      | q # s1 \<Rightarrow>
          if q \<noteq> CHR 0x22 then None
          else
            (case lex_string s1 of
               None \<Rightarrow> None
             | Some (k, s2) \<Rightarrow>
                 (case skip_ws s2 of
                    [] \<Rightarrow> None
                  | col # s3 \<Rightarrow>
                      if col \<noteq> CHR '':'' then None
                      else if length s3 < length s then
                        (case parse_value d s3 of
                           None \<Rightarrow> None
                         | Some (v, r) \<Rightarrow>
                             (case skip_ws r of
                                [] \<Rightarrow> None
                              | e # r' \<Rightarrow>
                                  if e = CHR '','' then
                                    (if length r' < length s
                                     then map_option (map_prod ((#) (k, v)) id) (parse_members d r')
                                     else None)
                                  else if e = CHR ''}'' then Some ([(k, v)], r')
                                  else None))
                      else None)))"
  by pat_completeness auto
termination
proof (relation "measures
    [\<lambda>x. case x of Inl (d, s) \<Rightarrow> length s | Inr (Inl (d, s)) \<Rightarrow> length s | Inr (Inr (d, s)) \<Rightarrow> length s,
     \<lambda>x. case x of Inl _ \<Rightarrow> 0 | Inr _ \<Rightarrow> 1]", goal_cases)
  case 1
  show ?case by simp
next
  case (2 d s c cs)
  then show ?case using length_skip_ws [of s] by simp
next
  case (3 d s c cs)
  then show ?case using length_skip_ws [of s] by simp
qed simp_all

declare parse_value.simps [simp del] parse_elems.simps [simp del] parse_members.simps [simp del]

definition parse_json :: "string \<Rightarrow> json option" where
  "parse_json s =
     (case parse_value max_nesting_depth s of
        Some (v, r) \<Rightarrow> if skip_ws r = [] then Some v else None
      | None \<Rightarrow> None)"

definition json_valid :: "string \<Rightarrow> bool" where
  "json_valid s \<longleftrightarrow> parse_json s \<noteq> None"

end
