(* ===== verification/Go_Float.thy ===== *)
theory Go_Float
  imports Go_Json
begin

section \<open>Floating-point numbers as text\<close>

text \<open>
  \<open>encoding/json\<close> turns a number inside an \<open>any\<close> into a \<open>float64\<close>, and the program prints it back
  twice: with \<open>%v\<close> into paths, queries and headers, and with \<open>json.Marshal\<close> into request bodies.
  A finite \<open>float64\<close> is a sign, a mantissa and a binary exponent. \<open>parse_float\<close> rounds a decimal
  literal to the nearest one, ties to even; \<open>shortest\<close> finds the fewest decimal digits inside the
  interval that rounds back to it; \<open>format_g\<close> and \<open>format_json\<close> lay the digits out as the verbs do.
\<close>

datatype float64 = F64 (f_neg: bool) (f_mant: nat) (f_exp: int)

fun bit_length :: "nat \<Rightarrow> nat" where
  "bit_length n = (if n = 0 then 0 else Suc (bit_length (n div 2)))"

declare bit_length.simps [simp del]

subsection \<open>Decimal literals\<close>

text \<open>Sign, digits as one number, and the power of ten they are scaled by.\<close>

definition decimal_of_literal :: "string \<Rightarrow> bool \<times> nat \<times> int" where
  "decimal_of_literal s =
     (let neg = (s \<noteq> [] \<and> hd s = CHR ''-'');
          s1 = (if neg then tl s else s);
          ip = takeWhile is_digit s1;
          s2 = dropWhile is_digit s1;
          fp = (if s2 \<noteq> [] \<and> hd s2 = CHR ''.'' then takeWhile is_digit (tl s2) else []);
          s3 = (if s2 \<noteq> [] \<and> hd s2 = CHR ''.'' then dropWhile is_digit (tl s2) else s2);
          ex = (if s3 = [] then 0
                else let t = tl s3 in
                     if t \<noteq> [] \<and> hd t = CHR ''-'' then - int (digits_value (tl t))
                     else if t \<noteq> [] \<and> hd t = CHR ''+'' then int (digits_value (tl t))
                     else int (digits_value t))
      in (neg, digits_value (ip @ fp), ex - int (length fp)))"

definition scale_up :: "nat \<Rightarrow> int \<Rightarrow> nat \<Rightarrow> nat" where
  "scale_up b e n = (if 0 \<le> e then n * b ^ nat e else n)"

text \<open>
  The nearest \<open>float64\<close> to \<open>num / den\<close>; \<open>None\<close> is overflow. The exponent is chosen so that the
  mantissa has 53 bits, or fewer at the subnormal end.
\<close>

definition round_half_even :: "nat \<Rightarrow> nat \<Rightarrow> nat" where
  "round_half_even n d =
     (if 2 * (n mod d) > d \<or> (2 * (n mod d) = d \<and> odd (n div d)) then Suc (n div d) else n div d)"

definition scaled_quotient :: "(nat \<Rightarrow> nat \<Rightarrow> nat) \<Rightarrow> nat \<Rightarrow> nat \<Rightarrow> int \<Rightarrow> nat" where
  "scaled_quotient quot num den e = quot (scale_up 2 (- e) num) (scale_up 2 e den)"

definition float_exp_from :: "nat \<Rightarrow> nat \<Rightarrow> int \<Rightarrow> int" where
  "float_exp_from num den e0 =
     max (if 2 ^ 53 \<le> scaled_quotient (div) num den e0 then e0 + 1 else e0) (- 1074)"

definition float_exp :: "nat \<Rightarrow> nat \<Rightarrow> int" where
  "float_exp num den =
     float_exp_from num den (int (bit_length num) - int (bit_length den) - 53)"

text \<open>Carry out of the mantissa, underflow to zero and overflow.\<close>

definition pack_float :: "bool \<Rightarrow> nat \<Rightarrow> int \<Rightarrow> float64 option" where
  "pack_float neg m e =
     (if m = 0 then Some (F64 neg 0 0)
      else if m = 2 ^ 53 then (if e + 1 > 971 then None else Some (F64 neg (2 ^ 52) (e + 1)))
      else if e > 971 then None else Some (F64 neg m e))"

definition float_at :: "bool \<Rightarrow> nat \<Rightarrow> nat \<Rightarrow> int \<Rightarrow> float64 option" where
  "float_at neg num den e = pack_float neg (scaled_quotient round_half_even num den e) e"

definition nearest_float :: "bool \<Rightarrow> nat \<Rightarrow> nat \<Rightarrow> float64 option" where
  "nearest_float neg num den =
     (if num = 0 then Some (F64 neg 0 0) else float_at neg num den (float_exp num den))"

definition parse_float :: "string \<Rightarrow> float64 option" where
  "parse_float s =
     (let (neg, n, e) = decimal_of_literal s in nearest_float neg (scale_up 10 e n) (scale_up 10 (- e) 1))"

subsection \<open>Shortest digits\<close>

text \<open>
  Twice-doubled integers: with \<open>V = 4 * m\<close>, the neighbours' midpoints are \<open>4 * m + 2\<close> above and
  \<open>4 * m - 2\<close> below, or \<open>4 * m - 1\<close> where the mantissa is the least of its binade. All are read
  against the scale \<open>2 ^ (e - 2)\<close>.
\<close>

definition lower_mid :: "nat \<Rightarrow> int \<Rightarrow> nat" where
  "lower_mid m e = (if m = 2 ^ 52 \<and> - 1074 < e then 4 * m - 1 else 4 * m - 2)"

definition upper_mid :: "nat \<Rightarrow> nat" where
  "upper_mid m = 4 * m + 2"

text \<open>The comparison of \<open>x * 2 ^ (e - 2)\<close> with \<open>d * 10 ^ k\<close>, both sides scaled to integers.\<close>

definition bin_side :: "nat \<Rightarrow> int \<Rightarrow> int \<Rightarrow> nat" where
  "bin_side x e k = scale_up 10 (- k) (scale_up 2 (e - 2) x)"

definition dec_side :: "nat \<Rightarrow> int \<Rightarrow> int \<Rightarrow> nat" where
  "dec_side d e k = scale_up 2 (2 - e) (scale_up 10 k d)"

text \<open>
  The decimal point: the least \<open>k\<close> with \<open>V < 10 ^ k\<close>, the first hit among the candidates upwards
  from an estimate that is too small.
\<close>

fun find_point :: "nat \<Rightarrow> int \<Rightarrow> int list \<Rightarrow> int" where
  "find_point m e [] = 0"
| "find_point m e (k # ks) =
     (if bin_side (4 * m) e k < dec_side 1 e k then k else find_point m e ks)"

definition decimal_point :: "nat \<Rightarrow> int \<Rightarrow> int" where
  "decimal_point m e =
     (let est = (int (bit_length m) + e - 1) * 30103 div 100000 - 1
      in find_point m e [est, est + 1, est + 2, est + 3, est + 4])"

definition in_interval :: "nat \<Rightarrow> nat \<Rightarrow> nat \<Rightarrow> bool" where
  "in_interval m lo hi = (if even m then lo \<le> hi else lo < hi)"

text \<open>
  The decimals of \<open>n\<close> digits next to the value, below and above, for each \<open>n\<close> in turn; 17 digits
  always suffice.
\<close>

fun shortest_from :: "nat \<Rightarrow> int \<Rightarrow> int \<Rightarrow> nat list \<Rightarrow> nat" where
  "shortest_from m e k [] = 0"
| "shortest_from m e k (n # ns) =
     (let u = k - int n;
          down = bin_side (4 * m) e u div dec_side 1 e u;
          okdown = in_interval m (bin_side (lower_mid m e) e u) (dec_side down e u);
          okup = in_interval m (dec_side (Suc down) e u) (bin_side (upper_mid m) e u)
      in if okdown \<and> okup then round_half_even (bin_side (4 * m) e u) (dec_side 1 e u)
         else if okdown then down
         else if okup then Suc down
         else shortest_from m e k ns)"

fun strip_zeros :: "string \<Rightarrow> string" where
  "strip_zeros s = rev (dropWhile (\<lambda>c. c = CHR ''0'') (rev s))"

text \<open>
  The digits and the position of the decimal point, \<open>0.d1d2... * 10 ^ k\<close>; no digits for zero.
  The result 10 can only be a 9 carried over, which moves the point.
\<close>

definition point_digits :: "nat \<Rightarrow> int \<Rightarrow> string \<times> int" where
  "point_digits d k = (strip_zeros (nat_to_string d), if d = 10 then k + 1 else k)"

definition shortest_at :: "nat \<Rightarrow> int \<Rightarrow> int \<Rightarrow> string \<times> int" where
  "shortest_at m e k =
     point_digits
       (shortest_from m e k [1, 2, 3, 4, 5, 6, 7, 8, 9, 10, 11, 12, 13, 14, 15, 16, 17]) k"

definition shortest :: "float64 \<Rightarrow> string \<times> int" where
  "shortest f =
     (if f_mant f = 0 then ([], 0)
      else shortest_at (f_mant f) (f_exp f) (decimal_point (f_mant f) (f_exp f)))"

subsection \<open>Layout\<close>

definition fmt_sign :: "float64 \<Rightarrow> string" where
  "fmt_sign f = (if f_neg f then ''-'' else [])"

text \<open>\<open>%e\<close> with all digits: at least two exponent digits.\<close>

definition fmt_e :: "string \<Rightarrow> int \<Rightarrow> string" where
  "fmt_e ds k =
     (let x = (if ds = [] then 0 else k - 1); ds' = (if ds = [] then ''0'' else ds) in
      take 1 ds' @ (if length ds' > 1 then ''.'' @ drop 1 ds' else []) @ ''e'' @
      (if x < 0 then ''-'' else ''+'') @
      (if \<bar>x\<bar> < 10 then ''0'' else []) @ nat_to_string (nat \<bar>x\<bar>))"

text \<open>\<open>%f\<close> with as many decimals as the digits need.\<close>

definition fmt_f :: "string \<Rightarrow> int \<Rightarrow> string" where
  "fmt_f ds k =
     (if 0 < k
      then take (nat k) ds @ replicate (nat k - length ds) (CHR ''0'') @
           (if nat k < length ds then ''.'' @ drop (nat k) ds else [])
      else ''0'' @ (if ds = [] then [] else ''.'' @ replicate (nat (- k)) (CHR ''0'') @ ds))"

text \<open>\<open>fmt.Sprintf("%v")\<close> is \<open>%g\<close> with the shortest digits: \<open>%e\<close> for exponents below -4 or from 6 on.\<close>

definition format_g :: "float64 \<Rightarrow> string" where
  "format_g f =
     (let (ds, k) = shortest f; x = k - 1 in
      fmt_sign f @ (if x < - 4 \<or> 6 \<le> x then fmt_e ds k else fmt_f ds k))"

text \<open>
  \<open>json.Marshal\<close>: \<open>%f\<close> between 1e-6 and 1e21, else \<open>%e\<close> with a one-digit negative exponent.
\<close>

definition fmt_e_json :: "string \<Rightarrow> int \<Rightarrow> string" where
  "fmt_e_json ds k =
     (let x = k - 1 in
      if - 10 < x \<and> x < 0
      then take 1 ds @ (if length ds > 1 then ''.'' @ drop 1 ds else []) @ ''e-'' @ nat_to_string (nat (- x))
      else fmt_e ds k)"

definition format_json :: "float64 \<Rightarrow> string" where
  "format_json f =
     (let (ds, k) = shortest f; x = k - 1 in
      fmt_sign f @ (if ds \<noteq> [] \<and> (x < - 6 \<or> 21 \<le> x) then fmt_e_json ds k else fmt_f ds k))"

text \<open>Evaluation of closed instances: the recursions unfold on numerals only.\<close>

lemma bit_length_eval:
  "bit_length 0 = 0" "bit_length (Suc 0) = 1"
  "bit_length (numeral k) = Suc (bit_length (numeral k div 2))"
  by (simp_all add: bit_length.simps [of 0] bit_length.simps [of "Suc 0"]
      bit_length.simps [of "numeral k"])

lemma nat_to_string_eval:
  "nat_to_string 0 = ''0''" "nat_to_string (Suc 0) = ''1''"
  "nat_to_string (numeral k) =
     (if numeral k < (10 :: nat) then [digit_char (numeral k)]
      else nat_to_string (numeral k div 10) @ [digit_char (numeral k mod 10)])"
  by (simp_all add: nat_to_string.simps [of 0] nat_to_string.simps [of "Suc 0"]
      nat_to_string.simps [of "numeral k"] digit_char_def char_of_def bit_0)

lemmas float_eval =
  parse_float_def decimal_of_literal_def nearest_float_def float_at_def pack_float_def
  float_exp_def float_exp_from_def scaled_quotient_def round_half_even_def scale_up_def
  shortest_def shortest_at_def point_digits_def decimal_point_def bin_side_def dec_side_def lower_mid_def upper_mid_def
  format_g_def format_json_def fmt_sign_def fmt_e_def fmt_f_def fmt_e_json_def digits_value_def
  is_digit_def digit_char_def char_of_def bit_0 bit_length_eval nat_to_string_eval in_interval_def

end
