(* ===== verification/Go_Value.thy ===== *)
theory Go_Value
  imports Go_Float "HOL-Library.AList"
begin

section \<open>Decoding and encoding values (package \<open>encoding/json\<close>)\<close>

text \<open>
  The values an \<open>any\<close> holds after \<open>json.Unmarshal\<close>, how JSON trees become such values, how object
  keys select struct fields, and the text \<open>json.Marshal\<close> writes. A \<open>map[string]any\<close> is an
  association list with distinct keys.
\<close>

datatype gvalue =
  VNull
| VBool bool
| VFloat float64
| VString string
| VList "gvalue list"
| VMap "(string \<times> gvalue) list"

subsection \<open>Unmarshalling into \<open>any\<close>\<close>

text \<open>
  \<open>None\<close> where \<open>Unmarshal\<close> reports an error: a number outside the range of \<open>float64\<close>. A repeated
  key keeps its last value.
\<close>

fun all_some :: "'a option list \<Rightarrow> 'a list option" where
  "all_some [] = Some []"
| "all_some (x # xs) =
     (case x of None \<Rightarrow> None | Some y \<Rightarrow> map_option ((#) y) (all_some xs))"

definition map_of_pairs :: "(string \<times> 'v) list \<Rightarrow> (string \<times> 'v) list \<Rightarrow> (string \<times> 'v) list" where
  "map_of_pairs m kvs = foldl (\<lambda>acc (k, v). AList.update k v acc) m kvs"

fun value_of_json :: "json \<Rightarrow> gvalue option" where
  "value_of_json JNull = Some VNull"
| "value_of_json (JBool b) = Some (VBool b)"
| "value_of_json (JNum lit) = map_option VFloat (parse_float lit)"
| "value_of_json (JStr s) = Some (VString s)"
| "value_of_json (JArr xs) = map_option VList (all_some (map value_of_json xs))"
| "value_of_json (JObj kvs) =
     map_option (\<lambda>vs. VMap (map_of_pairs [] (zip (map fst kvs) vs)))
       (all_some (map (\<lambda>p. value_of_json (snd p)) kvs))"

lemma distinct_map_of_pairs:
  "distinct (map fst m) \<Longrightarrow> distinct (map fst (map_of_pairs m kvs))"
  by (induction kvs arbitrary: m)
    (auto simp: map_of_pairs_def distinct_update split: prod.splits)

lemma map_of_map_of_pairs: "map_of (map_of_pairs m kvs) = map_of m ++ map_of (rev kvs)"
proof (induction kvs arbitrary: m)
  case Nil
  then show ?case by (simp add: map_of_pairs_def)
next
  case (Cons p kvs)
  obtain k v where p: "p = (k, v)" by (cases p) auto
  have "map_of (map_of_pairs m (p # kvs)) = map_of (map_of_pairs (AList.update k v m) kvs)"
    by (simp add: map_of_pairs_def p)
  also have "\<dots> = (map_of m)(k \<mapsto> v) ++ map_of (rev kvs)"
    by (simp only: Cons.IH update_conv')
  also have "\<dots> = map_of m ++ map_of (rev (p # kvs))"
    by (simp add: p map_add_assoc)
  finally show ?case .
qed

subsection \<open>Struct fields\<close>

text \<open>
  A key selects the field of that name, or else the one whose name it equals up to case. Besides
  the ASCII letters two code points fold into ASCII: U+017F to \<open>S\<close> and U+212A to \<open>K\<close>.
\<close>

definition fold_rune :: "nat \<Rightarrow> nat" where
  "fold_rune r =
     (if r < 128 then byte_of (ascii_upper (char_of r))
      else if r = 0x17F then 83 else if r = 0x212A then 75 else r)"

definition fold_name :: "string \<Rightarrow> nat list" where
  "fold_name s = map fold_rune (runes s)"

definition find_field :: "string list \<Rightarrow> string \<Rightarrow> string option" where
  "find_field names key =
     (if key \<in> set names then Some key
      else find (\<lambda>n. fold_name n = fold_name key) names)"

text \<open>The members of an object that set a field, in the order of the text.\<close>

definition field_members :: "string list \<Rightarrow> string \<Rightarrow> (string \<times> json) list \<Rightarrow> json list" where
  "field_members names n kvs = map snd (filter (\<lambda>p. find_field names (fst p) = Some n) kvs)"

text \<open>
  A \<open>string\<close> field: null leaves it, a string sets it, anything else is a type error (\<open>None\<close>).
\<close>

fun decode_string :: "string \<Rightarrow> json list \<Rightarrow> string option" where
  "decode_string cur [] = Some cur"
| "decode_string cur (JNull # vs) = decode_string cur vs"
| "decode_string cur (JStr s # vs) = decode_string s vs"
| "decode_string cur (_ # vs) = None"

text \<open>
  A map field: null empties it, an object adds its members to what is there, anything else is a
  type error.
\<close>

fun decode_map ::
  "(json \<Rightarrow> 'v option) \<Rightarrow> (string \<times> 'v) list \<Rightarrow> json list \<Rightarrow> (string \<times> 'v) list option" where
  "decode_map f cur [] = Some cur"
| "decode_map f cur (JNull # vs) = decode_map f [] vs"
| "decode_map f cur (JObj kvs # vs) =
     (case all_some (map (\<lambda>p. f (snd p)) kvs) of
        None \<Rightarrow> None
      | Some ys \<Rightarrow> decode_map f (map_of_pairs cur (zip (map fst kvs) ys)) vs)"
| "decode_map f cur (_ # vs) = None"

text \<open>The members of a struct: null leaves the struct as it is, any other value is a type error.\<close>

fun struct_members :: "json \<Rightarrow> (string \<times> json) list option" where
  "struct_members JNull = Some []"
| "struct_members (JObj kvs) = Some kvs"
| "struct_members _ = None"

subsection \<open>Marshalling\<close>

definition json_escape_char :: "char \<Rightarrow> string" where
  "json_escape_char c =
     (if c = CHR 0x22 \<or> c = CHR 0x5C then [CHR 0x5C, c]
      else if c = CHR 0x08 then [CHR 0x5C, CHR ''b''] else if c = CHR 0x0C then [CHR 0x5C, CHR ''f'']
      else if c = CHR 0x0A then [CHR 0x5C, CHR ''n''] else if c = CHR 0x0D then [CHR 0x5C, CHR ''r'']
      else if c = CHR 0x09 then [CHR 0x5C, CHR ''t'']
      else if byte_of c < 32 \<or> c = CHR ''<'' \<or> c = CHR ''>'' \<or> c = CHR ''&''
      then [CHR 0x5C, CHR ''u''] @ hex_digits 4 (byte_of c)
      else [c])"

definition json_escape_rune :: "nat \<times> string \<Rightarrow> string" where
  "json_escape_rune p =
     (let (r, bs) = p in
      if r < 128 then json_escape_char (hd bs)
      else if r = rune_error \<and> length bs = 1 then [CHR 0x5C, CHR ''u''] @ ''fffd''
      else if r = 0x2028 \<or> r = 0x2029 then [CHR 0x5C, CHR ''u''] @ hex_digits 4 r
      else bs)"

definition json_quote :: "string \<Rightarrow> string" where
  "json_quote s = CHR 0x22 # concat (map json_escape_rune (split_runes s)) @ [CHR 0x22]"

definition json_array :: "string list \<Rightarrow> string" where
  "json_array xs = ''['' @ join xs '','' @ '']''"

definition json_object :: "(string \<times> string) list \<Rightarrow> string" where
  "json_object kvs = ''{'' @ join (map (\<lambda>p. json_quote (fst p) @ '':'' @ snd p) kvs) '','' @ ''}''"

text \<open>\<open>json.Marshal\<close> of an \<open>any\<close>; the keys of a map are sorted.\<close>

fun marshal :: "gvalue \<Rightarrow> string" where
  "marshal VNull = ''null''"
| "marshal (VBool b) = (if b then ''true'' else ''false'')"
| "marshal (VFloat f) = format_json f"
| "marshal (VString s) = json_quote s"
| "marshal (VList xs) = json_array (map marshal xs)"
| "marshal (VMap kvs) =
     json_object (sort_key fst (map (\<lambda>p. (fst p, marshal (snd p))) kvs))"

text \<open>
  The text of a \<open>json.RawMessage\<close> inside a marshalled value: white space outside strings is
  dropped and the characters that HTML cares about are escaped.
\<close>

fun compact :: "bool \<Rightarrow> string \<Rightarrow> string" where
  "compact instr [] = []"
| "compact instr (c # cs) =
     (if \<not> instr \<and> is_ws c then compact instr cs
      else if c = CHR ''<'' \<or> c = CHR ''>'' \<or> c = CHR ''&''
      then [CHR 0x5C, CHR ''u''] @ hex_digits 4 (byte_of c) @ compact instr cs
      else if c = CHR 0xE2 \<and> take 1 cs = [CHR 0x80] \<and> (take 1 (drop 1 cs) = [CHR 0xA8] \<or> take 1 (drop 1 cs) = [CHR 0xA9])
      then [CHR 0x5C, CHR ''u''] @ ''202'' @ [hex_lower (byte_of (hd (drop 1 cs)) - 0xA0)] @
           compact instr (drop 2 cs)
      else if instr \<and> c = CHR 0x5C
      then (case cs of [] \<Rightarrow> [c] | e # es \<Rightarrow> c # e # compact instr es)
      else if c = CHR 0x22 then c # compact (\<not> instr) cs
      else c # compact instr cs)"

end
