(* ===== verification/Header_Validation.thy ===== *)
theory Header_Validation
  imports Ext_Proc Go_Base64 Go_Value
begin

section \<open>MCP request headers (\<open>header_validation.go\<close>)\<close>

text \<open>
  The headers captured when a request starts, and the check of the modern era that they mirror the
  JSON-RPC body. A Go \<open>error\<close> is a \<^typ>\<open>string option\<close>: \<open>None\<close> is nil, \<open>Some\<close> its text. A JSON-RPC
  message comes from the SDK's decoder; its identifier is an integer or a string, and \<open>None\<close> is the
  zero \<open>jsonrpc.ID\<close>, for which \<open>IsValid\<close> is false.
\<close>

datatype raw_id = IntId int | StrId string

type_synonym jsonrpc_id = "raw_id option"

definition id_is_valid :: "jsonrpc_id \<Rightarrow> bool" where
  "id_is_valid i \<longleftrightarrow> i \<noteq> None"

record rpc_request =
  rq_id :: jsonrpc_id
  rq_method :: string
  rq_params :: bytes

definition methodInitialize :: string where
  "methodInitialize = ''initialize''"

definition methodToolsList :: string where
  "methodToolsList = ''tools/list''"

definition methodToolsCall :: string where
  "methodToolsCall = ''tools/call''"

definition methodNotificationsInitialized :: string where
  "methodNotificationsInitialized = ''notifications/initialized''"

definition methodDiscover :: string where
  "methodDiscover = ''server/discover''"

lemmas method_defs =
  methodInitialize_def methodToolsList_def methodToolsCall_def methodNotificationsInitialized_def
  methodDiscover_def

subsection \<open>Looking headers up\<close>

text \<open>\<open>findHeader\<close> of \<open>mcp_handler.go\<close>: the first header with exactly this key.\<close>

fun findHeader :: "header_map \<Rightarrow> string \<Rightarrow> string option" where
  "findHeader [] key = None"
| "findHeader (h # hs) key = (if hkey h = key then Some (raw_value h) else findHeader hs key)"

definition headerValue :: "header_value \<Rightarrow> string" where
  "headerValue h = trim_space (raw_value h)"

record first_header_value =
  fv_value :: string
  fv_seen :: bool

definition capture :: "first_header_value \<Rightarrow> header_value \<Rightarrow> first_header_value" where
  "capture f h = (if fv_seen f then f else \<lparr>fv_value = headerValue h, fv_seen = True\<rparr>)"

record mcp_request_headers =
  protocolVersion :: string
  mh_method :: string
  mh_name :: string
  paramHeaderNames :: "string list"

text \<open>The loop of \<open>captureMCPRequestHeaders\<close>: three first values and the parameter keys seen so far.\<close>

fun capture_loop ::
  "unicode_tables \<Rightarrow> header_map \<Rightarrow> first_header_value \<Rightarrow> first_header_value \<Rightarrow> first_header_value \<Rightarrow>
   string list \<Rightarrow> mcp_request_headers" where
  "capture_loop U [] v m n ps =
     \<lparr>protocolVersion = fv_value v, mh_method = fv_value m, mh_name = fv_value n,
      paramHeaderNames = ps\<rparr>"
| "capture_loop U (h # hs) v m n ps =
     (let key = to_lower U (hkey h) in
      if key = headerMCPProtocolVersion then capture_loop U hs (capture v h) m n ps
      else if key = headerMCPMethod then capture_loop U hs v (capture m h) n ps
      else if key = headerMCPName then capture_loop U hs v m (capture n h) ps
      else if has_prefix key headerMCPParamPrefix then capture_loop U hs v m n (ps @ [key])
      else capture_loop U hs v m n ps)"

definition unseen :: first_header_value where
  "unseen = \<lparr>fv_value = [], fv_seen = False\<rparr>"

definition captureMCPRequestHeaders :: "unicode_tables \<Rightarrow> header_map \<Rightarrow> mcp_request_headers" where
  "captureMCPRequestHeaders U hs = capture_loop U hs unseen unseen unseen []"

subsection \<open>The Base64 sentinel\<close>

definition base64Prefix :: string where
  "base64Prefix = ''=?base64?''"

definition base64Suffix :: string where
  "base64Suffix = ''?=''"

definition decodeHeaderValue :: "string \<Rightarrow> string option" where
  "decodeHeaderValue v =
     (case cut_prefix v base64Prefix of
        Some encoded \<Rightarrow>
          (case cut_suffix encoded base64Suffix of
             Some inner \<Rightarrow> b64_decode inner
           | None \<Rightarrow> Some v)
      | None \<Rightarrow> Some v)"

subsection \<open>Validation against the body\<close>

text \<open>\<open>json.Unmarshal\<close> into \<open>callToolNameParams\<close>: the name, \<open>None\<close> where it reports an error.\<close>

definition decode_name_params :: "bytes \<Rightarrow> string option" where
  "decode_name_params params =
     (case parse_json params of
        None \<Rightarrow> None
      | Some j \<Rightarrow>
          (case struct_members j of
             None \<Rightarrow> None
           | Some kvs \<Rightarrow> decode_string [] (field_members [''name''] ''name'' kvs)))"

definition mismatch :: "string \<Rightarrow> string \<Rightarrow> string \<Rightarrow> string" where
  "mismatch hdr v b =
     ''header mismatch: '' @ hdr @ '' header value '' @ [CHR 0x27] @ v @ [CHR 0x27] @
     '' does not match body value '' @ [CHR 0x27] @ b @ [CHR 0x27]"

definition validate_tool_name_header ::
  "unicode_tables \<Rightarrow> rpc_request \<Rightarrow> mcp_request_headers \<Rightarrow> string option" where
  "validate_tool_name_header U req hdrs =
     (if mh_name hdrs = []
      then Some (''missing required Mcp-Name header for method '' @ quote U (rq_method req))
      else
        (case decodeHeaderValue (mh_name hdrs) of
           None \<Rightarrow> Some ''header mismatch: Mcp-Name header contains invalid Base64 encoding''
         | Some decodedName \<Rightarrow>
             (case decode_name_params (rq_params req) of
                None \<Rightarrow> Some (''failed to extract name from parameters for method '' @ quote U (rq_method req))
              | Some name \<Rightarrow>
                  if name = []
                  then Some (''failed to extract name from parameters for method '' @ quote U (rq_method req))
                  else if decodedName \<noteq> name then Some (mismatch ''Mcp-Name'' decodedName name)
                  else None)))"

definition validateModernHeaders ::
  "unicode_tables \<Rightarrow> rpc_request \<Rightarrow> string \<Rightarrow> mcp_request_headers \<Rightarrow> string option" where
  "validateModernHeaders U req metaVersion hdrs =
     (if protocolVersion hdrs = [] then Some ''missing required MCP-Protocol-Version header''
      else if metaVersion = []
      then Some (''header mismatch: MCP-Protocol-Version header value '' @ [CHR 0x27] @ protocolVersion hdrs @
                 [CHR 0x27] @ '' has no matching protocolVersion in the body _meta'')
      else if protocolVersion hdrs \<noteq> metaVersion
      then Some (mismatch ''MCP-Protocol-Version'' (protocolVersion hdrs) metaVersion)
      else if mh_method hdrs = [] then Some ''missing required Mcp-Method header''
      else if mh_method hdrs \<noteq> rq_method req
      then Some (mismatch ''Mcp-Method'' (mh_method hdrs) (rq_method req))
      else if rq_method req = methodToolsCall then validate_tool_name_header U req hdrs
      else None)"

subsection \<open>Capturing: the first value of each header\<close>

text \<open>
  The contract: the trimmed value of the first header whose lowered key is the given name, the
  empty string if there is none; and the lowered keys with the parameter prefix, in order.
\<close>

definition first_value :: "unicode_tables \<Rightarrow> string \<Rightarrow> header_map \<Rightarrow> string" where
  "first_value U name hs =
     (case filter (\<lambda>h. to_lower U (hkey h) = name) hs of [] \<Rightarrow> [] | h # _ \<Rightarrow> headerValue h)"

definition param_keys :: "unicode_tables \<Rightarrow> header_map \<Rightarrow> string list" where
  "param_keys U hs =
     filter (\<lambda>k. has_prefix k headerMCPParamPrefix) (map (\<lambda>h. to_lower U (hkey h)) hs)"

lemma mcp_header_names:
  "headerMCPProtocolVersion \<noteq> headerMCPMethod" "headerMCPProtocolVersion \<noteq> headerMCPName"
  "headerMCPMethod \<noteq> headerMCPName"
  "\<not> has_prefix headerMCPProtocolVersion headerMCPParamPrefix"
  "\<not> has_prefix headerMCPMethod headerMCPParamPrefix"
  "\<not> has_prefix headerMCPName headerMCPParamPrefix"
  by (simp_all add: headerMCPProtocolVersion_def headerMCPMethod_def headerMCPName_def
      headerMCPParamPrefix_def has_prefix_def)

definition settled :: "unicode_tables \<Rightarrow> string \<Rightarrow> first_header_value \<Rightarrow> header_map \<Rightarrow> string" where
  "settled U name f hs = (if fv_seen f then fv_value f else first_value U name hs)"

lemma settled_simps:
  "to_lower U (hkey h) = name \<Longrightarrow> settled U name (capture f h) hs = settled U name f (h # hs)"
  "to_lower U (hkey h) \<noteq> name \<Longrightarrow> settled U name f (h # hs) = settled U name f hs"
  by (simp_all add: settled_def capture_def first_value_def)

definition well_seen :: "first_header_value \<Rightarrow> bool" where
  "well_seen f \<longleftrightarrow> fv_seen f \<or> fv_value f = []"

lemma well_seen_capture [simp]: "well_seen f \<Longrightarrow> well_seen (capture f h)"
  by (simp add: well_seen_def capture_def)

lemma capture_loop_settled:
  assumes "well_seen v" and "well_seen m" and "well_seen n"
  shows "capture_loop U hs v m n ps =
     \<lparr>protocolVersion = settled U headerMCPProtocolVersion v hs,
      mh_method = settled U headerMCPMethod m hs, mh_name = settled U headerMCPName n hs,
      paramHeaderNames = ps @ param_keys U hs\<rparr>"
  using assms
proof (induction hs arbitrary: v m n ps)
  case Nil
  then show ?case
    by (auto simp: settled_def first_value_def param_keys_def well_seen_def)
next
  case (Cons h hs)
  consider "to_lower U (hkey h) = headerMCPProtocolVersion" | "to_lower U (hkey h) = headerMCPMethod"
    | "to_lower U (hkey h) = headerMCPName"
    | "to_lower U (hkey h) \<notin> {headerMCPProtocolVersion, headerMCPMethod, headerMCPName}"
    by blast
  then show ?case
    by cases
      (use Cons mcp_header_names in \<open>simp_all add: settled_simps param_keys_def mcp_header_names(1-3) [symmetric]\<close>)
qed

lemma capture_first:
  "captureMCPRequestHeaders U hs =
     \<lparr>protocolVersion = first_value U headerMCPProtocolVersion hs,
      mh_method = first_value U headerMCPMethod hs, mh_name = first_value U headerMCPName hs,
      paramHeaderNames = param_keys U hs\<rparr>"
  by (simp add: captureMCPRequestHeaders_def capture_loop_settled well_seen_def unseen_def settled_def)

subsection \<open>The sentinel and the validation, against their contracts\<close>

definition wrapBase64 :: "string \<Rightarrow> string" where
  "wrapBase64 s = base64Prefix @ b64_encode s @ base64Suffix"

lemma decode_wrapped: "decodeHeaderValue (wrapBase64 s) = Some s"
  by (simp add: decodeHeaderValue_def wrapBase64_def b64_decode_encode)

lemma decode_plain: "\<not> has_prefix v base64Prefix \<Longrightarrow> decodeHeaderValue v = Some v"
  by (simp add: decodeHeaderValue_def cut_prefix_None_iff [THEN iffD2])

text \<open>What a request must satisfy: version, method and, for a tool call, the name are mirrored.\<close>

definition headers_mirror_body :: "rpc_request \<Rightarrow> string \<Rightarrow> mcp_request_headers \<Rightarrow> bool" where
  "headers_mirror_body req metaVersion hdrs \<longleftrightarrow>
     metaVersion \<noteq> [] \<and> protocolVersion hdrs = metaVersion \<and>
     rq_method req \<noteq> [] \<and> mh_method hdrs = rq_method req \<and>
     (rq_method req = methodToolsCall \<longrightarrow>
        mh_name hdrs \<noteq> [] \<and>
        (\<exists>name. name \<noteq> [] \<and> decode_name_params (rq_params req) = Some name \<and>
           decodeHeaderValue (mh_name hdrs) = Some name))"

lemma validate_iff_mirror:
  "validateModernHeaders U req metaVersion hdrs = None \<longleftrightarrow> headers_mirror_body req metaVersion hdrs"
  by (auto simp: validateModernHeaders_def validate_tool_name_header_def headers_mirror_body_def
      split: if_splits option.splits)

end
