(* ===== verification/Registry.thy ===== *)
theory Registry
  imports Go_Value "HOL-Library.Multiset"
begin

section \<open>The tool registry (\<open>registry.go\<close>)\<close>

text \<open>
  Tools in a list sorted by name and their configurations in a map; registration, lookup and the
  allowlist filter. The invariant \<open>registry_inv\<close> ties the list to the map; the locale
  \<open>tool_store\<close> is the contract the loader, the filter and the request handler rely on. Errors are
  values of \<open>registry_error\<close>, which the code renders only for its log.
\<close>

text \<open>
  \<open>Parameters\<close> is a \<open>map[string]any\<close>: an association list with distinct keys, in the order a loop
  over it visits them.
\<close>

record endpoint =
  Host :: string
  Method :: string
  PathTemplate :: string
  Parameters :: "(string \<times> gvalue) list"
  ContentType :: string

record tool_response_config =
  UseStructuredOutput :: bool

record tool_config =
  Endpoint :: endpoint
  toolResponseConfig :: tool_response_config

text \<open>
  The values of the schema maps (\<open>map[string]any\<close>) the loader builds, and the members of the SDK's
  \<open>mcp.Tool\<close> that the program sets.
\<close>

datatype schema_value =
  SVBool bool
| SVString string
| SVStrings "string list"
| SVTypes "string list"
| SVEnum "gvalue list"
| SVMap "(string \<times> schema_value) list"

record mcp_tool =
  Name :: string
  Title :: string
  Description :: string
  InputSchema :: schema_value
  OutputSchema :: "schema_value option"

record tool_registry =
  tools :: "mcp_tool list"
  configs :: "string \<rightharpoonup> tool_config"

datatype registry_error =
  ToolNil
| ConfigNil
| NameLength string
| NameCharacter string
| AlreadyRegistered string
| AllowlistEmpty
| AllowlistMissing "string list"

definition maxToolNameLength :: nat where
  "maxToolNameLength = 128"

definition newToolRegistry :: tool_registry where
  "newToolRegistry = \<lparr>tools = [], configs = Map.empty\<rparr>"

definition registry_Len :: "tool_registry \<Rightarrow> nat" where
  "registry_Len r = length (tools r)"

subsection \<open>Names\<close>

definition name_rune_ok :: "nat \<Rightarrow> bool" where
  "name_rune_ok r \<longleftrightarrow>
     (65 \<le> r \<and> r \<le> 90) \<or> (97 \<le> r \<and> r \<le> 122) \<or> (48 \<le> r \<and> r \<le> 57) \<or>
     r = 95 \<or> r = 45 \<or> r = 46"

definition validateToolName :: "string \<Rightarrow> registry_error option" where
  "validateToolName name =
     (if length name < 1 \<or> maxToolNameLength < length name then Some (NameLength name)
      else if list_all name_rune_ok (runes name) then None
      else Some (NameCharacter name))"

subsection \<open>Operations\<close>

text \<open>
  \<open>Register\<close>: the pointers may be nil (\<open>None\<close>). The position is the one the binary search by name
  returns; a tool already there with that name is an error.
\<close>

definition tool_position :: "mcp_tool list \<Rightarrow> string \<Rightarrow> nat" where
  "tool_position ts name = bsearch (\<lambda>t. Name t < name) ts 0 (length ts)"

definition Register ::
  "tool_registry \<Rightarrow> mcp_tool option \<Rightarrow> tool_config option \<Rightarrow> registry_error + tool_registry" where
  "Register r toolp configp =
     (case toolp of
        None \<Rightarrow> Inl ToolNil
      | Some tool \<Rightarrow>
          (case configp of
             None \<Rightarrow> Inl ConfigNil
           | Some config \<Rightarrow>
               (case validateToolName (Name tool) of
                  Some e \<Rightarrow> Inl e
                | None \<Rightarrow>
                    let position = tool_position (tools r) (Name tool);
                        registered =
                          (position < length (tools r) \<and> Name (tools r ! position) = Name tool)
                    in if registered then Inl (AlreadyRegistered (Name tool))
                       else Inr \<lparr>tools = slices_insert (tools r) position tool,
                                 configs = (configs r)(Name tool \<mapsto> config)\<rparr>)))"

definition GetConfig :: "tool_registry \<Rightarrow> string \<Rightarrow> tool_config option" where
  "GetConfig r name = configs r name"

definition Tools :: "tool_registry \<Rightarrow> mcp_tool list" where
  "Tools r = tools r"

definition endpoint_String :: "unicode_tables \<Rightarrow> endpoint \<Rightarrow> string" where
  "endpoint_String U e = to_upper U (Method e) @ '' '' @ Host e @ PathTemplate e"

definition supportsBody :: "unicode_tables \<Rightarrow> endpoint \<Rightarrow> bool" where
  "supportsBody U e =
     (let m = to_lower U (Method e) in m = ''post'' \<or> m = ''put'' \<or> m = ''patch'')"

definition registry_String :: "unicode_tables \<Rightarrow> tool_registry \<Rightarrow> string" where
  "registry_String U r =
     ''['' @
     join (List.map_filter
             (\<lambda>t. map_option (\<lambda>c. Name t @ '' => '' @ endpoint_String U (Endpoint c)) (configs r (Name t)))
             (tools r)) '', '' @
     '']''"

text \<open>A registration whose error is logged and skipped, as every loop that registers does.\<close>

definition register_or_skip ::
  "tool_registry \<Rightarrow> mcp_tool option \<Rightarrow> tool_config option \<Rightarrow> tool_registry" where
  "register_or_skip r t c = (case Register r t c of Inl _ \<Rightarrow> r | Inr r' \<Rightarrow> r')"

definition filter_step ::
  "tool_registry \<Rightarrow> string list \<Rightarrow> tool_registry \<Rightarrow> mcp_tool \<Rightarrow> tool_registry" where
  "filter_step r allowlist filtered tool =
     (if Name tool \<notin> set allowlist then filtered
      else register_or_skip filtered (Some tool) (configs r (Name tool)))"

definition FilterByAllowlist :: "tool_registry \<Rightarrow> string list \<Rightarrow> registry_error + tool_registry" where
  "FilterByAllowlist r allowlist =
     (if allowlist = [] then Inl AllowlistEmpty
      else
        let missing = filter (\<lambda>name. configs r name = None) allowlist in
        if missing \<noteq> [] then Inl (AllowlistMissing missing)
        else Inr (foldl (filter_step r allowlist) newToolRegistry (tools r)))"

subsection \<open>The invariant\<close>

definition registry_inv :: "tool_registry \<Rightarrow> bool" where
  "registry_inv r \<longleftrightarrow>
     sorted (map Name (tools r)) \<and> distinct (map Name (tools r)) \<and>
     dom (configs r) = Name ` set (tools r) \<and>
     (\<forall>t \<in> set (tools r). validateToolName (Name t) = None)"

lemma registry_inv_new: "registry_inv newToolRegistry"
  by (simp add: registry_inv_def newToolRegistry_def)

text \<open>Under the invariant the binary search finds a name exactly when it is there.\<close>

lemma tool_position_eq:
  assumes "sorted (map Name ts)"
  shows "tool_position ts name = length (takeWhile (\<lambda>t. Name t < name) ts)"
  unfolding tool_position_def by (rule bsearch_sorted [OF assms])

lemma registered_iff:
  assumes "sorted (map Name ts)"
  shows "tool_position ts name < length ts \<and> Name (ts ! tool_position ts name) = name \<longleftrightarrow>
    name \<in> Name ` set ts"
proof
  assume "tool_position ts name < length ts \<and> Name (ts ! tool_position ts name) = name"
  then show "name \<in> Name ` set ts" by (metis imageI nth_mem)
next
  let ?P = "\<lambda>t. Name t < name"
  assume "name \<in> Name ` set ts"
  then obtain t where t: "t \<in> set ts" "Name t = name" by auto
  have "t \<notin> set (takeWhile ?P ts)" using t(2) by (auto dest: set_takeWhileD)
  then have "t \<in> set (dropWhile ?P ts)"
    using t(1) by (metis Un_iff set_append takeWhile_dropWhile_id)
  then obtain u us where u: "dropWhile ?P ts = u # us" by (cases "dropWhile ?P ts") auto
  have "\<not> Name u < name" using u hd_dropWhile [of ?P ts] by auto
  moreover have "sorted (map Name (u # us))"
    using assms u by (metis map_append sorted_append takeWhile_dropWhile_id)
  then have "Name u \<le> name" using \<open>t \<in> set (dropWhile ?P ts)\<close> t(2) u by auto
  ultimately have "Name u = name" by simp
  moreover have "ts = takeWhile ?P ts @ u # us" using u by (metis takeWhile_dropWhile_id)
  then have "length (takeWhile ?P ts) < length ts" "ts ! length (takeWhile ?P ts) = u"
    by (metis length_append less_add_same_cancel1 list.size(3) length_greater_0_conv list.distinct(1),
        metis nth_append_length)
  ultimately show "tool_position ts name < length ts \<and> Name (ts ! tool_position ts name) = name"
    by (simp add: tool_position_eq [OF assms])
qed

text \<open>\<open>Register\<close> on every branch, for a registry that satisfies the invariant.\<close>

lemma Register_Inr:
  assumes "registry_inv r"
  shows "Register r (Some t) (Some c) = Inr r' \<longleftrightarrow>
    validateToolName (Name t) = None \<and> Name t \<notin> dom (configs r) \<and>
    r' = \<lparr>tools = slices_insert (tools r) (length (takeWhile (\<lambda>u. Name u < Name t) (tools r))) t,
          configs = (configs r)(Name t \<mapsto> c)\<rparr>"
proof -
  have s: "sorted (map Name (tools r))" and d: "dom (configs r) = Name ` set (tools r)"
    using assms by (simp_all add: registry_inv_def)
  show ?thesis
    using registered_iff [OF s, of "Name t"]
    by (auto simp: Register_def Let_def d tool_position_eq [OF s] split: option.split)
qed

lemma Register_duplicate:
  assumes "registry_inv r" and "validateToolName (Name t) = None" and "Name t \<in> dom (configs r)"
  shows "Register r (Some t) (Some c) = Inl (AlreadyRegistered (Name t))"
proof -
  have s: "sorted (map Name (tools r))" and d: "dom (configs r) = Name ` set (tools r)"
    using assms(1) by (simp_all add: registry_inv_def)
  show ?thesis
    using registered_iff [OF s, of "Name t"] assms(2,3) by (simp add: Register_def Let_def d)
qed

lemma Register_inv:
  assumes "registry_inv r" and "Register r (Some t) (Some c) = Inr r'"
  shows "registry_inv r'"
proof -
  note eq = assms(2) [unfolded Register_Inr [OF assms(1)]]
  have "Name t \<notin> Name ` set (tools r)"
    using eq assms(1) by (simp add: registry_inv_def)
  then show ?thesis
    using eq assms(1) sorted_insert_at [of Name "tools r" t]
    by (auto simp: registry_inv_def)
qed


subsection \<open>The contract\<close>

text \<open>
  A store of tools: inserting a tool whose name is acceptable and new adds it and its
  configuration, any other insertion changes nothing; the listing is sorted by name.
\<close>

locale tool_store =
  fixes empty_store :: 's
    and insert_tool :: "'s \<Rightarrow> mcp_tool \<Rightarrow> tool_config \<Rightarrow> 's"
    and lookup :: "'s \<Rightarrow> string \<Rightarrow> tool_config option"
    and listing :: "'s \<Rightarrow> mcp_tool list"
    and acceptable :: "string \<Rightarrow> bool"
    and invar :: "'s \<Rightarrow> bool"
  assumes invar_empty: "invar empty_store"
    and invar_insert: "invar s \<Longrightarrow> invar (insert_tool s t c)"
    and lookup_empty: "lookup empty_store n = None"
    and listing_sorted: "invar s \<Longrightarrow> sorted (map Name (listing s))"
    and listing_distinct: "invar s \<Longrightarrow> distinct (map Name (listing s))"
    and lookup_listing: "invar s \<Longrightarrow> lookup s n = None \<longleftrightarrow> n \<notin> Name ` set (listing s)"
    and lookup_insert:
      "invar s \<Longrightarrow> lookup (insert_tool s t c) n =
         (if acceptable (Name t) \<and> lookup s (Name t) = None \<and> n = Name t then Some c else lookup s n)"
    and listing_insert:
      "invar s \<Longrightarrow> set (listing (insert_tool s t c)) =
         (if acceptable (Name t) \<and> lookup s (Name t) = None
          then insert t (set (listing s)) else set (listing s))"
begin

definition load_from :: "'s \<Rightarrow> (mcp_tool \<times> tool_config) list \<Rightarrow> 's" where
  "load_from s ps = foldl (\<lambda>s (t, c). insert_tool s t c) s ps"

lemma invar_load_from: "invar s \<Longrightarrow> invar (load_from s ps)"
  by (induction ps arbitrary: s) (auto simp: load_from_def invar_insert)

lemma load_from_Cons: "load_from s ((t, c) # ps) = load_from (insert_tool s t c) ps"
  by (simp add: load_from_def)

text \<open>What is stored under its own name, and properties that all stored pairs share.\<close>

definition stored :: "'s \<Rightarrow> mcp_tool \<Rightarrow> tool_config \<Rightarrow> bool" where
  "stored s t c \<longleftrightarrow> t \<in> set (listing s) \<and> lookup s (Name t) = Some c"

definition all_stored :: "(mcp_tool \<Rightarrow> tool_config \<Rightarrow> bool) \<Rightarrow> 's \<Rightarrow> bool" where
  "all_stored P s \<longleftrightarrow> invar s \<and> (\<forall>t c. stored s t c \<longrightarrow> P t c)"

lemma all_stored_empty: "all_stored P empty_store"
  by (simp add: all_stored_def stored_def invar_empty lookup_empty)

lemma stored_insert:
  assumes "invar s" and "stored (insert_tool s t c) t' c'"
  shows "stored s t' c' \<or> (t' = t \<and> c' = c)"
  using assms(2) lookup_listing [OF assms(1), of "Name t"]
  by (auto simp: stored_def listing_insert [OF assms(1)] lookup_insert [OF assms(1)]
      split: if_splits) (metis rev_image_eqI)

lemma all_stored_insert: "all_stored P s \<Longrightarrow> P t c \<Longrightarrow> all_stored P (insert_tool s t c)"
  unfolding all_stored_def using stored_insert invar_insert by blast

lemma all_stored_load_from:
  "all_stored P s \<Longrightarrow> (\<And>t c. (t, c) \<in> set ps \<Longrightarrow> P t c) \<Longrightarrow> all_stored P (load_from s ps)"
proof (induction ps arbitrary: s)
  case Nil
  then show ?case by (simp add: load_from_def)
next
  case (Cons p ps)
  then show ?case by (cases p) (simp add: load_from_Cons all_stored_insert)
qed

text \<open>Every name that is stored has a tool and a configuration.\<close>

lemma lookup_stored:
  assumes "invar s" and "lookup s n = Some c"
  obtains t where "stored s t c" "Name t = n"
proof -
  have "n \<in> Name ` set (listing s)" using lookup_listing [OF assms(1), of n] assms(2) by auto
  then show ?thesis using that assms(2) by (auto simp: stored_def)
qed

text \<open>The first acceptable registration of a name wins.\<close>

lemma lookup_load_from:
  "invar s \<Longrightarrow>
     lookup (load_from s ps) n =
       (case lookup s n of
          Some c \<Rightarrow> Some c
        | None \<Rightarrow> map_of (map (\<lambda>(t, c). (Name t, c)) (filter (\<lambda>(t, c). acceptable (Name t)) ps)) n)"
proof (induction ps arbitrary: s)
  case Nil
  then show ?case by (simp add: load_from_def split: option.split)
next
  case (Cons p ps)
  obtain t c where p: "p = (t, c)" by (cases p) auto
  show ?case
    using Cons.IH [OF invar_insert [OF Cons.prems, of t c]] Cons.prems
    by (auto simp: p load_from_Cons lookup_insert split: option.splits)
qed

lemma listing_load_from:
  assumes "invar s" and "distinct (map (Name \<circ> fst) ps)"
    and "\<And>t c. (t, c) \<in> set ps \<Longrightarrow> acceptable (Name t) \<and> lookup s (Name t) = None"
  shows "set (listing (load_from s ps)) = set (listing s) \<union> fst ` set ps"
  using assms
proof (induction ps arbitrary: s)
  case Nil
  then show ?case by (simp add: load_from_def)
next
  case (Cons p ps)
  obtain t c where p: "p = (t, c)" by (cases p) auto
  have tc: "acceptable (Name t)" "lookup s (Name t) = None" using Cons.prems(3) p by auto
  have "set (listing (load_from (insert_tool s t c) ps)) =
      set (listing (insert_tool s t c)) \<union> fst ` set ps"
  proof (rule Cons.IH)
    show "invar (insert_tool s t c)" using Cons.prems(1) by (rule invar_insert)
    show "distinct (map (Name \<circ> fst) ps)" using Cons.prems(2) by (simp add: o_def)
    show "acceptable (Name u) \<and> lookup (insert_tool s t c) (Name u) = None"
      if "(u, d) \<in> set ps" for u d
      using Cons.prems that p by (auto simp: lookup_insert image_iff)
  qed
  then show ?case using tc Cons.prems(1) by (auto simp: p load_from_Cons listing_insert)
qed

text \<open>A listing is determined by the tools in it.\<close>

lemma listing_unique:
  assumes "invar s" and "sorted (map Name ts)" and "distinct (map Name ts)"
    and "set (listing s) = set ts"
  shows "listing s = ts"
proof (rule map_sorted_distinct_set_unique [where f = Name])
  show "inj_on Name (set (listing s) \<union> set ts)"
    using assms(3,4) by (simp add: distinct_map)
qed (use assms listing_sorted listing_distinct in auto)

lemma load_order_irrelevant:
  assumes "mset ps = mset qs" and "distinct (map (Name \<circ> fst) ps)"
    and "\<And>t c. (t, c) \<in> set ps \<Longrightarrow> acceptable (Name t)"
  shows "listing (load_from empty_store ps) = listing (load_from empty_store qs)"
    and "lookup (load_from empty_store ps) n = lookup (load_from empty_store qs) n"
proof -
  have sets: "set ps = set qs" using assms(1) by (rule mset_eq_setD)
  have dq: "distinct (map (Name \<circ> fst) qs)"
    using assms(1,2) by (metis mset_eq_imp_distinct_iff mset_map)
  have l: "set (listing (load_from empty_store xs)) = set (listing empty_store) \<union> fst ` set xs"
    if "distinct (map (Name \<circ> fst) xs)" "set xs = set ps" for xs
    using that assms(3) by (intro listing_load_from) (auto simp: invar_empty lookup_empty)
  show "listing (load_from empty_store ps) = listing (load_from empty_store qs)"
    by (rule listing_unique)
      (simp_all add: invar_load_from invar_empty listing_sorted listing_distinct l assms(2) dq sets)
  have f: "filter (\<lambda>(t, c). acceptable (Name t)) xs = xs" if "set xs = set ps" for xs
    using that assms(3) by (auto simp: filter_id_conv)
  have "map_of (map (\<lambda>(t, c). (Name t, c)) ps) = map_of (map (\<lambda>(t, c). (Name t, c)) qs)"
    by (rule map_of_perm [symmetric])
      (use assms(2) dq sets in \<open>auto simp: o_def case_prod_beta\<close>)
  then show "lookup (load_from empty_store ps) n = lookup (load_from empty_store qs) n"
    by (simp add: lookup_load_from invar_empty lookup_empty f sets)
qed

end

lemma register_or_skip_inv: "registry_inv r \<Longrightarrow> registry_inv (register_or_skip r (Some t) (Some c))"
  by (auto simp: register_or_skip_def Register_inv split: sum.split)

lemma register_or_skip_cases:
  assumes "registry_inv r"
  shows "register_or_skip r (Some t) (Some c) =
    (if validateToolName (Name t) = None \<and> Name t \<notin> dom (configs r)
     then \<lparr>tools = slices_insert (tools r) (length (takeWhile (\<lambda>u. Name u < Name t) (tools r))) t,
           configs = (configs r)(Name t \<mapsto> c)\<rparr>
     else r)"
proof (cases "Register r (Some t) (Some c)")
  case (Inl e)
  then have "\<not> (validateToolName (Name t) = None \<and> Name t \<notin> dom (configs r))"
    using Register_Inr [OF assms, of t c] by (metis sum.distinct(1))
  with Inl show ?thesis by (auto simp: register_or_skip_def)
next
  case (Inr r')
  then show ?thesis
    using Register_Inr [OF assms, of t c r'] by (auto simp: register_or_skip_def)
qed

interpretation reg: tool_store newToolRegistry "\<lambda>r t c. register_or_skip r (Some t) (Some c)"
    GetConfig Tools "\<lambda>n. validateToolName n = None" registry_inv
proof (unfold_locales, goal_cases)
  case 1
  show ?case by (rule registry_inv_new)
next
  case (2 s t c)
  then show ?case by (rule register_or_skip_inv)
next
  case (3 n)
  show ?case by (simp add: GetConfig_def newToolRegistry_def)
next
  case (6 s n)
  then show ?case by (auto simp: registry_inv_def GetConfig_def Tools_def)
next
  case (7 s t c n)
  then show ?case by (auto simp: register_or_skip_cases GetConfig_def)
next
  case (8 s t c)
  then show ?case by (auto simp: register_or_skip_cases GetConfig_def Tools_def)
qed (simp_all add: registry_inv_def Tools_def)

subsection \<open>Filtering\<close>

text \<open>The pairs the filter registers, in the order of the listing.\<close>

definition allowed_pairs ::
  "tool_registry \<Rightarrow> string list \<Rightarrow> mcp_tool list \<Rightarrow> (mcp_tool \<times> tool_config) list" where
  "allowed_pairs r allowlist ts =
     map (\<lambda>t. (t, the (configs r (Name t)))) (filter (\<lambda>t. Name t \<in> set allowlist) ts)"

lemma filter_loop:
  assumes "\<forall>t \<in> set ts. Name t \<in> dom (configs r)"
  shows "foldl (filter_step r allowlist) s ts = reg.load_from s (allowed_pairs r allowlist ts)"
  using assms
proof (induction ts arbitrary: s)
  case Nil
  then show ?case by (simp add: allowed_pairs_def reg.load_from_def)
next
  case (Cons t ts)
  then obtain c where "configs r (Name t) = Some c" by auto
  with Cons show ?case
    by (simp add: allowed_pairs_def filter_step_def reg.load_from_Cons)
qed

lemma filter_result:
  assumes "registry_inv r" and "FilterByAllowlist r allowlist = Inr r'"
  shows "registry_inv r'" and "tools r' = filter (\<lambda>t. Name t \<in> set allowlist) (tools r)"
    and "configs r' = configs r |` set allowlist"
proof -
  let ?ps = "allowed_pairs r allowlist (tools r)"
  have inv: "sorted (map Name (tools r))" "distinct (map Name (tools r))"
    "dom (configs r) = Name ` set (tools r)" "\<forall>t \<in> set (tools r). validateToolName (Name t) = None"
    using assms(1) by (simp_all add: registry_inv_def)
  have r': "r' = reg.load_from newToolRegistry ?ps"
    using assms(2) inv(3) by (auto simp: FilterByAllowlist_def Let_def filter_loop split: if_splits)
  show r'inv: "registry_inv r'"
    unfolding r' by (rule reg.invar_load_from) (rule registry_inv_new)
  have dps: "distinct (map (Name \<circ> fst) ?ps)"
    using inv(2) by (simp add: allowed_pairs_def o_def distinct_map_filter)
  have acc: "validateToolName (Name t) = None \<and> GetConfig newToolRegistry (Name t) = None"
    if "(t, c) \<in> set ?ps" for t c
    using that inv(4) by (auto simp: allowed_pairs_def GetConfig_def newToolRegistry_def)
  have "set (Tools r') = set (Tools newToolRegistry) \<union> fst ` set ?ps"
    unfolding r' using registry_inv_new dps acc by (rule reg.listing_load_from)
  then have "set (Tools r') = set (filter (\<lambda>t. Name t \<in> set allowlist) (tools r))"
    by (force simp: allowed_pairs_def Tools_def newToolRegistry_def)
  then have "Tools r' = filter (\<lambda>t. Name t \<in> set allowlist) (tools r)"
    using inv(1,2) r'inv
    by (intro reg.listing_unique) (simp_all add: sorted_filter distinct_map_filter)
  then show t': "tools r' = filter (\<lambda>t. Name t \<in> set allowlist) (tools r)" by (simp add: Tools_def)
  show "configs r' = configs r |` set allowlist"
  proof (rule ext)
    fix n
    have "filter (\<lambda>(t, c). validateToolName (Name t) = None) ?ps = ?ps"
      using acc by (auto intro!: filter_True)
    then have look: "configs r' n = map_of (map (\<lambda>(t, c). (Name t, c)) ?ps) n"
      using reg.lookup_load_from [OF registry_inv_new, of ?ps n]
      by (simp add: r' GetConfig_def newToolRegistry_def)
    show "configs r' n = (configs r |` set allowlist) n"
    proof (cases "n \<in> set allowlist \<and> n \<in> dom (configs r)")
      case True
      then obtain c where c: "configs r n = Some c" by auto
      from True inv(3) have "n \<in> Name ` set (tools r)" by simp
      then obtain t where "t \<in> set (tools r)" "Name t = n" by auto
      with c have t: "t \<in> set (tools r)" "Name t = n" "configs r n = Some c" by simp_all
      from t have "(n, c) \<in> set (map (\<lambda>(t, c). (Name t, c)) ?ps)"
        using True by (force simp: allowed_pairs_def)
      moreover have "distinct (map fst (map (\<lambda>(t, c). (Name t, c)) ?ps))"
        using dps by (simp add: o_def case_prod_beta)
      ultimately have "configs r' n = Some c" unfolding look by (metis map_of_eq_Some_iff)
      with t True show ?thesis by simp
    next
      case False
      then have "n \<notin> dom (configs r')"
        using r'inv t' inv(3) by (auto simp: registry_inv_def)
      then have "configs r' n = None" by (simp only: domIff not_not)
      with False show ?thesis by (cases "configs r n") (auto simp: restrict_map_def)
    qed
  qed
qed

lemma filter_ok_iff:
  "(\<exists>r'. FilterByAllowlist r allowlist = Inr r') \<longleftrightarrow> allowlist \<noteq> [] \<and> set allowlist \<subseteq> dom (configs r)"
  by (auto simp: FilterByAllowlist_def Let_def filter_empty_conv domIff)

text \<open>Loading does not depend on the order of the tools.\<close>

lemma registration_order:
  assumes "mset ps = mset ps'" and "distinct (map (Name \<circ> fst) ps)"
    and "\<forall>(t, c) \<in> set ps. validateToolName (Name t) = None"
  shows "Tools (reg.load_from newToolRegistry ps) = Tools (reg.load_from newToolRegistry ps') \<and>
     GetConfig (reg.load_from newToolRegistry ps) = GetConfig (reg.load_from newToolRegistry ps') \<and>
     sorted (map Name (Tools (reg.load_from newToolRegistry ps)))"
  using reg.load_order_irrelevant [OF assms(1,2)] assms(3)
    reg.listing_sorted [OF reg.invar_load_from [OF registry_inv_new, of ps]]
  by (auto simp: fun_eq_iff)

end
