(* ===== verification/Mcp_Era.thy ===== *)
theory Mcp_Era
  imports Header_Validation Registry
begin

section \<open>Protocol eras and results (\<open>mcp.go\<close>, \<open>result.go\<close>)\<close>

text \<open>
  The protocol versions, the two eras a request can belong to, and the results with their JSON
  encoding. Code of the MCP SDK is a parameter: the record \<open>sdk\<close> holds the functions the program
  calls (decoding and encoding JSON-RPC messages, marshalling the SDK's own result types). The
  locale \<open>era_contract\<close> is what the request handler asks of an era; both eras interpret it.
\<close>

subsection \<open>Versions\<close>

definition v20250618 :: string where "v20250618 = ''2025-06-18''"
definition v20251125 :: string where "v20251125 = ''2025-11-25''"
definition v20260728 :: string where "v20260728 = ''2026-07-28''"

definition firstModernVersion :: string where "firstModernVersion = v20260728"
definition latestLegacyVersion :: string where "latestLegacyVersion = v20251125"

definition supportedProtocolVersions :: "string list" where
  "supportedProtocolVersions = [v20260728, v20251125, v20250618]"

lemmas version_defs =
  v20250618_def v20251125_def v20260728_def firstModernVersion_def latestLegacyVersion_def
  supportedProtocolVersions_def

definition isModernVersion :: "string \<Rightarrow> bool" where
  "isModernVersion v \<longleftrightarrow> firstModernVersion \<le> v"

definition isSupportedVersion :: "string \<Rightarrow> bool" where
  "isSupportedVersion v \<longleftrightarrow> v \<in> set supportedProtocolVersions"

definition negotiateLegacyVersion :: "string \<Rightarrow> string" where
  "negotiateLegacyVersion clientVersion =
     (if isSupportedVersion clientVersion \<and> \<not> isModernVersion clientVersion then clientVersion
      else latestLegacyVersion)"

definition protocolVersionLabel :: "string \<Rightarrow> string" where
  "protocolVersionLabel version = (if isSupportedVersion version then version else ''unsupported'')"

subsection \<open>Error codes\<close>

definition CodeParseError :: int where "CodeParseError = - 32700"
definition CodeInvalidRequest :: int where "CodeInvalidRequest = - 32600"
definition CodeMethodNotFound :: int where "CodeMethodNotFound = - 32601"
definition CodeInvalidParams :: int where "CodeInvalidParams = - 32602"
definition CodeInternalError :: int where "CodeInternalError = - 32603"
definition CodeHeaderMismatch :: int where "CodeHeaderMismatch = - 32020"
definition CodeUnsupportedProtocolVersion :: int where "CodeUnsupportedProtocolVersion = - 32022"

lemmas rpc_codes =
  CodeParseError_def CodeInvalidRequest_def CodeMethodNotFound_def CodeInvalidParams_def
  CodeInternalError_def CodeHeaderMismatch_def CodeUnsupportedProtocolVersion_def

subsection \<open>Results\<close>

text \<open>
  \<open>map[string]any\<close> of a result's \<open>_meta\<close>: \<open>None\<close> is the nil map. The values the program stores are
  pointers to \<open>mcp.Implementation\<close>.
\<close>

datatype meta_value = MetaImplementation string string | MetaAny gvalue

record resultMeta =
  rm_Meta :: "(string \<times> meta_value) list option"
  rm_ResultType :: string

record textContent =
  tc_Type :: string
  tc_Text :: string

record callToolResult =
  ct_meta :: resultMeta
  ct_Content :: "textContent list"
  ct_StructuredContent :: bytes
  ct_IsError :: bool

record cacheable =
  TTLMs :: int
  CacheScope :: string

record listToolsResult =
  lt_meta :: resultMeta
  lt_Cacheable :: "cacheable option"
  lt_Tools :: "mcp_tool list"

text \<open>The members of the SDK's results and capabilities that the program sets.\<close>

record server_capabilities =
  cap_Tools :: bool

record discover_result =
  dr_meta :: resultMeta
  dr_Cacheable :: "cacheable option"
  dr_SupportedVersions :: "string list"
  dr_Capabilities :: server_capabilities
  dr_Instructions :: string

record initialize_result =
  in_ProtocolVersion :: string
  in_ServerInfo :: "string \<times> string"
  in_Capabilities :: server_capabilities
  in_Instructions :: string

definition no_meta :: resultMeta where
  "no_meta = \<lparr>rm_Meta = None, rm_ResultType = []\<rparr>"

definition newTextContent :: "string \<Rightarrow> textContent list" where
  "newTextContent text = [\<lparr>tc_Type = ''text'', tc_Text = text\<rparr>]"

text \<open>The dynamic type of \<open>result any\<close>: pointers, \<open>None\<close> where nil.\<close>

datatype rpc_result =
  CallToolResult "callToolResult option"
| ListToolsResult "listToolsResult option"
| DiscoverResult "discover_result option"
| InitializeResult "initialize_result option"

subsection \<open>The SDK\<close>

datatype rpc_message = RequestMessage rpc_request | ResponseMessage

datatype rpc_outcome = RpcResult bytes | RpcError int string "bytes option"

record sdk =
  DecodeMessage :: "bytes \<Rightarrow> rpc_message option"
  EncodeMessage :: "jsonrpc_id \<Rightarrow> rpc_outcome \<Rightarrow> bytes option"
  unmarshalInitialize :: "bytes \<Rightarrow> string + string"
  unmarshalError :: "bytes \<Rightarrow> string"
  marshalTool :: "mcp_tool \<Rightarrow> bytes option"
  marshalImplementation :: "string \<Rightarrow> string \<Rightarrow> bytes option"
  cacheableMembers :: "cacheable \<Rightarrow> (string \<times> bytes) list"
  marshalDiscover :: "discover_result \<Rightarrow> bytes option"
  marshalInitialize :: "initialize_result \<Rightarrow> bytes option"

subsection \<open>Encoding results (\<open>json.Marshal\<close>)\<close>

fun marshal_meta_value :: "sdk \<Rightarrow> meta_value \<Rightarrow> bytes option" where
  "marshal_meta_value S (MetaImplementation name version) = marshalImplementation S name version"
| "marshal_meta_value S (MetaAny v) = Some (marshal v)"

text \<open>
  The members of the embedded \<open>resultMeta\<close>, both \<open>omitempty\<close>; \<open>None\<close> where a member cannot be
  marshalled. The keys of a map are sorted.
\<close>

definition meta_members :: "sdk \<Rightarrow> resultMeta \<Rightarrow> (string \<times> bytes) list option" where
  "meta_members S m =
     (let kvs = sort_key fst (case rm_Meta m of None \<Rightarrow> [] | Some kvs \<Rightarrow> kvs)
      in map_option
           (\<lambda>vs.
              (if kvs = [] then [] else [(''_meta'', json_object (zip (map fst kvs) vs))]) @
              (if rm_ResultType m = [] then []
               else [(''resultType'', json_quote (rm_ResultType m))]))
           (all_some (map (\<lambda>p. marshal_meta_value S (snd p)) kvs)))"

definition marshal_textContent :: "textContent \<Rightarrow> bytes" where
  "marshal_textContent c =
     json_object [(''type'', json_quote (tc_Type c)), (''text'', json_quote (tc_Text c))]"

definition call_members :: "callToolResult \<Rightarrow> (string \<times> bytes) list option" where
  "call_members r =
     (if ct_StructuredContent r \<noteq> [] \<and> \<not> json_valid (ct_StructuredContent r) then None
      else Some
        ([(''content'', json_array (map marshal_textContent (ct_Content r)))] @
         (if ct_StructuredContent r = [] then []
          else [(''structuredContent'', compact False (ct_StructuredContent r))]) @
         (if ct_IsError r then [(''isError'', ''true'')] else [])))"

definition marshal_callToolResult :: "sdk \<Rightarrow> callToolResult \<Rightarrow> bytes option" where
  "marshal_callToolResult S r =
     Option.bind (meta_members S (ct_meta r))
       (\<lambda>ms. map_option (\<lambda>cs. json_object (ms @ cs)) (call_members r))"

definition marshal_listToolsResult :: "sdk \<Rightarrow> listToolsResult \<Rightarrow> bytes option" where
  "marshal_listToolsResult S r =
     Option.bind (meta_members S (lt_meta r))
       (\<lambda>ms. map_option
               (\<lambda>ts. json_object
                  (ms @ (case lt_Cacheable r of None \<Rightarrow> [] | Some c \<Rightarrow> cacheableMembers S c) @
                   [(''tools'', json_array ts)]))
               (all_some (map (marshalTool S) (lt_Tools r))))"

definition marshal_pointer :: "('a \<Rightarrow> bytes option) \<Rightarrow> 'a option \<Rightarrow> bytes option" where
  "marshal_pointer f p = (case p of None \<Rightarrow> Some ''null'' | Some r \<Rightarrow> f r)"

fun marshal_result :: "sdk \<Rightarrow> rpc_result \<Rightarrow> bytes option" where
  "marshal_result S (CallToolResult r) = marshal_pointer (marshal_callToolResult S) r"
| "marshal_result S (ListToolsResult r) = marshal_pointer (marshal_listToolsResult S) r"
| "marshal_result S (DiscoverResult r) = marshal_pointer (marshalDiscover S) r"
| "marshal_result S (InitializeResult r) = marshal_pointer (marshalInitialize S) r"

subsection \<open>The legacy era\<close>

definition legacy_serves :: "string \<Rightarrow> bool" where
  "legacy_serves m \<longleftrightarrow>
     m = methodInitialize \<or> m = methodNotificationsInitialized \<or> m = methodToolsList \<or>
     m = methodToolsCall"

definition legacy_encodeResult :: "sdk \<Rightarrow> rpc_result \<Rightarrow> bytes option" where
  "legacy_encodeResult S result = marshal_result S result"

definition legacy_errorStatus :: "int \<Rightarrow> int" where
  "legacy_errorStatus code = StatusOK"

definition legacy_validateHeaders :: "rpc_request \<Rightarrow> string \<Rightarrow> mcp_request_headers \<Rightarrow> string option" where
  "legacy_validateHeaders req metaVersion hdrs = None"

subsection \<open>The modern era\<close>

record server_info =
  si_Name :: string
  si_Version :: string
  si_Instructions :: string

definition resultTypeComplete :: string where "resultTypeComplete = ''complete''"
definition cacheTTLMillis :: int where "cacheTTLMillis = 300000"
definition cacheScope :: string where "cacheScope = ''private''"

definition MetaKeyServerInfo :: string where
  "MetaKeyServerInfo = ''io.modelcontextprotocol/serverInfo''"

definition MetaKeyProtocolVersion :: string where
  "MetaKeyProtocolVersion = ''io.modelcontextprotocol/protocolVersion''"

definition cache_hints :: cacheable where
  "cache_hints = \<lparr>TTLMs = cacheTTLMillis, CacheScope = cacheScope\<rparr>"

definition modern_serves :: "string \<Rightarrow> bool" where
  "modern_serves m \<longleftrightarrow> m = methodDiscover \<or> m = methodToolsList \<or> m = methodToolsCall"

definition metaWithServerInfo ::
  "server_info \<Rightarrow> (string \<times> meta_value) list option \<Rightarrow> (string \<times> meta_value) list option" where
  "metaWithServerInfo e m =
     Some (AList.update MetaKeyServerInfo (MetaImplementation (si_Name e) (si_Version e))
             (case m of None \<Rightarrow> [] | Some kvs \<Rightarrow> kvs))"

definition stampEnvelope :: "server_info \<Rightarrow> resultMeta \<Rightarrow> resultMeta" where
  "stampEnvelope e m =
     m\<lparr>rm_Meta := metaWithServerInfo e (rm_Meta m), rm_ResultType := resultTypeComplete\<rparr>"

definition modern_encodeResult :: "sdk \<Rightarrow> server_info \<Rightarrow> rpc_result \<Rightarrow> bytes option" where
  "modern_encodeResult S e result =
     (case result of
        CallToolResult (Some r) \<Rightarrow>
          marshal_callToolResult S (r\<lparr>ct_meta := stampEnvelope e (ct_meta r)\<rparr>)
      | ListToolsResult (Some r) \<Rightarrow>
          marshal_listToolsResult S
            (r\<lparr>lt_meta := stampEnvelope e (lt_meta r), lt_Cacheable := Some cache_hints\<rparr>)
      | DiscoverResult (Some r) \<Rightarrow>
          marshalDiscover S
            (r\<lparr>dr_meta := stampEnvelope e (dr_meta r), dr_Cacheable := Some cache_hints\<rparr>)
      | _ \<Rightarrow> None)"

definition modern_errorStatus :: "int \<Rightarrow> int" where
  "modern_errorStatus code =
     (if code = CodeUnsupportedProtocolVersion \<or> code = CodeHeaderMismatch \<or> code = CodeInvalidParams
      then StatusBadRequest
      else if code = CodeMethodNotFound then StatusNotFound
      else StatusOK)"

subsection \<open>An era, and the one a request belongs to\<close>

datatype protocol_era = LegacyEra | ModernEra server_info

primrec serves :: "protocol_era \<Rightarrow> string \<Rightarrow> bool" where
  "serves LegacyEra = legacy_serves"
| "serves (ModernEra e) = modern_serves"

primrec encodeResult :: "sdk \<Rightarrow> protocol_era \<Rightarrow> rpc_result \<Rightarrow> bytes option" where
  "encodeResult S LegacyEra = legacy_encodeResult S"
| "encodeResult S (ModernEra e) = modern_encodeResult S e"

primrec errorStatus :: "protocol_era \<Rightarrow> int \<Rightarrow> int" where
  "errorStatus LegacyEra = legacy_errorStatus"
| "errorStatus (ModernEra e) = modern_errorStatus"

primrec validateHeaders ::
  "unicode_tables \<Rightarrow> protocol_era \<Rightarrow> rpc_request \<Rightarrow> string \<Rightarrow> mcp_request_headers \<Rightarrow> string option" where
  "validateHeaders U LegacyEra = legacy_validateHeaders"
| "validateHeaders U (ModernEra e) = validateModernHeaders U"

definition mcpMethodLabel :: "string \<Rightarrow> string" where
  "mcpMethodLabel m = (if legacy_serves m \<or> modern_serves m then m else ''unknown'')"

definition resolveEra ::
  "server_info \<Rightarrow> string \<Rightarrow> string \<Rightarrow> string \<Rightarrow> protocol_era \<times> string \<times> bool" where
  "resolveEra e m declared mirrored =
     (if m = methodInitialize \<or> m = methodNotificationsInitialized then (LegacyEra, [], True)
      else
        let requested = (if \<not> isModernVersion declared then mirrored else declared) in
        if \<not> isModernVersion requested then (LegacyEra, [], True)
        else (ModernEra e, requested, isSupportedVersion requested))"

text \<open>\<open>metaProtocolVersion\<close>: the members of \<open>_meta\<close> are kept as JSON trees, as \<open>json.RawMessage\<close> does.\<close>

definition meta_of_params :: "json \<Rightarrow> (string \<times> json) list option" where
  "meta_of_params j =
     (case struct_members j of
        None \<Rightarrow> None
      | Some kvs \<Rightarrow> decode_map Some [] (field_members [''_meta''] ''_meta'' kvs))"

definition metaProtocolVersion :: "bytes \<Rightarrow> string" where
  "metaProtocolVersion params =
     (if params = [] then []
      else
        (case Option.bind (parse_json params) meta_of_params of
           None \<Rightarrow> []
         | Some meta \<Rightarrow>
             (case map_of meta MetaKeyProtocolVersion of
                None \<Rightarrow> []
              | Some raw \<Rightarrow> (case decode_string [] [raw] of None \<Rightarrow> [] | Some v \<Rightarrow> v))))"

subsection \<open>The contract of an era\<close>

lemma call_members_meta [simp]: "call_members (r\<lparr>ct_meta := m\<rparr>) = call_members r"
  by (simp add: call_members_def)

lemma meta_members_keys:
  "meta_members S m = Some ms \<Longrightarrow> fst ` set ms \<subseteq> {''_meta'', ''resultType''}"
  by (auto simp: meta_members_def Let_def split: if_splits)

locale era_contract =
  fixes S :: sdk
    and serves' :: "string \<Rightarrow> bool"
    and errorStatus' :: "int \<Rightarrow> int"
    and encode' :: "rpc_result \<Rightarrow> bytes option"
    and stamp :: "resultMeta \<Rightarrow> resultMeta"
  assumes serves_tools: "serves' methodToolsList" "serves' methodToolsCall"
    and serves_known:
      "serves' m \<Longrightarrow>
         m \<in> {methodInitialize, methodNotificationsInitialized, methodDiscover, methodToolsList,
              methodToolsCall}"
    and status_range: "errorStatus' c \<in> {StatusOK, StatusBadRequest, StatusNotFound}"
    and application_errors: "errorStatus' CodeInternalError = StatusOK"
    and encode_call:
      "encode' (CallToolResult (Some r)) =
         marshal_callToolResult S (r\<lparr>ct_meta := stamp (ct_meta r)\<rparr>)"
begin

text \<open>An era adds members to a tool result and changes none of its own.\<close>

lemma call_result_members:
  "encode' (CallToolResult (Some r)) = Some b \<longleftrightarrow>
     (\<exists>ms cs. meta_members S (stamp (ct_meta r)) = Some ms \<and> call_members r = Some cs \<and>
        b = json_object (ms @ cs))"
  by (auto simp: encode_call marshal_callToolResult_def bind_eq_Some_conv)

lemma call_result_unstructured:
  assumes "meta_members S (stamp (ct_meta r)) \<noteq> None" and "ct_StructuredContent r = []"
  shows "encode' (CallToolResult (Some r)) \<noteq> None"
  using assms by (auto simp: encode_call marshal_callToolResult_def call_members_def)

lemma error_status_cases: "errorStatus' c = 200 \<or> errorStatus' c = 400 \<or> errorStatus' c = 404"
  using status_range [of c] by (auto simp: http_codes)

end

interpretation legacy: era_contract S legacy_serves legacy_errorStatus "legacy_encodeResult S" id
  for S
  by unfold_locales
    (auto simp: legacy_serves_def legacy_errorStatus_def legacy_encodeResult_def marshal_pointer_def)

interpretation modern:
  era_contract S modern_serves modern_errorStatus "modern_encodeResult S e" "stampEnvelope e"
  for S e
  by unfold_locales
    (auto simp: modern_serves_def modern_errorStatus_def modern_encodeResult_def rpc_codes http_codes)

primrec stamp_of :: "protocol_era \<Rightarrow> resultMeta \<Rightarrow> resultMeta" where
  "stamp_of LegacyEra = id"
| "stamp_of (ModernEra e) = stampEnvelope e"

interpretation era: era_contract S "serves e" "errorStatus e" "encodeResult S e" "stamp_of e"
  for S e
  by (cases e) (simp_all add: legacy.era_contract_axioms modern.era_contract_axioms)

subsection \<open>Facts about versions and eras\<close>

lemma modern_version_eval [era_simps]:
  "isModernVersion v20260728" "\<not> isModernVersion v20251125" "\<not> isModernVersion v20250618"
  "\<not> isModernVersion []" "isSupportedVersion v20260728" "isSupportedVersion v20251125"
  "isSupportedVersion v20250618"
  by code_simp+

lemma modern_supported_iff: "isModernVersion v \<and> isSupportedVersion v \<longleftrightarrow> v = v20260728"
  using modern_version_eval by (auto simp: isSupportedVersion_def supportedProtocolVersions_def)

lemma negotiated_is_legacy:
  "isSupportedVersion (negotiateLegacyVersion v) \<and> \<not> isModernVersion (negotiateLegacyVersion v)"
  by (simp add: negotiateLegacyVersion_def latestLegacyVersion_def era_simps)

lemma negotiated_keeps:
  "isSupportedVersion v \<Longrightarrow> \<not> isModernVersion v \<Longrightarrow> negotiateLegacyVersion v = v"
  by (simp add: negotiateLegacyVersion_def)

lemma method_surface:
  "serves LegacyEra m \<and> serves (ModernEra e) m \<longleftrightarrow> m = methodToolsList \<or> m = methodToolsCall"
  by (auto simp: legacy_serves_def modern_serves_def method_defs)

lemma resolveEra_handshake:
  "m = methodInitialize \<or> m = methodNotificationsInitialized \<Longrightarrow>
     resolveEra e m d h = (LegacyEra, [], True)"
  by (simp add: resolveEra_def)

lemma resolveEra_legacy:
  "\<not> isModernVersion d \<Longrightarrow> \<not> isModernVersion h \<Longrightarrow> resolveEra e m d h = (LegacyEra, [], True)"
  by (simp add: resolveEra_def)

text \<open>The modern era is entered exactly by a modern version, in the body or else in the header.\<close>

lemma resolveEra_modern_iff:
  "fst (resolveEra e m d h) = ModernEra e \<longleftrightarrow>
     m \<noteq> methodInitialize \<and> m \<noteq> methodNotificationsInitialized \<and>
     (isModernVersion d \<or> isModernVersion h)"
  by (simp add: resolveEra_def Let_def)

text \<open>Which era a request belongs to, and when it is served there.\<close>

lemma era_selection:
  "(fst (resolveEra e m declared mirrored) = ModernEra e \<longleftrightarrow>
      m \<noteq> methodInitialize \<and> m \<noteq> methodNotificationsInitialized \<and>
      (isModernVersion declared \<or> isModernVersion mirrored)) \<and>
   (snd (snd (resolveEra e m declared mirrored)) \<longleftrightarrow>
      fst (resolveEra e m declared mirrored) = LegacyEra \<or>
      (if isModernVersion declared then declared else mirrored) = v20260728)"
  using modern_supported_iff [of declared] modern_supported_iff [of mirrored]
  by (simp add: resolveEra_modern_iff) (auto simp: resolveEra_def Let_def)

lemma resolveEra_served_iff:
  "snd (snd (resolveEra e m d h)) \<longleftrightarrow>
     fst (resolveEra e m d h) = LegacyEra \<or> fst (snd (resolveEra e m d h)) = v20260728"
  using modern_supported_iff [of d] modern_supported_iff [of h]
  by (auto simp: resolveEra_def Let_def)

lemma resolveEra_cases:
  obtains "resolveEra e m d h = (LegacyEra, [], True)"
  | v where "resolveEra e m d h = (ModernEra e, v, isSupportedVersion v)" "isModernVersion v"
      "m \<noteq> methodInitialize" "m \<noteq> methodNotificationsInitialized"
      "v = (if isModernVersion d then d else h)"
proof (cases "m = methodInitialize \<or> m = methodNotificationsInitialized \<or>
    \<not> isModernVersion (if isModernVersion d then d else h)")
  case True
  then have "resolveEra e m d h = (LegacyEra, [], True)" by (auto simp: resolveEra_def)
  then show ?thesis by (rule that(1))
next
  case False
  then show ?thesis
    by (intro that(2) [of "if isModernVersion d then d else h"]) (auto simp: resolveEra_def split: if_splits)
qed

end
