(* ===== verification/Go_Net.thy ===== *)
theory Go_Net
  imports Go_Strconv "HOL-Library.AList"
begin

section \<open>Network text (packages \<open>net\<close> and \<open>net/url\<close>)\<close>

text \<open>
  \<open>net.SplitHostPort\<close>, and the query strings of \<open>net/url\<close>: \<open>QueryEscape\<close>, \<open>Values.Add\<close> and
  \<open>Values.Encode\<close>. The server's reading of a query, \<open>parse_query\<close>, is the contract the encoding is
  proved against.
\<close>

subsection \<open>SplitHostPort\<close>

text \<open>
  \<open>None\<close> is an error. With a leading bracket the first closing bracket must stand just before the
  last colon; otherwise the host must not contain a colon. No other bracket may occur.
\<close>

definition split_host_port :: "string \<Rightarrow> (string \<times> string) option" where
  "split_host_port hp =
     (case last_index_byte hp (CHR '':'') of
        None \<Rightarrow> None
      | Some i \<Rightarrow>
          if hd hp = CHR ''['' then
            (case index_byte hp (CHR '']'') of
               None \<Rightarrow> None
             | Some e \<Rightarrow>
                 if Suc e = length hp \<or> Suc e \<noteq> i then None
                 else if CHR ''['' \<in> set (drop 1 hp) \<or> CHR '']'' \<in> set (drop (Suc e) hp) then None
                 else Some (take (e - 1) (drop 1 hp), drop (Suc i) hp))
          else if CHR '':'' \<in> set (take i hp) then None
          else if CHR ''['' \<in> set hp \<or> CHR '']'' \<in> set hp then None
          else Some (take i hp, drop (Suc i) hp))"

lemma split_host_port_plain:
  assumes "h \<noteq> []" and "set h \<inter> {CHR '':'', CHR ''['', CHR '']''} = {}"
    and "set p \<inter> {CHR '':'', CHR ''['', CHR '']''} = {}"
  shows "split_host_port (h @ CHR '':'' # p) = Some (h, p)"
proof -
  have "last_index_byte (h @ CHR '':'' # p) (CHR '':'') = Some (length h)"
    using assms(3) by (intro last_index_byte_append) auto
  moreover have "hd (h @ CHR '':'' # p) \<noteq> CHR ''[''"
    using assms(1,2) by (cases h) auto
  ultimately show ?thesis using assms by (auto simp: split_host_port_def)
qed

lemma split_host_port_no_colon: "CHR '':'' \<notin> set h \<Longrightarrow> split_host_port h = None"
  by (simp add: split_host_port_def last_index_byte_None [THEN iffD2])

subsection \<open>Query strings\<close>

definition is_unreserved :: "char \<Rightarrow> bool" where
  "is_unreserved c \<longleftrightarrow>
     (97 \<le> byte_of c \<and> byte_of c \<le> 122) \<or> (65 \<le> byte_of c \<and> byte_of c \<le> 90) \<or>
     (48 \<le> byte_of c \<and> byte_of c \<le> 57) \<or>
     c = CHR ''-'' \<or> c = CHR ''_'' \<or> c = CHR ''.'' \<or> c = CHR ''~''"

definition escape_byte :: "char \<Rightarrow> string" where
  "escape_byte c =
     (if is_unreserved c then [c]
      else if c = CHR '' '' then ''+''
      else [CHR ''%'', hex_upper (byte_of c div 16), hex_upper (byte_of c mod 16)])"

definition query_escape :: "string \<Rightarrow> string" where
  "query_escape s = concat (map escape_byte s)"

text \<open>\<open>url.Values\<close>: each key with the list of its values, in the order they were added.\<close>

type_synonym url_values = "(string \<times> string list) list"

definition values_add :: "string \<Rightarrow> string \<Rightarrow> url_values \<Rightarrow> url_values" where
  "values_add k v vs =
     AList.update k ((case map_of vs k of Some xs \<Rightarrow> xs | None \<Rightarrow> []) @ [v]) vs"

text \<open>The pairs in the order \<open>Encode\<close> writes them: by sorted key, then as added.\<close>

definition values_pairs :: "url_values \<Rightarrow> (string \<times> string) list" where
  "values_pairs vs = concat (map (\<lambda>(k, xs). map (Pair k) xs) (sort_key fst vs))"

definition values_encode :: "url_values \<Rightarrow> string" where
  "values_encode vs =
     join (map (\<lambda>(k, v). query_escape k @ ''='' @ query_escape v) (values_pairs vs)) ''&''"

subsection \<open>Reading a query\<close>

definition unhex :: "char \<Rightarrow> nat option" where
  "unhex c =
     (if 48 \<le> byte_of c \<and> byte_of c \<le> 57 then Some (byte_of c - 48)
      else if 97 \<le> byte_of c \<and> byte_of c \<le> 102 then Some (byte_of c - 87)
      else if 65 \<le> byte_of c \<and> byte_of c \<le> 70 then Some (byte_of c - 55)
      else None)"

fun query_unescape :: "string \<Rightarrow> string option" where
  "query_unescape [] = Some []"
| "query_unescape (c # cs) =
     (if c = CHR ''%'' then
        (case cs of
           h # l # s \<Rightarrow>
             (case (unhex h, unhex l) of
                (Some x, Some y) \<Rightarrow> map_option ((#) (char_of (16 * x + y))) (query_unescape s)
              | _ \<Rightarrow> None)
         | _ \<Rightarrow> None)
      else map_option ((#) (if c = CHR ''+'' then CHR '' '' else c)) (query_unescape cs))"

fun split_on :: "char \<Rightarrow> string \<Rightarrow> string list" where
  "split_on c [] = [[]]"
| "split_on c (x # xs) =
     (if x = c then [] # split_on c xs
      else case split_on c xs of [] \<Rightarrow> [[x]] | y # ys \<Rightarrow> (x # y) # ys)"

definition parse_pair :: "string \<Rightarrow> (string \<times> string) option" where
  "parse_pair s =
     (case (query_unescape (takeWhile (\<lambda>c. c \<noteq> CHR ''='') s),
            query_unescape (drop 1 (dropWhile (\<lambda>c. c \<noteq> CHR ''='') s))) of
        (Some k, Some v) \<Rightarrow> Some (k, v)
      | _ \<Rightarrow> None)"

definition parse_query :: "string \<Rightarrow> (string \<times> string) option list" where
  "parse_query s = (if s = [] then [] else map parse_pair (split_on (CHR ''&'') s))"

lemma unhex_hex_upper [simp]: "d < 16 \<Longrightarrow> unhex (hex_upper d) = Some d"
  by (auto simp: unhex_def hex_upper_def)

lemma query_unescape_byte:
  "query_unescape (escape_byte c @ s) = map_option ((#) c) (query_unescape s)"
proof -
  have b: "byte_of c < 256" by simp
  show ?thesis
  proof (cases "is_unreserved c")
    case True
    then have "c \<noteq> CHR ''%''" "c \<noteq> CHR ''+''" by (auto simp: is_unreserved_def)
    with True show ?thesis by (simp add: escape_byte_def)
  next
    case False
    have "byte_of c div 16 < 16" using b by (simp add: less_mult_imp_div_less)
    then show ?thesis using False
      by (cases "c = CHR '' ''") (simp_all add: escape_byte_def is_unreserved_def)
  qed
qed

lemma query_unescape_escape: "query_unescape (query_escape s) = Some s"
  by (induction s) (simp_all add: query_escape_def query_unescape_byte)

lemma hex_upper_unreserved: "d < 16 \<Longrightarrow> is_unreserved (hex_upper d)"
  by (auto simp: is_unreserved_def hex_upper_def)

lemma escape_byte_chars:
  assumes "x \<in> set (escape_byte c)"
  shows "is_unreserved x \<or> x = CHR ''+'' \<or> x = CHR ''%''"
proof -
  have "byte_of c < 256" by simp
  then have "byte_of c div 16 < 16" by (simp add: less_mult_imp_div_less)
  with assms show ?thesis
    by (auto simp: escape_byte_def hex_upper_unreserved split: if_splits)
qed

lemma query_escape_chars:
  assumes "x \<in> set (query_escape s)"
  shows "x \<noteq> CHR ''&'' \<and> x \<noteq> CHR ''='' \<and> x \<noteq> CHR ''#'' \<and> x \<noteq> CHR ''?''"
proof -
  from assms obtain c where "x \<in> set (escape_byte c)" by (auto simp: query_escape_def)
  then show ?thesis using escape_byte_chars [of x c] by (auto simp: is_unreserved_def)
qed

lemma split_on_single: "c \<notin> set s \<Longrightarrow> split_on c s = [s]"
  by (induction s) auto

lemma split_on_append: "c \<notin> set s \<Longrightarrow> split_on c (s @ c # t) = s # split_on c t"
  by (induction s) auto

lemma split_on_join:
  "xs \<noteq> [] \<Longrightarrow> \<forall>x \<in> set xs. c \<notin> set x \<Longrightarrow> split_on c (join xs [c]) = xs"
  by (induction xs "[c]" rule: join.induct) (simp_all add: split_on_single split_on_append)

lemma join_nonempty: "xs \<noteq> [] \<Longrightarrow> \<forall>x \<in> set xs. x \<noteq> [] \<Longrightarrow> join xs sep \<noteq> []"
  by (induction xs sep rule: join.induct) auto

lemma takeWhile_append_hit:
  "\<forall>x \<in> set s. P x \<Longrightarrow> \<not> P c \<Longrightarrow> takeWhile P (s @ c # t) = s"
  "\<forall>x \<in> set s. P x \<Longrightarrow> \<not> P c \<Longrightarrow> dropWhile P (s @ c # t) = c # t"
  by (induction s) auto

lemma parse_pair_escape:
  "parse_pair (query_escape k @ ''='' @ query_escape v) = Some (k, v)"
proof -
  have "\<forall>x \<in> set (query_escape k). x \<noteq> CHR ''=''" using query_escape_chars by blast
  then show ?thesis
    by (simp add: parse_pair_def takeWhile_append_hit query_unescape_escape)
qed

text \<open>A server reads from the encoded query the pairs that were added.\<close>

lemma parse_query_encode: "parse_query (values_encode vs) = map Some (values_pairs vs)"
proof (cases "values_pairs vs = []")
  case True
  then show ?thesis by (simp add: values_encode_def parse_query_def)
next
  case False
  let ?f = "\<lambda>(k, v). query_escape k @ ''='' @ query_escape v"
  have amp: "\<forall>x \<in> set (map ?f (values_pairs vs)). CHR ''&'' \<notin> set x"
    using query_escape_chars by fastforce
  have "\<forall>x \<in> set (map ?f (values_pairs vs)). x \<noteq> []" by auto
  then have "values_encode vs \<noteq> []"
    using False by (simp add: values_encode_def join_nonempty)
  moreover have "split_on (CHR ''&'') (values_encode vs) = map ?f (values_pairs vs)"
    using split_on_join [OF _ amp] False by (simp add: values_encode_def)
  moreover have "parse_pair (?f p) = Some p" for p
    using parse_pair_escape by (cases p) simp
  ultimately show ?thesis by (simp add: parse_query_def o_def)
qed

lemma map_of_values_add:
  "map_of (values_add k v vs) k' =
     (if k' = k then Some ((case map_of vs k of Some xs \<Rightarrow> xs | None \<Rightarrow> []) @ [v]) else map_of vs k')"
  by (simp add: values_add_def update_conv')

lemma distinct_values_add: "distinct (map fst vs) \<Longrightarrow> distinct (map fst (values_add k v vs))"
  by (simp add: values_add_def distinct_update)

end
