(* ===== verification/Endpoint_Request.thy ===== *)
theory Endpoint_Request
  imports Go_Net Registry
begin

section \<open>Building the upstream request (\<open>endpoint_request.go\<close>)\<close>

text \<open>
  A tool call's arguments are placed into the path, the query, the headers and the body that the
  operation declares. \<open>apply_parameters\<close> is the loop over the declared parameters, in the order the
  map is visited; \<open>template\<close>, \<open>fill\<close> and \<open>argument_error\<close> are the specification the loop is compared
  with.
\<close>

record param_error =
  paramIn :: string
  paramName :: string
  reason :: string

record endpoint_request =
  rpath :: string
  queryParams :: url_values
  extraHeaders :: "(string \<times> string) list"

definition ParameterInPath :: string where "ParameterInPath = ''path''"
definition ParameterInQuery :: string where "ParameterInQuery = ''query''"
definition ParameterInHeader :: string where "ParameterInHeader = ''header''"

lemmas parameter_in_defs =
  ParameterInPath_def ParameterInQuery_def ParameterInHeader_def

subsection \<open>One argument\<close>

fun jsonScalarToString :: "gvalue \<Rightarrow> string option" where
  "jsonScalarToString (VString s) = Some s"
| "jsonScalarToString (VFloat f) = Some (format_g f)"
| "jsonScalarToString (VBool b) = Some (if b then ''true'' else ''false'')"
| "jsonScalarToString _ = None"

definition scalarParamString :: "string \<Rightarrow> string \<Rightarrow> gvalue \<Rightarrow> param_error + string" where
  "scalarParamString pin pname value =
     (case jsonScalarToString value of
        None \<Rightarrow> Inl \<lparr>paramIn = pin, paramName = pname, reason = ''must be a scalar value''\<rparr>
      | Some str \<Rightarrow> Inr str)"

fun slice_values :: "string \<Rightarrow> string list \<Rightarrow> gvalue list \<Rightarrow> param_error + string list" where
  "slice_values pname vals [] = Inr vals"
| "slice_values pname vals (elem # slice) =
     (case jsonScalarToString elem of
        None \<Rightarrow> Inl \<lparr>paramIn = ParameterInQuery, paramName = pname,
                     reason = ''array elements must be scalar values''\<rparr>
      | Some str \<Rightarrow> slice_values pname (vals @ [str]) slice)"

definition queryParamValues :: "string \<Rightarrow> gvalue \<Rightarrow> param_error + string list" where
  "queryParamValues pname value =
     (case value of
        VList slice \<Rightarrow> slice_values pname [] slice
      | _ \<Rightarrow>
        (case jsonScalarToString value of
           None \<Rightarrow> Inl \<lparr>paramIn = ParameterInQuery, paramName = pname,
                        reason = ''must be a scalar value or array of scalars''\<rparr>
         | Some str \<Rightarrow> Inr [str]))"

definition placeholder :: "string \<Rightarrow> string" where
  "placeholder pname = ''{'' @ pname @ ''}''"

definition applyEndpointArgument ::
  "endpoint_request \<Rightarrow> string \<Rightarrow> string \<Rightarrow> gvalue \<Rightarrow> param_error + endpoint_request" where
  "applyEndpointArgument r pin pname value =
     (if pin = ParameterInPath then
        (case scalarParamString pin pname value of
           Inl e \<Rightarrow> Inl e
         | Inr str \<Rightarrow> Inr (r\<lparr>rpath := replace_all (rpath r) (placeholder pname) str\<rparr>))
      else if pin = ParameterInQuery then
        (case queryParamValues pname value of
           Inl e \<Rightarrow> Inl e
         | Inr vals \<Rightarrow>
             Inr (r\<lparr>queryParams := foldl (\<lambda>q v. values_add pname v q) (queryParams r) vals\<rparr>))
      else if pin = ParameterInHeader then
        (case scalarParamString pin pname value of
           Inl e \<Rightarrow> Inl e
         | Inr str \<Rightarrow> Inr (r\<lparr>extraHeaders := AList.update pname str (extraHeaders r)\<rparr>))
      else Inr r)"

subsection \<open>The request\<close>

text \<open>The two type assertions on the entries of a parameter's map; a failed one is the zero value.\<close>

definition param_in :: "(string \<times> gvalue) list \<Rightarrow> string" where
  "param_in m = (case map_of m ''in'' of Some (VString s) \<Rightarrow> s | _ \<Rightarrow> [])"

definition param_required :: "(string \<times> gvalue) list \<Rightarrow> bool" where
  "param_required m = (case map_of m ''required'' of Some (VBool b) \<Rightarrow> b | _ \<Rightarrow> False)"

definition apply_parameter ::
  "(string \<times> gvalue) list \<Rightarrow> endpoint_request \<Rightarrow> string \<Rightarrow> gvalue \<Rightarrow> param_error + endpoint_request"
  where
  "apply_parameter arguments r pname paramConfig =
     (case paramConfig of
        VMap paramMap \<Rightarrow>
          (case map_of arguments pname of
             None \<Rightarrow>
               if param_required paramMap
               then Inl \<lparr>paramIn = param_in paramMap, paramName = pname,
                         reason = ''required but missing''\<rparr>
               else Inr r
           | Some value \<Rightarrow> applyEndpointArgument r (param_in paramMap) pname value)
      | _ \<Rightarrow> Inr r)"

fun apply_parameters ::
  "(string \<times> gvalue) list \<Rightarrow> endpoint_request \<Rightarrow> (string \<times> gvalue) list \<Rightarrow>
   param_error + endpoint_request" where
  "apply_parameters arguments r [] = Inr r"
| "apply_parameters arguments r (p # ps) =
     (case apply_parameter arguments r (fst p) (snd p) of
        Inl e \<Rightarrow> Inl e
      | Inr r' \<Rightarrow> apply_parameters arguments r' ps)"

definition initial_headers :: "endpoint \<Rightarrow> (string \<times> string) list" where
  "initial_headers e =
     (''accept'', ''*/*'') #
     (if ContentType e \<noteq> [] then [(''content-type'', ContentType e)] else [])"

definition newEndpointRequest ::
  "endpoint \<Rightarrow> (string \<times> gvalue) list \<Rightarrow> param_error + endpoint_request" where
  "newEndpointRequest e arguments =
     apply_parameters arguments
       \<lparr>rpath = PathTemplate e, queryParams = [], extraHeaders = initial_headers e\<rparr>
       (Parameters e)"

definition fullPath :: "endpoint_request \<Rightarrow> string" where
  "fullPath r =
     (if queryParams r \<noteq> [] then rpath r @ ''?'' @ values_encode (queryParams r) else rpath r)"

text \<open>
  \<open>marshalRequestBody\<close>. Marshalling a value that came out of \<open>json.Unmarshal\<close> does not fail: its
  numbers are finite.
\<close>

definition marshalRequestBody :: "unicode_tables \<Rightarrow> endpoint \<Rightarrow> (string \<times> gvalue) list \<Rightarrow> bytes" where
  "marshalRequestBody U e arguments =
     (if \<not> supportsBody U e then []
      else (case map_of arguments ''body'' of None \<Rightarrow> [] | Some v \<Rightarrow> marshal v))"

subsection \<open>What a parameter contributes\<close>

text \<open>
  \<open>placed pin params arguments n\<close> is the value the argument \<open>n\<close> has when the operation declares a
  parameter of that name with \<open>in = pin\<close>; \<open>query_strings\<close> are the strings a value puts into the
  query.
\<close>

definition placed ::
  "string \<Rightarrow> (string \<times> gvalue) list \<Rightarrow> (string \<times> gvalue) list \<Rightarrow> string \<Rightarrow> gvalue option" where
  "placed pin params arguments n =
     (case map_of params n of
        Some (VMap m) \<Rightarrow> if param_in m = pin then map_of arguments n else None
      | _ \<Rightarrow> None)"

fun query_strings :: "gvalue \<Rightarrow> string list option" where
  "query_strings (VList xs) = all_some (map jsonScalarToString xs)"
| "query_strings v = map_option (\<lambda>s. [s]) (jsonScalarToString v)"

text \<open>When a declared parameter makes the loop stop with an error.\<close>

definition argument_error :: "(string \<times> gvalue) list \<Rightarrow> string \<Rightarrow> gvalue \<Rightarrow> bool" where
  "argument_error arguments n c =
     (case c of
        VMap m \<Rightarrow>
          (case map_of arguments n of
             None \<Rightarrow> param_required m
           | Some v \<Rightarrow>
               if param_in m = ParameterInQuery then query_strings v = None
               else if param_in m = ParameterInPath \<or> param_in m = ParameterInHeader
               then jsonScalarToString v = None
               else False)
      | _ \<Rightarrow> False)"

definition values_of :: "url_values \<Rightarrow> string \<Rightarrow> string list" where
  "values_of q n = (case map_of q n of None \<Rightarrow> [] | Some vs \<Rightarrow> vs)"

lemma slice_values:
  "slice_values n vs xs =
     (case all_some (map jsonScalarToString xs) of
        None \<Rightarrow> Inl \<lparr>paramIn = ParameterInQuery, paramName = n,
                     reason = ''array elements must be scalar values''\<rparr>
      | Some ys \<Rightarrow> Inr (vs @ ys))"
  by (induction xs arbitrary: vs) (auto split: option.splits)

lemma queryParamValues_Inr:
  "queryParamValues n v = Inr vs \<longleftrightarrow> query_strings v = Some vs"
  by (cases v) (auto simp: queryParamValues_def slice_values split: option.splits)

lemma queryParamValues_Inl:
  "(\<exists>e. queryParamValues n v = Inl e) \<longleftrightarrow> query_strings v = None"
  by (cases v) (auto simp: queryParamValues_def slice_values split: option.splits)

lemma scalarParamString_Inr:
  "scalarParamString pin n v = Inr s \<longleftrightarrow> jsonScalarToString v = Some s"
  by (auto simp: scalarParamString_def split: option.splits)

lemma values_of_values_add:
  "values_of (values_add k v q) n = (if n = k then values_of q k @ [v] else values_of q n)"
  by (simp add: values_of_def map_of_values_add)

lemma values_of_add_all:
  "values_of (foldl (\<lambda>q v. values_add k v q) q vs) n =
     (if n = k then values_of q k @ vs else values_of q n)"
  by (induction vs arbitrary: q) (simp_all add: values_of_values_add)

lemma distinct_add_all:
  "distinct (map fst q) \<Longrightarrow> distinct (map fst (foldl (\<lambda>q v. values_add k v q) q vs))"
  by (induction vs arbitrary: q) (simp_all add: distinct_values_add)

text \<open>One parameter: the three kinds of places, each changed only by its own kind.\<close>

lemma apply_parameter_Inl_iff:
  "(\<exists>e. apply_parameter args r n c = Inl e) \<longleftrightarrow> argument_error args n c"
  using queryParamValues_Inl [of n]
  by (auto simp: apply_parameter_def argument_error_def applyEndpointArgument_def
      queryParamValues_Inr scalarParamString_def parameter_in_defs
      split: gvalue.split option.split sum.split)

lemma apply_parameter_query:
  assumes "apply_parameter args r n c = Inr r'"
  shows "values_of (queryParams r') k =
           values_of (queryParams r) k @
           (if k = n then
              (case placed ParameterInQuery [(n, c)] args n of
                 None \<Rightarrow> [] | Some v \<Rightarrow> the (query_strings v))
            else [])"
    and "distinct (map fst (queryParams r)) \<Longrightarrow> distinct (map fst (queryParams r'))"
  using assms
  by (auto simp: apply_parameter_def applyEndpointArgument_def placed_def values_of_add_all
      distinct_add_all queryParamValues_Inr parameter_in_defs
      split: gvalue.splits option.splits sum.splits if_splits)

lemma apply_parameter_headers:
  assumes "apply_parameter args r n c = Inr r'"
  shows "map_of (extraHeaders r') k =
           (if k = n \<and> placed ParameterInHeader [(n, c)] args n \<noteq> None
            then jsonScalarToString (the (placed ParameterInHeader [(n, c)] args n))
            else map_of (extraHeaders r) k)"
    and "distinct (map fst (extraHeaders r)) \<Longrightarrow> distinct (map fst (extraHeaders r'))"
  using assms
  by (auto simp: apply_parameter_def applyEndpointArgument_def placed_def update_conv'
      distinct_update scalarParamString_Inr parameter_in_defs
      split: gvalue.splits option.splits sum.splits if_splits)

lemma apply_parameter_path:
  assumes "apply_parameter args r n c = Inr r'"
  shows "rpath r' =
           (case placed ParameterInPath [(n, c)] args n of
              None \<Rightarrow> rpath r
            | Some v \<Rightarrow> replace_all (rpath r) (placeholder n) (the (jsonScalarToString v)))"
  using assms
  by (auto simp: apply_parameter_def applyEndpointArgument_def placed_def
      scalarParamString_Inr parameter_in_defs
      split: gvalue.splits option.splits sum.splits if_splits)

subsection \<open>The loop over the parameters\<close>

lemma apply_parameters_Inl_iff:
  "(\<exists>e. apply_parameters args r ps = Inl e) \<longleftrightarrow> (\<exists>(n, c) \<in> set ps. argument_error args n c)"
proof (induction ps arbitrary: r)
  case Nil
  then show ?case by simp
next
  case (Cons p ps)
  show ?case
  proof (cases "apply_parameter args r (fst p) (snd p)")
    case (Inl e)
    then have "argument_error args (fst p) (snd p)" using apply_parameter_Inl_iff by blast
    with Inl show ?thesis by (auto simp: case_prod_beta)
  next
    case (Inr r')
    then have "\<not> argument_error args (fst p) (snd p)"
      using apply_parameter_Inl_iff [of args r "fst p" "snd p"] by simp
    with Inr Cons.IH [of r'] show ?thesis by (simp add: case_prod_beta)
  qed
qed

lemma placed_Cons:
  "placed pin (p # ps) args n =
     (if n = fst p then placed pin [p] args n else placed pin ps args n)"
  by (cases p) (auto simp: placed_def)

lemma placed_absent: "n \<notin> fst ` set ps \<Longrightarrow> placed pin ps args n = None"
  by (auto simp: placed_def map_of_eq_None_iff [THEN iffD2])

lemma apply_parameters_query:
  assumes "apply_parameters args r ps = Inr r'" and "distinct (map fst ps)"
  shows "values_of (queryParams r') n =
           values_of (queryParams r) n @
           (case placed ParameterInQuery ps args n of None \<Rightarrow> [] | Some v \<Rightarrow> the (query_strings v))"
  using assms
proof (induction ps arbitrary: r)
  case Nil
  then show ?case by (simp add: placed_def)
next
  case (Cons p ps)
  then obtain r1 where r1: "apply_parameter args r (fst p) (snd p) = Inr r1"
    and rest: "apply_parameters args r1 ps = Inr r'" by (auto split: sum.splits)
  have "values_of (queryParams r') n = values_of (queryParams r1) n @
          (case placed ParameterInQuery ps args n of None \<Rightarrow> [] | Some v \<Rightarrow> the (query_strings v))"
    using rest Cons.prems by (intro Cons.IH) auto
  with apply_parameter_query(1) [OF r1, of n] Cons.prems(2) show ?case
    by (cases "n = fst p") (simp_all add: placed_Cons [of _ p ps] placed_absent)
qed

lemma apply_parameters_headers:
  assumes "apply_parameters args r ps = Inr r'" and "distinct (map fst ps)"
  shows "map_of (extraHeaders r') n =
           (case placed ParameterInHeader ps args n of
              None \<Rightarrow> map_of (extraHeaders r) n | Some v \<Rightarrow> jsonScalarToString v)"
  using assms
proof (induction ps arbitrary: r)
  case Nil
  then show ?case by (simp add: placed_def)
next
  case (Cons p ps)
  then obtain r1 where r1: "apply_parameter args r (fst p) (snd p) = Inr r1"
    and rest: "apply_parameters args r1 ps = Inr r'" by (auto split: sum.splits)
  have "map_of (extraHeaders r') n =
          (case placed ParameterInHeader ps args n of
             None \<Rightarrow> map_of (extraHeaders r1) n | Some v \<Rightarrow> jsonScalarToString v)"
    using rest Cons.prems by (intro Cons.IH) auto
  with apply_parameter_headers(1) [OF r1, of n] Cons.prems(2) show ?case
    by (cases "n = fst p") (auto simp: placed_Cons [of _ p ps] placed_absent split: option.split)
qed

lemma apply_parameters_distinct_query:
  "apply_parameters args r ps = Inr r' \<Longrightarrow> distinct (map fst (queryParams r)) \<Longrightarrow>
     distinct (map fst (queryParams r'))"
  by (induction ps arbitrary: r)
    (simp_all split: sum.splits, blast intro: apply_parameter_query(2))

lemma apply_parameters_distinct_headers:
  "apply_parameters args r ps = Inr r' \<Longrightarrow> distinct (map fst (extraHeaders r)) \<Longrightarrow>
     distinct (map fst (extraHeaders r'))"
  by (induction ps arbitrary: r)
    (simp_all split: sum.splits, blast intro: apply_parameter_headers(2))

subsection \<open>Path templates\<close>

text \<open>
  A template as literal text and placeholders; \<open>fill \<sigma>\<close> writes the text of those \<open>\<sigma>\<close> assigns and
  leaves the others in braces. Literals have no opening brace, names no brace.
\<close>

datatype segment = Lit string | Hole string

primrec segment_text :: "(string \<rightharpoonup> string) \<Rightarrow> segment \<Rightarrow> string" where
  "segment_text \<sigma> (Lit s) = s"
| "segment_text \<sigma> (Hole n) = (case \<sigma> n of None \<Rightarrow> placeholder n | Some v \<Rightarrow> v)"

definition fill :: "(string \<rightharpoonup> string) \<Rightarrow> segment list \<Rightarrow> string" where
  "fill \<sigma> segs = concat (map (segment_text \<sigma>) segs)"

definition no_open :: "string \<Rightarrow> bool" where
  "no_open s \<longleftrightarrow> CHR ''{'' \<notin> set s"

definition plain_name :: "string \<Rightarrow> bool" where
  "plain_name n \<longleftrightarrow> CHR ''{'' \<notin> set n \<and> CHR ''}'' \<notin> set n"

primrec segment_ok :: "segment \<Rightarrow> bool" where
  "segment_ok (Lit s) = no_open s"
| "segment_ok (Hole n) = plain_name n"

lemma placeholder_not_Nil [simp]: "placeholder n \<noteq> []"
  by (simp add: placeholder_def)

lemma placeholder_not_prefix: "c \<noteq> CHR ''{'' \<Longrightarrow> \<not> has_prefix (c # s) (placeholder n)"
  by (auto simp: placeholder_def has_prefix_def)

lemma replace_placeholder_skip:
  "no_open s \<Longrightarrow> replace_all (s @ t) (placeholder n) v = s @ replace_all t (placeholder n) v"
  by (induction s) (auto simp: no_open_def replace_all_miss placeholder_not_prefix)

lemma fill_Cons: "fill \<sigma> (s # segs) = segment_text \<sigma> s @ fill \<sigma> segs"
  by (simp add: fill_def)

lemma placeholder_prefix:
  assumes "plain_name n" and "plain_name m" and "m \<noteq> n"
  shows "\<not> has_prefix (placeholder m @ t) (placeholder n)"
proof
  assume "has_prefix (placeholder m @ t) (placeholder n)"
  then obtain u where "placeholder m @ t = placeholder n @ u"
    by (metis append_take_drop_id has_prefix_def)
  then have "m @ CHR ''}'' # t = n @ CHR ''}'' # u" by (simp add: placeholder_def)
  then have "takeWhile (\<lambda>c. c \<noteq> CHR ''}'') (m @ CHR ''}'' # t) =
             takeWhile (\<lambda>c. c \<noteq> CHR ''}'') (n @ CHR ''}'' # u)" by simp
  moreover have "\<forall>x \<in> set m. x \<noteq> CHR ''}''" "\<forall>x \<in> set n. x \<noteq> CHR ''}''"
    using assms by (auto simp: plain_name_def)
  ultimately show False using assms(3) by (simp add: takeWhile_append_hit)
qed

lemma replace_other_placeholder:
  assumes "plain_name n" and "plain_name m" and "m \<noteq> n"
  shows "replace_all (placeholder m @ t) (placeholder n) v =
         placeholder m @ replace_all t (placeholder n) v"
proof -
  have "\<not> has_prefix (CHR ''{'' # (m @ ''}'') @ t) (placeholder n)"
    using placeholder_prefix [OF assms, of t] by (simp add: placeholder_def)
  then have "replace_all (CHR ''{'' # (m @ ''}'') @ t) (placeholder n) v =
             CHR ''{'' # replace_all ((m @ ''}'') @ t) (placeholder n) v"
    by (intro replace_all_miss) (simp_all add: placeholder_def)
  also have "\<dots> = CHR ''{'' # (m @ ''}'') @ replace_all t (placeholder n) v"
    using assms(2) by (subst replace_placeholder_skip) (auto simp: plain_name_def no_open_def)
  finally show ?thesis by (simp add: placeholder_def)
qed

lemma replace_fill:
  assumes "list_all segment_ok segs" and "plain_name n" and "\<sigma> n = None"
    and "\<forall>w \<in> ran \<sigma>. no_open w"
  shows "replace_all (fill \<sigma> segs) (placeholder n) v = fill (\<sigma>(n \<mapsto> v)) segs"
  using assms(1)
proof (induction segs)
  case Nil
  then show ?case by (simp add: fill_def)
next
  case (Cons s segs)
  show ?case
  proof (cases s)
    case (Lit l)
    with Cons show ?thesis by (simp add: fill_Cons replace_placeholder_skip)
  next
    case (Hole m)
    show ?thesis
    proof (cases "\<sigma> m")
      case None
      with Hole Cons assms(2) show ?thesis
        by (cases "m = n") (simp_all add: fill_Cons replace_all_hit replace_other_placeholder)
    next
      case (Some w)
      with assms(3,4) have "m \<noteq> n" "no_open w" by (auto simp: ran_def)
      with Hole Some Cons show ?thesis by (simp add: fill_Cons replace_placeholder_skip)
    qed
  qed
qed

text \<open>What the loop does to a path that is a partly filled template.\<close>

lemma apply_parameters_path:
  assumes "apply_parameters args r ps = Inr r'" and "distinct (map fst ps)"
    and "list_all segment_ok segs" and "\<forall>n \<in> fst ` set ps. plain_name n \<and> \<sigma> n = None"
    and "\<forall>w \<in> ran \<sigma>. no_open w"
    and "\<forall>n v s. placed ParameterInPath ps args n = Some v \<longrightarrow> jsonScalarToString v = Some s \<longrightarrow> no_open s"
    and "rpath r = fill \<sigma> segs"
  shows "rpath r' =
           fill (\<sigma> ++ (\<lambda>n. Option.bind (placed ParameterInPath ps args n) jsonScalarToString)) segs"
  using assms
proof (induction ps arbitrary: r \<sigma>)
  case Nil
  then show ?case by (simp add: placed_def map_add_def)
next
  case (Cons p ps)
  obtain n c where p: "p = (n, c)" by (cases p) auto
  obtain r1 where r1: "apply_parameter args r n c = Inr r1"
    and rest: "apply_parameters args r1 ps = Inr r'"
    using Cons.prems(1) by (auto simp: p split: sum.splits)
  have notin: "n \<notin> fst ` set ps" and dps: "distinct (map fst ps)"
    using Cons.prems(2) by (auto simp: p)
  have later: "placed pin ps args n = None" for pin using notin by (rule placed_absent)
  have vals: "\<forall>m v s. placed ParameterInPath ps args m = Some v \<longrightarrow>
                jsonScalarToString v = Some s \<longrightarrow> no_open s"
    using Cons.prems(6) notin by (metis later option.distinct(1) p placed_Cons fst_conv)
  let ?f = "\<lambda>ps m. Option.bind (placed ParameterInPath ps args m) jsonScalarToString"
  define \<tau> where "\<tau> = (case ?f [p] n of None \<Rightarrow> \<sigma> | Some s \<Rightarrow> \<sigma>(n \<mapsto> s))"
  have sum: "\<tau> ++ ?f ps = \<sigma> ++ ?f (p # ps)"
  proof (rule ext)
    fix m
    show "(\<tau> ++ ?f ps) m = (\<sigma> ++ ?f (p # ps)) m"
      using Cons.prems(4) later
      by (cases "m = n")
        (auto simp: \<tau>_def p placed_Cons [of _ "(n, c)" ps] map_add_def split: option.split)
  qed
  have scalar: "placed ParameterInPath [(n, c)] args n = Some v \<Longrightarrow> jsonScalarToString v \<noteq> None" for v
    using r1 by (auto simp: placed_def apply_parameter_def applyEndpointArgument_def
        scalarParamString_def split: gvalue.splits option.splits if_splits)
  have path1: "rpath r1 = fill \<tau> segs"
  proof (cases "placed ParameterInPath [(n, c)] args n")
    case None
    then show ?thesis using apply_parameter_path [OF r1] Cons.prems(7) by (simp add: \<tau>_def p)
  next
    case (Some v)
    with scalar obtain s where s: "jsonScalarToString v = Some s" by auto
    have "replace_all (fill \<sigma> segs) (placeholder n) s = fill (\<sigma>(n \<mapsto> s)) segs"
      using Cons.prems(3,4,5) by (intro replace_fill) (auto simp: p)
    then show ?thesis
      using apply_parameter_path [OF r1] Cons.prems(7) Some s by (simp add: \<tau>_def p)
  qed
  have ran: "\<forall>w \<in> ran \<tau>. no_open w"
  proof (cases "?f [p] n")
    case None
    with Cons.prems(5) show ?thesis by (simp add: \<tau>_def)
  next
    case (Some s)
    then have "no_open s"
      using spec [OF Cons.prems(6), of n]
      by (auto simp: p placed_Cons [of _ "(n, c)" ps] bind_eq_Some_conv)
    with Some Cons.prems(5) show ?thesis by (auto simp: \<tau>_def ran_def)
  qed
  have "\<forall>m \<in> fst ` set ps. plain_name m \<and> \<tau> m = None"
    using Cons.prems(4) notin by (auto simp: \<tau>_def p split: option.split)
  with Cons.IH [OF rest dps Cons.prems(3) _ ran vals path1] show ?case by (simp only: sum)
qed

subsection \<open>The whole request\<close>

text \<open>
  \<open>request_of\<close> is the specification: every value of \<open>r\<close> as a function of the operation and the
  arguments, with no order in it.
\<close>

definition path_values :: "endpoint \<Rightarrow> (string \<times> gvalue) list \<Rightarrow> string \<Rightarrow> string option" where
  "path_values e args n =
     Option.bind (placed ParameterInPath (Parameters e) args n) jsonScalarToString"

definition query_values :: "endpoint \<Rightarrow> (string \<times> gvalue) list \<Rightarrow> string \<Rightarrow> string list" where
  "query_values e args n =
     (case placed ParameterInQuery (Parameters e) args n of
        None \<Rightarrow> [] | Some v \<Rightarrow> the (query_strings v))"

definition header_value_of :: "endpoint \<Rightarrow> (string \<times> gvalue) list \<Rightarrow> string \<Rightarrow> string option" where
  "header_value_of e args n =
     (case placed ParameterInHeader (Parameters e) args n of
        None \<Rightarrow> map_of (initial_headers e) n | Some v \<Rightarrow> jsonScalarToString v)"

definition request_of :: "endpoint \<Rightarrow> (string \<times> gvalue) list \<Rightarrow> endpoint_request \<Rightarrow> bool" where
  "request_of e args r \<longleftrightarrow>
     values_of (queryParams r) = query_values e args \<and>
     map_of (extraHeaders r) = header_value_of e args \<and>
     distinct (map fst (queryParams r)) \<and> distinct (map fst (extraHeaders r))"

definition arguments_ok :: "endpoint \<Rightarrow> (string \<times> gvalue) list \<Rightarrow> bool" where
  "arguments_ok e args \<longleftrightarrow> (\<forall>(n, c) \<in> set (Parameters e). \<not> argument_error args n c)"

definition template_ok :: "endpoint \<Rightarrow> (string \<times> gvalue) list \<Rightarrow> segment list \<Rightarrow> bool" where
  "template_ok e args segs \<longleftrightarrow>
     PathTemplate e = fill Map.empty segs \<and> list_all segment_ok segs \<and>
     (\<forall>n \<in> fst ` set (Parameters e). plain_name n) \<and>
     (\<forall>n s. path_values e args n = Some s \<longrightarrow> no_open s)"

lemma newEndpointRequest_ok_iff:
  "(\<exists>r. newEndpointRequest e args = Inr r) \<longleftrightarrow> arguments_ok e args"
proof -
  have "(\<exists>r. newEndpointRequest e args = Inr r) \<longleftrightarrow> \<not> (\<exists>x. newEndpointRequest e args = Inl x)"
    by (cases "newEndpointRequest e args") auto
  then show ?thesis
    by (simp only: newEndpointRequest_def apply_parameters_Inl_iff) (auto simp: arguments_ok_def)
qed

lemma newEndpointRequest_spec:
  assumes "newEndpointRequest e args = Inr r" and "distinct (map fst (Parameters e))"
  shows "request_of e args r"
proof -
  note run = assms(1) [unfolded newEndpointRequest_def]
  have "values_of (queryParams r) n = query_values e args n" for n
    using apply_parameters_query [OF run assms(2), of n]
    by (simp add: query_values_def values_of_def)
  moreover have "map_of (extraHeaders r) n = header_value_of e args n" for n
    using apply_parameters_headers [OF run assms(2), of n]
    by (simp add: header_value_of_def split: option.split)
  moreover have "distinct (map fst (queryParams r))"
    using apply_parameters_distinct_query [OF run] by simp
  moreover have "distinct (map fst (extraHeaders r))"
    using apply_parameters_distinct_headers [OF run] by (simp add: initial_headers_def)
  ultimately show ?thesis by (simp add: request_of_def fun_eq_iff)
qed

lemma newEndpointRequest_path:
  assumes "newEndpointRequest e args = Inr r" and "distinct (map fst (Parameters e))"
    and "template_ok e args segs"
  shows "rpath r = fill (path_values e args) segs"
proof -
  have "rpath r = fill (Map.empty ++ (\<lambda>n. Option.bind (placed ParameterInPath (Parameters e) args n)
          jsonScalarToString)) segs"
    using assms by (intro apply_parameters_path [OF assms(1) [unfolded newEndpointRequest_def]])
      (auto simp: template_ok_def path_values_def bind_eq_Some_conv)
  then show ?thesis by (simp add: path_values_def [abs_def])
qed

text \<open>The order in which the map of parameters is visited does not matter.\<close>

lemma placed_perm:
  "distinct (map fst ps) \<Longrightarrow> distinct (map fst qs) \<Longrightarrow> set qs = set ps \<Longrightarrow>
     placed pin qs args n = placed pin ps args n"
  using map_of_perm [of ps qs] by (simp add: placed_def)

lemma visit_order_irrelevant:
  assumes "distinct (map fst (Parameters e))" and "distinct (map fst ps)"
    and "set ps = set (Parameters e)" and "newEndpointRequest e args = Inr r"
  shows "\<exists>r'. newEndpointRequest (e\<lparr>Parameters := ps\<rparr>) args = Inr r' \<and>
           values_of (queryParams r') = values_of (queryParams r) \<and>
           map_of (extraHeaders r') = map_of (extraHeaders r)"
proof -
  let ?e = "e\<lparr>Parameters := ps\<rparr>"
  have "arguments_ok e args" using assms(4) newEndpointRequest_ok_iff by blast
  then have "arguments_ok ?e args" using assms(3) by (simp add: arguments_ok_def)
  then obtain r' where r': "newEndpointRequest ?e args = Inr r'"
    using newEndpointRequest_ok_iff by blast
  note same = placed_perm [OF assms(1,2,3)]
  have "query_values ?e args = query_values e args"
    by (simp add: query_values_def same fun_eq_iff)
  moreover have "header_value_of ?e args = header_value_of e args"
    by (simp add: header_value_of_def same fun_eq_iff initial_headers_def split: option.split)
  ultimately show ?thesis
    using newEndpointRequest_spec [OF assms(4,1)] newEndpointRequest_spec [OF r'] assms(2) r'
    by (auto simp: request_of_def)
qed

text \<open>What the upstream reads from the query.\<close>

lemma filter_pairs_of_key:
  assumes "distinct (map fst q)"
  shows "filter (\<lambda>p. fst p = k) (concat (map (\<lambda>(k, xs). map (Pair k) xs) q)) =
         map (Pair k) (values_of q k)"
  using assms
proof (induction q)
  case Nil
  then show ?case by (simp add: values_of_def)
next
  case (Cons p q)
  obtain n xs where p: "p = (n, xs)" by (cases p) auto
  have other: "filter (\<lambda>p. fst p = k) (map (Pair n) xs) = (if n = k then map (Pair n) xs else [])"
    by (induction xs) auto
  have "values_of q n = []"
    using Cons.prems by (simp add: values_of_def p map_of_eq_None_iff [THEN iffD2] image_iff)
  with Cons other show ?case by (auto simp: p values_of_def)
qed

lemma values_pairs_of_key:
  assumes "distinct (map fst q)"
  shows "map snd (filter (\<lambda>p. fst p = k) (values_pairs q)) = values_of q k"
proof -
  have d: "distinct (map fst (sort_key fst q))"
    using assms by (metis distinct_map distinct_sort set_sort)
  have "map_of (sort_key fst q) = map_of q"
    using assms d by (intro map_of_perm) simp_all
  then show ?thesis
    by (simp add: values_pairs_def filter_pairs_of_key [OF d] o_def) (simp add: values_of_def)
qed

text \<open>The target: the path, and the query exactly when some value was added.\<close>

definition filled :: "url_values \<Rightarrow> bool" where
  "filled vs \<longleftrightarrow> (\<forall>p \<in> set vs. snd p \<noteq> [])"

lemma filled_update: "filled vs \<Longrightarrow> xs \<noteq> [] \<Longrightarrow> filled (AList.update k xs vs)"
  by (induction vs) (auto simp: filled_def)

lemma filled_add: "filled vs \<Longrightarrow> filled (values_add k v vs)"
  by (simp add: values_add_def filled_update)

lemma filled_add_all: "filled vs \<Longrightarrow> filled (foldl (\<lambda>q v. values_add k v q) vs xs)"
  by (induction xs arbitrary: vs) (simp_all add: filled_add)

lemma apply_parameters_filled:
  "apply_parameters args r ps = Inr r' \<Longrightarrow> filled (queryParams r) \<Longrightarrow> filled (queryParams r')"
proof (induction ps arbitrary: r)
  case Nil
  then show ?case by simp
next
  case (Cons p ps)
  then obtain r1 where r1: "apply_parameter args r (fst p) (snd p) = Inr r1"
    and rest: "apply_parameters args r1 ps = Inr r'" by (auto split: sum.splits)
  have "filled (queryParams r1)"
    using r1 Cons.prems(2)
    by (auto simp: apply_parameter_def applyEndpointArgument_def filled_add_all
        split: gvalue.splits option.splits sum.splits if_splits)
  with rest show ?case by (rule Cons.IH)
qed

lemma newEndpointRequest_fullPath:
  assumes "newEndpointRequest e args = Inr r"
  shows "fullPath r =
     rpath r @ (if values_pairs (queryParams r) = [] then [] else ''?'' @ values_encode (queryParams r))"
proof -
  have ne: "filled (queryParams r)"
    using apply_parameters_filled [OF assms [unfolded newEndpointRequest_def]] by (simp add: filled_def)
  have "values_pairs (queryParams r) = [] \<longleftrightarrow> queryParams r = []"
  proof
    assume "values_pairs (queryParams r) = []"
    then have "\<forall>p \<in> set (queryParams r). snd p = []" by (auto simp: values_pairs_def)
    with ne show "queryParams r = []" by (cases "queryParams r") (auto simp: filled_def)
  qed (simp add: values_pairs_def)
  then show ?thesis by (simp add: fullPath_def)
qed

text \<open>A loop over a map visits every entry once, in some order.\<close>

lemma visited_once:
  assumes "mset ps = mset qs" and "distinct (map fst qs)"
  shows "distinct (map fst ps)" and "map_of ps = map_of qs"
proof -
  have "mset (map fst ps) = mset (map fst qs)" using assms(1) by (simp only: mset_map)
  then show d: "distinct (map fst ps)" using assms(2) by (metis mset_eq_imp_distinct_iff)
  show "map_of ps = map_of qs" using d assms(2) mset_eq_setD [OF assms(1)] by (intro map_of_perm)
qed

end
