(* ===== verification/Host_Validation.thy ===== *)
theory Host_Validation
  imports Header_Validation Go_Net
begin

section \<open>DNS rebinding protection (\<open>host_validation.go\<close>)\<close>

text \<open>
  The allowlist built from the configuration and the check of a request's Host and Origin headers.
  \<open>url.Parse\<close> followed by \<open>Hostname\<close> is the argument \<open>url_hostname\<close> of \<open>checkHeaders\<close>
  (\<open>None\<close>: parse error); nothing is assumed of it. \<open>host_matches\<close> is the documented meaning of one
  entry; the locale \<open>host_policy\<close> is the contract between the allowlist and the header check.
\<close>

definition defaultAllowedHosts :: "string list" where
  "defaultAllowedHosts = [''localhost'', ''127.0.0.1'', ''::1'']"

record host_allowlist =
  allowAny :: bool
  exact :: "string set"
  suffixes :: "string list"

definition normalizeHostname :: "unicode_tables \<Rightarrow> string \<Rightarrow> string" where
  "normalizeHostname U v0 =
     (let v = trim_space v0;
          v' = (case split_host_port v of
                  Some (host, _) \<Rightarrow> host
                | None \<Rightarrow>
                    if has_prefix v ''['' \<and> has_suffix v '']'' then take (length v - 2) (drop 1 v) else v)
      in to_lower U v')"

definition add_allowed :: "unicode_tables \<Rightarrow> host_allowlist \<Rightarrow> string \<Rightarrow> host_allowlist" where
  "add_allowed U a h =
     (if h = ''*'' then a\<lparr>allowAny := True\<rparr>
      else if has_prefix h ''*.'' then a\<lparr>suffixes := suffixes a @ [to_lower U (drop 1 h)]\<rparr>
      else a\<lparr>exact := insert (normalizeHostname U h) (exact a)\<rparr>)"

definition newHostAllowlist :: "unicode_tables \<Rightarrow> string list \<Rightarrow> host_allowlist" where
  "newHostAllowlist U allowed =
     foldl (add_allowed U) \<lparr>allowAny = False, exact = {}, suffixes = []\<rparr>
       (if allowed = [] then defaultAllowedHosts else allowed)"

definition allows :: "host_allowlist \<Rightarrow> string \<Rightarrow> bool" where
  "allows a hostname \<longleftrightarrow>
     allowAny a \<or> hostname \<in> exact a \<or> list_ex (has_suffix hostname) (suffixes a)"

definition request_host :: "header_map \<Rightarrow> string option" where
  "request_host headers =
     (case findHeader headers '':authority'' of
        Some h \<Rightarrow> Some h
      | None \<Rightarrow> findHeader headers ''host'')"

definition checkHeaders ::
  "unicode_tables \<Rightarrow> (string \<Rightarrow> string option) \<Rightarrow> host_allowlist \<Rightarrow> header_map \<Rightarrow> bool \<times> string" where
  "checkHeaders U url_hostname a headers =
     (case request_host headers of
        None \<Rightarrow> (False, ''missing host header'')
      | Some host \<Rightarrow>
          if host = [] then (False, ''missing host header'')
          else if \<not> allows a (normalizeHostname U host) then (False, ''host not allowed: '' @ host)
          else
            (case findHeader headers ''origin'' of
               None \<Rightarrow> (True, [])
             | Some origin \<Rightarrow>
                 (case url_hostname origin of
                    None \<Rightarrow> (False, ''origin not allowed: '' @ origin)
                  | Some u \<Rightarrow>
                      if u = [] \<or> \<not> allows a (to_lower U u)
                      then (False, ''origin not allowed: '' @ origin)
                      else (True, []))))"

subsection \<open>Configuration entries (\<open>server.go\<close>)\<close>

definition validAllowedHost :: "string \<Rightarrow> bool" where
  "validAllowedHost h =
     (let trimmed = trim_space h in
      if trimmed = [] \<or> contains_any trimmed [CHR ''/'', CHR '' '', CHR 0x09] then False
      else if trimmed = ''*'' then True
      else
        (case cut_prefix trimmed ''*.'' of
           Some rest \<Rightarrow> rest \<noteq> [] \<and> \<not> contains rest ''*''
         | None \<Rightarrow> \<not> contains trimmed ''*''))"

subsection \<open>What an allowlist means\<close>

definition host_matches :: "unicode_tables \<Rightarrow> string \<Rightarrow> string \<Rightarrow> bool" where
  "host_matches U e hostname \<longleftrightarrow>
     (if e = ''*'' then True
      else if has_prefix e ''*.'' then has_suffix hostname (to_lower U (drop 1 e))
      else hostname = normalizeHostname U e)"

lemma allows_add_allowed:
  "allows (add_allowed U a e) h \<longleftrightarrow> allows a h \<or> host_matches U e h"
  by (auto simp: allows_def add_allowed_def host_matches_def)

lemma allows_foldl:
  "allows (foldl (add_allowed U) a es) h \<longleftrightarrow> allows a h \<or> (\<exists>e \<in> set es. host_matches U e h)"
  by (induction es arbitrary: a) (auto simp: allows_add_allowed)

lemma allows_iff_matches:
  "allows (newHostAllowlist U allowed) h \<longleftrightarrow>
     (\<exists>e \<in> set (if allowed = [] then defaultAllowedHosts else allowed). host_matches U e h)"
  unfolding newHostAllowlist_def allows_foldl by (simp add: allows_def)

subsection \<open>The contract of the header check\<close>

text \<open>
  A host policy is a predicate on hostnames and a check of headers that passes exactly when the
  request names an acceptable host and, if it has an Origin, an acceptable origin.
\<close>

locale host_policy =
  fixes acceptable :: "string \<Rightarrow> bool"
    and host_name :: "string \<Rightarrow> string"
    and origin_name :: "string \<Rightarrow> string option"
    and check :: "header_map \<Rightarrow> bool"
  assumes check_iff:
    "check hs \<longleftrightarrow>
       (\<exists>h. request_host hs = Some h \<and> h \<noteq> [] \<and> acceptable (host_name h)) \<and>
       (\<forall>r. findHeader hs ''origin'' = Some r \<longrightarrow> (\<exists>n. origin_name r = Some n \<and> acceptable n))"
begin

lemma fail_closed: "request_host hs = None \<Longrightarrow> \<not> check hs"
  by (simp add: check_iff)

lemma foreign_host_refused: "request_host hs = Some h \<Longrightarrow> \<not> acceptable (host_name h) \<Longrightarrow> \<not> check hs"
  by (simp add: check_iff)

lemma foreign_origin_refused:
  "findHeader hs ''origin'' = Some r \<Longrightarrow> origin_name r = Some n \<Longrightarrow> \<not> acceptable n \<Longrightarrow> \<not> check hs"
  by (auto simp: check_iff)

lemma opaque_origin_refused:
  "findHeader hs ''origin'' = Some r \<Longrightarrow> origin_name r = None \<Longrightarrow> \<not> check hs"
  by (simp add: check_iff)

lemma originless_accepted:
  "request_host hs = Some h \<Longrightarrow> h \<noteq> [] \<Longrightarrow> acceptable (host_name h) \<Longrightarrow>
     findHeader hs ''origin'' = None \<Longrightarrow> check hs"
  by (simp add: check_iff)

end

text \<open>The hostname an Origin stands for; an empty one is as bad as a parse error.\<close>

definition origin_hostname ::
  "unicode_tables \<Rightarrow> (string \<Rightarrow> string option) \<Rightarrow> string \<Rightarrow> string option" where
  "origin_hostname U url_hostname r =
     (case url_hostname r of
        Some u \<Rightarrow> if u = [] then None else Some (to_lower U u)
      | None \<Rightarrow> None)"

interpretation hp: host_policy "allows a" "normalizeHostname U" "origin_hostname U url_hostname"
    "\<lambda>hs. fst (checkHeaders U url_hostname a hs)"
  for U url_hostname a
  by unfold_locales
    (auto simp: checkHeaders_def origin_hostname_def split: option.splits)

lemma check_reason: "fst (checkHeaders U uh a hs) \<longleftrightarrow> snd (checkHeaders U uh a hs) = []"
  by (auto simp: checkHeaders_def split: option.splits)

subsection \<open>Ports, case and wildcards\<close>

definition plain_host :: "string \<Rightarrow> bool" where
  "plain_host h \<longleftrightarrow>
     h \<noteq> [] \<and> list_all (\<lambda>c. is_ascii c \<and> \<not> is_space (byte_of c) \<and> c \<notin> {CHR '':'', CHR ''['', CHR '']''}) h"

lemma plain_host_facts:
  assumes "plain_host h"
  shows "h \<noteq> []" "list_all is_ascii h" "\<forall>c \<in> set h. \<not> is_space (byte_of c)"
    "set h \<inter> {CHR '':'', CHR ''['', CHR '']''} = {}"
  using assms by (auto simp: plain_host_def list_all_iff)

lemma normalize_plain:
  assumes "plain_host h"
  shows "normalizeHostname U h = map ascii_lower h"
proof -
  note f = plain_host_facts [OF assms]
  have "split_host_port h = None" using f(4) by (intro split_host_port_no_colon) auto
  moreover have "\<not> has_prefix h ''[''" using f(4) by (auto simp: has_prefix_iff)
  ultimately show ?thesis
    using f by (simp add: normalizeHostname_def trim_space_id to_lower_ascii)
qed

lemma normalize_port:
  assumes "plain_host h" and "list_all is_digit p"
  shows "normalizeHostname U (h @ CHR '':'' # p) = normalizeHostname U h"
proof -
  note f = plain_host_facts [OF assms(1)]
  have p: "list_all is_ascii p" "\<forall>c \<in> set p. \<not> is_space (byte_of c)"
    "set p \<inter> {CHR '':'', CHR ''['', CHR '']''} = {}"
    using assms(2) by (auto simp: list_all_iff is_digit_def is_ascii_def is_space_def)
  have "split_host_port (h @ CHR '':'' # p) = Some (h, p)"
    using f(1,4) p(3) by (rule split_host_port_plain)
  moreover have "trim_space (h @ CHR '':'' # p) = h @ CHR '':'' # p"
    using f p by (intro trim_space_id) (auto simp: is_ascii_def is_space_def)
  ultimately show ?thesis
    using f by (simp add: normalizeHostname_def [of U "h @ CHR '':'' # p"] to_lower_ascii
        normalize_plain [OF assms(1)])
qed

lemma wildcard_matches:
  assumes "list_all is_ascii d"
  shows "host_matches U (''*.'' @ d) h \<longleftrightarrow> (\<exists>sub. h = sub @ ''.'' @ map ascii_lower d)"
proof -
  have "to_lower U (CHR ''.'' # d) = CHR ''.'' # map ascii_lower d"
    using assms by (simp add: to_lower_ascii is_ascii_def ascii_lower_def)
  moreover have "has_prefix (''*.'' @ d) ''*.''" by (rule has_prefix_append)
  ultimately show ?thesis
    by (simp add: host_matches_def has_suffix_iff)
qed

text \<open>\<open>validAllowedHost\<close> trims an entry before it looks for a wildcard, the allowlist does not.\<close>

lemma spaced_wildcard:
  assumes "plain_host d" and "CHR ''*'' \<notin> set d" and "CHR ''/'' \<notin> set d"
  shows "validAllowedHost (CHR '' '' # ''*.'' @ d) \<and>
     (host_matches U (CHR '' '' # ''*.'' @ d) h \<longleftrightarrow> h = ''*.'' @ map ascii_lower d)"
proof -
  have plain: "plain_host (''*.'' @ d)"
    using assms(1) by (simp add: plain_host_def is_ascii_def is_space_def)
  have "is_ascii (CHR '' '')" "is_space (byte_of (CHR '' ''))" by (simp_all add: is_ascii_def is_space_def)
  then have trim: "trim_space (CHR '' '' # ''*.'' @ d) = trim_space (''*.'' @ d)"
    by (rule trim_space_leading)
  then have norm: "normalizeHostname U (CHR '' '' # ''*.'' @ d) = normalizeHostname U (''*.'' @ d)"
    by (simp add: normalizeHostname_def)
  note f = plain_host_facts [OF plain]
  have id: "trim_space (''*.'' @ d) = ''*.'' @ d" using f by (intro trim_space_id)
  have "d \<noteq> []" using assms(1) by (simp add: plain_host_def)
  moreover have "\<not> contains d ''*''" using assms(2) by (simp add: contains_single)
  moreover have "x \<notin> set d" if "is_space (byte_of x)" for x using f(3) that by auto
  then have "CHR '' '' \<notin> set d" "CHR 0x09 \<notin> set d" by (simp_all add: is_space_def)
  then have "\<not> contains_any (''*.'' @ d) [CHR ''/'', CHR '' '', CHR 0x09]"
    using assms(3) by (auto simp: contains_any_def list_ex_iff)
  moreover have "cut_prefix (''*.'' @ d) ''*.'' = Some d" by (rule cut_prefix_append)
  ultimately have "validAllowedHost (CHR '' '' # ''*.'' @ d)"
    unfolding validAllowedHost_def trim id Let_def by simp
  moreover have "\<not> has_prefix (CHR '' '' # ''*.'' @ d) ''*.''" by (simp add: has_prefix_def)
  ultimately show ?thesis
    using normalize_plain [OF plain, of U] norm by (simp add: host_matches_def ascii_lower_def)
qed

text \<open>A plain entry, with or without a port, stands for its name in lower case.\<close>

lemma plain_matches:
  assumes "plain_host h" and "CHR ''*'' \<notin> set h" and "list_all is_digit p"
  shows "host_matches U h y \<longleftrightarrow> y = map ascii_lower h"
    and "host_matches U (h @ CHR '':'' # p) y \<longleftrightarrow> y = map ascii_lower h"
proof -
  obtain c t where h: "h = c # t" "c \<noteq> CHR ''*''"
    using assms(1,2) by (cases h) (auto simp: plain_host_def)
  have "(e = ''*'') = False" "has_prefix e ''*.'' = False" if "e \<in> {h, h @ CHR '':'' # p}" for e
    using that h by (auto simp: has_prefix_def)
  then have entry: "host_matches U e y \<longleftrightarrow> y = normalizeHostname U e" if "e \<in> {h, h @ CHR '':'' # p}" for e
    using that by (simp only: host_matches_def if_False)
  show "host_matches U h y \<longleftrightarrow> y = map ascii_lower h"
    using entry [of h] by (simp only: insertI1 normalize_plain [OF assms(1)])
  show "host_matches U (h @ CHR '':'' # p) y \<longleftrightarrow> y = map ascii_lower h"
    using entry [of "h @ CHR '':'' # p"]
    by (simp only: insertI1 insertI2 normalize_port [OF assms(1,3)] normalize_plain [OF assms(1)])
qed

end
