(* ===== verification/Mcp_Handler.thy ===== *)
theory Mcp_Handler
  imports Mcp_Era Endpoint_Request Host_Validation
begin

section \<open>Handling MCP messages (\<open>mcp_handler.go\<close>)\<close>

text \<open>
  The request handler, which answers a JSON-RPC message itself or rewrites it into a call of the
  upstream, and the response handler, which turns the upstream's answer into a tool result. Spans
  and log lines are left out; they are written and never read. \<open>runtime\<close> collects the parameters:
  the Unicode tables, the SDK, the order in which the loop over the map of extra headers visits it,
  and the URL parser that gives the hostname of an origin.
\<close>

record runtime =
  unicode :: unicode_tables
  rsdk :: sdk
  header_order :: "(string \<times> string) list \<Rightarrow> (string \<times> string) list"
  url_hostname :: "string \<Rightarrow> string option"

record ext_proc_server =
  registry :: tool_registry
  serverInfo :: server_info
  allowedHosts :: host_allowlist

record mcpProcResponse =
  Id :: jsonrpc_id
  Immediate :: "processing_response list"
  Reroute :: "streamed_mutation option"
  ToolResponseConfig :: "tool_response_config option"
  Era :: "protocol_era option"

text \<open>\<open>requestContext\<close> of \<open>stream_state.go\<close>: what the response phase knows of the request.\<close>

record requestContext =
  jsonrpcID :: jsonrpc_id
  rc_toolResponseConfig :: "tool_response_config option"
  upstreamStatusCode :: int
  rc_era :: "protocol_era option"

definition protocolEra :: "requestContext \<Rightarrow> protocol_era" where
  "protocolEra rc = (case rc_era rc of None \<Rightarrow> LegacyEra | Some e \<Rightarrow> e)"

definition isToolCall :: "requestContext \<Rightarrow> bool" where
  "isToolCall rc \<longleftrightarrow> id_is_valid (jsonrpcID rc) \<and> rc_toolResponseConfig rc \<noteq> None"

subsection \<open>The upstream status\<close>

definition isHTTPErrorStatus :: "int \<Rightarrow> bool" where
  "isHTTPErrorStatus statusCode \<longleftrightarrow> statusCode = 0 \<or> 400 \<le> statusCode"

definition parseUpstreamStatusCode :: "header_map \<Rightarrow> int option" where
  "parseUpstreamStatusCode hs =
     (case findHeader hs '':status'' of None \<Rightarrow> None | Some value \<Rightarrow> atoi value)"

definition httpStatusToErrorInfo :: "int \<Rightarrow> string option" where
  "httpStatusToErrorInfo statusCode =
     (if \<not> isHTTPErrorStatus statusCode then None
      else Some (''upstream returned error status code '' @ itoa statusCode))"

text \<open>\<open>http.StatusText\<close> of the standard library.\<close>

definition status_texts :: "(int \<times> string) list" where
  "status_texts =
     [(100, ''Continue''), (101, ''Switching Protocols''), (102, ''Processing''),
      (103, ''Early Hints''), (200, ''OK''), (201, ''Created''), (202, ''Accepted''),
      (203, ''Non-Authoritative Information''), (204, ''No Content''), (205, ''Reset Content''),
      (206, ''Partial Content''), (207, ''Multi-Status''), (208, ''Already Reported''),
      (226, ''IM Used''), (300, ''Multiple Choices''), (301, ''Moved Permanently''),
      (302, ''Found''), (303, ''See Other''), (304, ''Not Modified''), (305, ''Use Proxy''),
      (307, ''Temporary Redirect''), (308, ''Permanent Redirect''), (400, ''Bad Request''),
      (401, ''Unauthorized''), (402, ''Payment Required''), (403, ''Forbidden''),
      (404, ''Not Found''), (405, ''Method Not Allowed''), (406, ''Not Acceptable''),
      (407, ''Proxy Authentication Required''), (408, ''Request Timeout''), (409, ''Conflict''),
      (410, ''Gone''), (411, ''Length Required''), (412, ''Precondition Failed''),
      (413, ''Request Entity Too Large''), (414, ''Request URI Too Long''),
      (415, ''Unsupported Media Type''), (416, ''Requested Range Not Satisfiable''),
      (417, ''Expectation Failed''), (418, ''I'' @ [CHR 0x27] @ ''m a teapot''),
      (421, ''Misdirected Request''), (422, ''Unprocessable Entity''), (423, ''Locked''),
      (424, ''Failed Dependency''), (425, ''Too Early''), (426, ''Upgrade Required''),
      (428, ''Precondition Required''), (429, ''Too Many Requests''),
      (431, ''Request Header Fields Too Large''), (451, ''Unavailable For Legal Reasons''),
      (500, ''Internal Server Error''), (501, ''Not Implemented''), (502, ''Bad Gateway''),
      (503, ''Service Unavailable''), (504, ''Gateway Timeout''),
      (505, ''HTTP Version Not Supported''), (506, ''Variant Also Negotiates''),
      (507, ''Insufficient Storage''), (508, ''Loop Detected''), (510, ''Not Extended''),
      (511, ''Network Authentication Required'')]"

definition StatusText :: "int \<Rightarrow> string" where
  "StatusText code = (case map_of status_texts code of None \<Rightarrow> [] | Some t \<Rightarrow> t)"

definition describeEmptyUpstreamResponse :: "int \<Rightarrow> string" where
  "describeEmptyUpstreamResponse statusCode =
     (if statusCode = 0 then ''API returned an unknown status with no response body.''
      else
        ''API returned HTTP '' @ itoa statusCode @ '' ('' @
        (if StatusText statusCode = [] then ''Unknown Status'' else StatusText statusCode) @
        '') with no response body.'')"

subsection \<open>JSON-RPC responses\<close>

definition internal_error_text :: bytes where
  "internal_error_text =
     json_object
       [(''jsonrpc'', json_quote ''2.0''), (''id'', ''null''),
        (''error'',
         json_object
           [(''code'', itoa CodeInternalError), (''message'', json_quote ''Internal error'')])]"

definition encodeJSONRPCErrorWithData ::
  "runtime \<Rightarrow> jsonrpc_id \<Rightarrow> int \<Rightarrow> string \<Rightarrow> gvalue option \<Rightarrow> bytes" where
  "encodeJSONRPCErrorWithData rt i code message data =
     (case EncodeMessage (rsdk rt) i (RpcError code message (map_option marshal data)) of
        None \<Rightarrow> internal_error_text
      | Some buf \<Rightarrow> buf)"

definition encodeJSONRPCError :: "runtime \<Rightarrow> jsonrpc_id \<Rightarrow> int \<Rightarrow> string \<Rightarrow> bytes" where
  "encodeJSONRPCError rt i code message = encodeJSONRPCErrorWithData rt i code message None"

definition immediate_reply :: "jsonrpc_id \<Rightarrow> processing_response list \<Rightarrow> mcpProcResponse" where
  "immediate_reply i reps =
     \<lparr>Id = i, Immediate = reps, Reroute = None, ToolResponseConfig = None, Era = None\<rparr>"

definition errorResponse ::
  "runtime \<Rightarrow> protocol_era \<Rightarrow> jsonrpc_id \<Rightarrow> int \<Rightarrow> string \<Rightarrow> gvalue option \<Rightarrow> mcpProcResponse" where
  "errorResponse rt e i code message data =
     immediate_reply i
       (newImmediateBodyResponseWithStatus (encodeJSONRPCErrorWithData rt i code message data)
          (errorStatus e code))"

definition resultResponse ::
  "runtime \<Rightarrow> protocol_era \<Rightarrow> jsonrpc_id \<Rightarrow> rpc_result \<Rightarrow> mcpProcResponse" where
  "resultResponse rt e i result =
     (case encodeResult (rsdk rt) e result of
        None \<Rightarrow> errorResponse rt e i CodeInternalError ''Internal error'' None
      | Some resultJSON \<Rightarrow>
          (case EncodeMessage (rsdk rt) i (RpcResult resultJSON) of
             None \<Rightarrow> errorResponse rt e i CodeInternalError ''Internal error'' None
           | Some message \<Rightarrow> immediate_reply i (newImmediateBodyResponse message)))"

definition call_result :: "string \<Rightarrow> bytes \<Rightarrow> bool \<Rightarrow> callToolResult" where
  "call_result text structured isErr =
     \<lparr>ct_meta = no_meta, ct_Content = newTextContent text, ct_StructuredContent = structured,
      ct_IsError = isErr\<rparr>"

definition toolExecutionErrorResponse ::
  "runtime \<Rightarrow> protocol_era \<Rightarrow> jsonrpc_id \<Rightarrow> string \<Rightarrow> mcpProcResponse" where
  "toolExecutionErrorResponse rt e i clientMessage =
     resultResponse rt e i (CallToolResult (Some (call_result clientMessage [] True)))"

subsection \<open>The methods\<close>

definition serverCapabilities :: server_capabilities where
  "serverCapabilities = \<lparr>cap_Tools = True\<rparr>"

definition handleDiscover ::
  "runtime \<Rightarrow> ext_proc_server \<Rightarrow> protocol_era \<Rightarrow> rpc_request \<Rightarrow> mcpProcResponse" where
  "handleDiscover rt s e req =
     resultResponse rt e (rq_id req)
       (DiscoverResult
          (Some \<lparr>dr_meta = no_meta, dr_Cacheable = None,
                 dr_SupportedVersions = supportedProtocolVersions,
                 dr_Capabilities = serverCapabilities,
                 dr_Instructions = si_Instructions (serverInfo s)\<rparr>))"

definition initialize_answer :: "ext_proc_server \<Rightarrow> string \<Rightarrow> initialize_result" where
  "initialize_answer s clientVersion =
     \<lparr>in_ProtocolVersion = negotiateLegacyVersion clientVersion,
      in_ServerInfo = (si_Name (serverInfo s), si_Version (serverInfo s)),
      in_Capabilities = serverCapabilities,
      in_Instructions = si_Instructions (serverInfo s)\<rparr>"

definition handleInitialize ::
  "runtime \<Rightarrow> ext_proc_server \<Rightarrow> protocol_era \<Rightarrow> rpc_request \<Rightarrow> mcpProcResponse" where
  "handleInitialize rt s e req =
     (case unmarshalInitialize (rsdk rt) (rq_params req) of
        Inl err \<Rightarrow>
          errorResponse rt e (rq_id req) CodeInvalidParams (''Invalid params: '' @ err) None
      | Inr clientVersion \<Rightarrow>
          resultResponse rt e (rq_id req)
            (InitializeResult (Some (initialize_answer s clientVersion))))"

text \<open>\<open>json.Unmarshal\<close> into \<open>callToolRequestParams\<close>.\<close>

record callToolRequestParams =
  cp_Name :: string
  cp_Arguments :: "(string \<times> gvalue) list"

definition call_fields :: "string list" where
  "call_fields = [''name'', ''arguments'']"

definition decode_call_params :: "bytes \<Rightarrow> callToolRequestParams option" where
  "decode_call_params params =
     Option.bind (Option.bind (parse_json params) struct_members)
       (\<lambda>kvs.
          Option.bind (decode_string [] (field_members call_fields ''name'' kvs))
            (\<lambda>n. map_option (\<lambda>args. \<lparr>cp_Name = n, cp_Arguments = args\<rparr>)
               (decode_map value_of_json [] (field_members call_fields ''arguments'' kvs))))"

definition invalid_argument :: "unicode_tables \<Rightarrow> param_error \<Rightarrow> string" where
  "invalid_argument U err =
     ''Invalid argument '' @ quote U (paramName err) @ '': '' @ reason err"

definition forward_call ::
  "runtime \<Rightarrow> protocol_era \<Rightarrow> jsonrpc_id \<Rightarrow> tool_config \<Rightarrow> endpoint_request \<Rightarrow> bytes \<Rightarrow>
   string list \<Rightarrow> mcpProcResponse" where
  "forward_call rt e i c r requestBody stripHeaders =
     \<lparr>Id = i, Immediate = [],
      Reroute =
        Some (rerouteWithBodyMutation (Host (Endpoint c))
                (to_upper (unicode rt) (Method (Endpoint c))) (fullPath r) requestBody
                (header_order rt (extraHeaders r)) stripHeaders),
      ToolResponseConfig = Some (toolResponseConfig c),
      Era = Some e\<rparr>"

definition handleToolCall ::
  "runtime \<Rightarrow> ext_proc_server \<Rightarrow> protocol_era \<Rightarrow> rpc_request \<Rightarrow> string list \<Rightarrow> mcpProcResponse" where
  "handleToolCall rt s e req stripHeaders =
     (case decode_call_params (rq_params req) of
        None \<Rightarrow>
          errorResponse rt e (rq_id req) CodeInvalidParams
            (''Invalid params: '' @ unmarshalError (rsdk rt) (rq_params req)) None
      | Some callParams \<Rightarrow>
          (case GetConfig (registry s) (cp_Name callParams) of
             None \<Rightarrow>
               errorResponse rt e (rq_id req) CodeInvalidParams
                 (''Unknown tool: '' @ cp_Name callParams) None
           | Some c \<Rightarrow>
               (case newEndpointRequest (Endpoint c) (cp_Arguments callParams) of
                  Inl err \<Rightarrow>
                    toolExecutionErrorResponse rt e (rq_id req) (invalid_argument (unicode rt) err)
                | Inr r \<Rightarrow>
                    forward_call rt e (rq_id req) c r
                      (marshalRequestBody (unicode rt) (Endpoint c) (cp_Arguments callParams))
                      stripHeaders)))"

subsection \<open>The request handler\<close>

definition unsupported_data :: "string \<Rightarrow> gvalue" where
  "unsupported_data requested =
     VMap [(''supported'', VList (map VString supportedProtocolVersions)),
           (''requested'', VString requested)]"

definition dispatch ::
  "runtime \<Rightarrow> ext_proc_server \<Rightarrow> protocol_era \<Rightarrow> rpc_request \<Rightarrow> string list \<Rightarrow> mcpProcResponse" where
  "dispatch rt s e req strip =
     (if rq_method req = methodInitialize then handleInitialize rt s e req
      else if rq_method req = methodNotificationsInitialized
      then immediate_reply (rq_id req) (httpStatusResponse StatusAccepted)
      else if rq_method req = methodDiscover then handleDiscover rt s e req
      else if rq_method req = methodToolsList
      then resultResponse rt e (rq_id req)
             (ListToolsResult
                (Some \<lparr>lt_meta = no_meta, lt_Cacheable = None, lt_Tools = Tools (registry s)\<rparr>))
      else if rq_method req = methodToolsCall then handleToolCall rt s e req strip
      else errorResponse rt e (rq_id req) CodeMethodNotFound ''Method not found'' None)"

definition handle_request ::
  "runtime \<Rightarrow> ext_proc_server \<Rightarrow> rpc_request \<Rightarrow> mcp_request_headers \<Rightarrow> mcpProcResponse" where
  "handle_request rt s req hdrs =
     (let declared = metaProtocolVersion (rq_params req) in
      case resolveEra (serverInfo s) (rq_method req) declared (protocolVersion hdrs) of
        (e, requestedVersion, ok) \<Rightarrow>
          if \<not> ok
          then errorResponse rt e (rq_id req) CodeUnsupportedProtocolVersion
                 (''Unsupported protocol version: '' @ requestedVersion)
                 (Some (unsupported_data requestedVersion))
          else if \<not> serves e (rq_method req)
          then errorResponse rt e (rq_id req) CodeMethodNotFound ''Method not found'' None
          else
            (case validateHeaders (unicode rt) e req declared hdrs of
               Some err \<Rightarrow> errorResponse rt e (rq_id req) CodeHeaderMismatch err None
             | None \<Rightarrow> dispatch rt s e req (paramHeaderNames hdrs)))"

definition mcpRequestHandler ::
  "runtime \<Rightarrow> ext_proc_server \<Rightarrow> bytes \<Rightarrow> mcp_request_headers \<Rightarrow> mcpProcResponse" where
  "mcpRequestHandler rt s body hdrs =
     (case DecodeMessage (rsdk rt) body of
        None \<Rightarrow> errorResponse rt LegacyEra None CodeParseError ''Parse error'' None
      | Some ResponseMessage \<Rightarrow>
          errorResponse rt LegacyEra None CodeInvalidRequest ''Invalid Request'' None
      | Some (RequestMessage req) \<Rightarrow> handle_request rt s req hdrs)"

subsection \<open>The response handler\<close>

definition buildMCPResponse ::
  "runtime \<Rightarrow> requestContext \<Rightarrow> bytes \<Rightarrow> string option \<Rightarrow> bytes option" where
  "buildMCPResponse rt reqCtx body errorInfo =
     (if \<not> id_is_valid (jsonrpcID reqCtx) then None
      else
        (case rc_toolResponseConfig reqCtx of
           None \<Rightarrow> None
         | Some config \<Rightarrow>
             let isErr = (errorInfo \<noteq> None);
                 structuredContent =
                   (if UseStructuredOutput config \<and> json_valid body \<and> \<not> isErr then body else [])
             in Option.bind
                  (encodeResult (rsdk rt) (protocolEra reqCtx)
                     (CallToolResult (Some (call_result body structuredContent isErr))))
                  (\<lambda>resultJson. EncodeMessage (rsdk rt) (jsonrpcID reqCtx) (RpcResult resultJson))))"

definition buildMCPResponsePayload ::
  "runtime \<Rightarrow> requestContext \<Rightarrow> bytes \<Rightarrow> bytes \<times> header_value_option list" where
  "buildMCPResponsePayload rt reqCtx body =
     (let buf =
            (case buildMCPResponse rt reqCtx body (httpStatusToErrorInfo (upstreamStatusCode reqCtx)) of
               None \<Rightarrow> encodeJSONRPCError rt (jsonrpcID reqCtx) CodeInternalError ''Internal error''
             | Some buf \<Rightarrow> buf);
          hdrs = appendHeader [] ''content-type'' ''application/json''
      in (buf, appendHeader hdrs ''content-length'' (itoa (int (length buf)))))"

definition buildEndOfStreamResponse :: "runtime \<Rightarrow> requestContext \<Rightarrow> processing_response list" where
  "buildEndOfStreamResponse rt reqCtx =
     (let content = describeEmptyUpstreamResponse (upstreamStatusCode reqCtx);
          (buf, hdrs) = buildMCPResponsePayload rt reqCtx content
      in newReplacedResponse hdrs buf)"

definition mcpResponseHandler :: "runtime \<Rightarrow> bytes \<Rightarrow> requestContext \<Rightarrow> streamed_mutation" where
  "mcpResponseHandler rt body reqCtx =
     (let (buf, hdrs) = buildMCPResponsePayload rt reqCtx body
      in \<lparr>sm_headers = headerMutation responseFactory hdrs contentHeaders, sm_body = buf\<rparr>)"

subsection \<open>Answered or forwarded\<close>

text \<open>
  A reply answers the client itself, with messages ready to send, or forwards the call, with the
  rewrite and what the response phase needs. \<open>reply_status\<close> is the HTTP status of an answer.
\<close>

definition answered :: "mcpProcResponse \<Rightarrow> bool" where
  "answered p \<longleftrightarrow>
     (\<exists>ir. Immediate p = immediateResponse ir) \<and> Reroute p = None \<and>
     ToolResponseConfig p = None \<and> Era p = None"

definition forwarded :: "mcpProcResponse \<Rightarrow> bool" where
  "forwarded p \<longleftrightarrow>
     Immediate p = [] \<and> Reroute p \<noteq> None \<and> ToolResponseConfig p \<noteq> None \<and> Era p \<noteq> None"

fun immediate_of :: "processing_response list \<Rightarrow> immediate_response option" where
  "immediate_of [] = None"
| "immediate_of (ImmediateResponse r # ms) = Some r"
| "immediate_of (m # ms) = immediate_of ms"

definition reply_status :: "mcpProcResponse \<Rightarrow> int option" where
  "reply_status p = map_option ir_status (immediate_of (Immediate p))"

lemma answered_not_forwarded: "answered p \<Longrightarrow> \<not> forwarded p"
  by (auto simp: answered_def forwarded_def)

lemma immediate_reply_answered [simp]:
  "answered (immediate_reply i (immediateResponse ir))"
  "answered (immediate_reply i (httpStatusResponse st))"
  "answered (immediate_reply i (newImmediateBodyResponse b))"
  "answered (immediate_reply i (newImmediateBodyResponseWithStatus b st))"
  by (auto simp: immediate_reply_def answered_def httpStatusResponse_def
      newImmediateBodyResponse_def newImmediateBodyResponseWithStatus_def)

lemma immediate_reply_Reroute [simp]: "Reroute (immediate_reply i reps) = None"
  by (simp add: immediate_reply_def)

lemma forward_call_forwarded [simp]: "forwarded (forward_call rt e i c r b strip)"
  by (simp add: forward_call_def forwarded_def)

lemma errorResponse_answered [simp]: "answered (errorResponse rt e i code msg data)"
  by (simp add: errorResponse_def)

lemma resultResponse_answered [simp]: "answered (resultResponse rt e i result)"
  by (simp add: resultResponse_def split: option.split)

lemma toolExecutionErrorResponse_answered [simp]:
  "answered (toolExecutionErrorResponse rt e i msg)"
  by (simp add: toolExecutionErrorResponse_def)

lemmas answered_methods = handleInitialize_def handleDiscover_def

lemma handleInitialize_answered [simp]: "answered (handleInitialize rt s e req)"
  by (simp add: handleInitialize_def split: sum.split)

lemma handleDiscover_answered [simp]: "answered (handleDiscover rt s e req)"
  by (simp add: handleDiscover_def)

lemma answered_Reroute: "answered p \<Longrightarrow> Reroute p = None"
  by (simp add: answered_def)

lemma Reroute_None [simp]:
  "Reroute (errorResponse rt e i code msg data) = None"
  "Reroute (resultResponse rt e i result) = None"
  "Reroute (toolExecutionErrorResponse rt e i m) = None"
  "Reroute (handleInitialize rt s e req) = None"
  "Reroute (handleDiscover rt s e req) = None"
  by (simp_all add: answered_Reroute)

lemma reply_status_error [simp]:
  "reply_status (errorResponse rt e i code msg data) = Some (errorStatus e code)"
  by (simp add: reply_status_def errorResponse_def immediate_reply_def msg_simps)

lemma reply_status_result [simp]: "reply_status (resultResponse rt e i result) = Some StatusOK"
  by (simp add: reply_status_def resultResponse_def immediate_reply_def msg_simps
      errorResponse_def era.application_errors split: option.split)

lemma reply_status_tool_error [simp]:
  "reply_status (toolExecutionErrorResponse rt e i m) = Some StatusOK"
  by (simp add: toolExecutionErrorResponse_def)

lemma Id_replies [simp]:
  "Id (immediate_reply i reps) = i"
  "Id (errorResponse rt e i code msg data) = i"
  "Id (resultResponse rt e i result) = i"
  "Id (toolExecutionErrorResponse rt e i m) = i"
  "Id (forward_call rt e i c r b strip) = i"
  by (simp_all add: immediate_reply_def errorResponse_def resultResponse_def
      toolExecutionErrorResponse_def forward_call_def split: option.split)

subsection \<open>The call a request asks for\<close>

text \<open>
  \<open>call_of\<close> is what a tool call resolves to: the configuration of the tool it names, the upstream
  request built from its arguments and the upstream body.
\<close>

definition call_of ::
  "runtime \<Rightarrow> ext_proc_server \<Rightarrow> bytes \<Rightarrow> (tool_config \<times> endpoint_request \<times> bytes) option" where
  "call_of rt s params =
     (case decode_call_params params of
        None \<Rightarrow> None
      | Some cp \<Rightarrow>
          (case GetConfig (registry s) (cp_Name cp) of
             None \<Rightarrow> None
           | Some c \<Rightarrow>
               (case newEndpointRequest (Endpoint c) (cp_Arguments cp) of
                  Inl _ \<Rightarrow> None
                | Inr r \<Rightarrow>
                    Some (c, r, marshalRequestBody (unicode rt) (Endpoint c) (cp_Arguments cp)))))"

lemma handleToolCall_call_of:
  "handleToolCall rt s e req strip =
     (case call_of rt s (rq_params req) of
        Some (c, r, b) \<Rightarrow> forward_call rt e (rq_id req) c r b strip
      | None \<Rightarrow> handleToolCall rt s e req strip)"
  by (simp add: call_of_def handleToolCall_def split: option.split sum.split)

lemma handleToolCall_refused:
  "call_of rt s (rq_params req) = None \<Longrightarrow> answered (handleToolCall rt s e req strip)"
  by (auto simp: call_of_def handleToolCall_def split: option.splits sum.splits)

lemma handleToolCall_Reroute:
  "Reroute (handleToolCall rt s e req strip) = Some m \<longleftrightarrow>
     (\<exists>c r b. call_of rt s (rq_params req) = Some (c, r, b) \<and>
        m = the (Reroute (forward_call rt e (rq_id req) c r b strip)))"
proof (cases "call_of rt s (rq_params req)")
  case None
  then show ?thesis using handleToolCall_refused [OF None, of e strip] answered_Reroute by simp
next
  case (Some x)
  then show ?thesis
    by (subst handleToolCall_call_of) (auto simp: forward_call_def split: prod.split)
qed

lemma dispatch_Reroute:
  "Reroute (dispatch rt s e req strip) =
     (if rq_method req = methodToolsCall then Reroute (handleToolCall rt s e req strip) else None)"
  by (simp add: dispatch_def method_defs)

text \<open>What has to hold for a request to reach the dispatch, in the era it belongs to.\<close>

definition admitted ::
  "runtime \<Rightarrow> ext_proc_server \<Rightarrow> rpc_request \<Rightarrow> mcp_request_headers \<Rightarrow> protocol_era \<Rightarrow> bool" where
  "admitted rt s req hdrs e \<longleftrightarrow>
     (let d = metaProtocolVersion (rq_params req) in
      (\<exists>v. resolveEra (serverInfo s) (rq_method req) d (protocolVersion hdrs) = (e, v, True)) \<and>
      serves e (rq_method req) \<and> validateHeaders (unicode rt) e req d hdrs = None)"

lemma handle_request_admitted:
  "admitted rt s req hdrs e \<Longrightarrow>
     handle_request rt s req hdrs = dispatch rt s e req (paramHeaderNames hdrs)"
  by (auto simp: admitted_def handle_request_def Let_def)

lemma handle_request_not_admitted:
  "(\<nexists>e. admitted rt s req hdrs e) \<Longrightarrow> Reroute (handle_request rt s req hdrs) = None"
  by (auto simp: admitted_def handle_request_def Let_def split: prod.split option.split)

lemma admitted_unique: "admitted rt s req hdrs e \<Longrightarrow> admitted rt s req hdrs e' \<Longrightarrow> e' = e"
  by (auto simp: admitted_def Let_def)

lemma handle_request_Reroute:
  "Reroute (handle_request rt s req hdrs) = Some m \<longleftrightarrow>
     rq_method req = methodToolsCall \<and>
     (\<exists>e c r b. admitted rt s req hdrs e \<and> call_of rt s (rq_params req) = Some (c, r, b) \<and>
        m = the (Reroute (forward_call rt e (rq_id req) c r b (paramHeaderNames hdrs))))"
proof (cases "\<exists>e. admitted rt s req hdrs e")
  case True
  then obtain e where e: "admitted rt s req hdrs e" by blast
  with admitted_unique have only: "admitted rt s req hdrs e' \<longleftrightarrow> e' = e" for e' by blast
  show ?thesis
    by (auto simp: handle_request_admitted [OF e] dispatch_Reroute only handleToolCall_Reroute)
next
  case False
  then show ?thesis using handle_request_not_admitted by auto
qed

lemma mcpRequestHandler_Reroute:
  "Reroute (mcpRequestHandler rt s body hdrs) = Some m \<longleftrightarrow>
     (\<exists>req e c r b. DecodeMessage (rsdk rt) body = Some (RequestMessage req) \<and>
        rq_method req = methodToolsCall \<and> admitted rt s req hdrs e \<and>
        call_of rt s (rq_params req) = Some (c, r, b) \<and>
        m = the (Reroute (forward_call rt e (rq_id req) c r b (paramHeaderNames hdrs))))"
  by (auto simp: mcpRequestHandler_def handle_request_Reroute split: option.split rpc_message.split)

lemma mcpRequestHandler_forward:
  assumes "DecodeMessage (rsdk rt) body = Some (RequestMessage req)" and "rq_method req = methodToolsCall"
    and "admitted rt s req hdrs e" and "call_of rt s (rq_params req) = Some (c, r, b)"
  shows "mcpRequestHandler rt s body hdrs = forward_call rt e (rq_id req) c r b (paramHeaderNames hdrs)"
proof -
  have "mcpRequestHandler rt s body hdrs = handleToolCall rt s e req (paramHeaderNames hdrs)"
    using assms(1,2)
    by (simp add: mcpRequestHandler_def handle_request_admitted [OF assms(3)] dispatch_def method_defs)
  then show ?thesis by (subst (asm) handleToolCall_call_of) (simp add: assms(4))
qed

text \<open>Every message gets an answer or is forwarded, never both and never neither.\<close>

lemma handleToolCall_either:
  "answered (handleToolCall rt s e req strip) \<or> forwarded (handleToolCall rt s e req strip)"
proof (cases "call_of rt s (rq_params req)")
  case None
  then show ?thesis using handleToolCall_refused by blast
next
  case (Some x)
  then show ?thesis by (subst (2) handleToolCall_call_of) (simp split: prod.split)
qed

lemma dispatch_either: "answered (dispatch rt s e req strip) \<or> forwarded (dispatch rt s e req strip)"
  using handleToolCall_either by (simp add: dispatch_def)

lemma mcpRequestHandler_either:
  "answered (mcpRequestHandler rt s body hdrs) \<or> forwarded (mcpRequestHandler rt s body hdrs)"
  using dispatch_either
  by (auto simp: mcpRequestHandler_def handle_request_def Let_def
      split: option.split rpc_message.split prod.split)

lemma forwarded_iff_Reroute:
  "forwarded (mcpRequestHandler rt s body hdrs) \<longleftrightarrow> Reroute (mcpRequestHandler rt s body hdrs) \<noteq> None"
  using mcpRequestHandler_either [of rt s body hdrs] by (auto simp: answered_def forwarded_def)

subsection \<open>The header and the body name the same tool\<close>

lemma find_field_name:
  "find_field call_fields k = Some ''name'' \<longleftrightarrow> find_field [''name''] k = Some ''name''"
proof -
  have "fold_name ''name'' \<noteq> fold_name ''arguments''"
    by (simp add: fold_name_def runes_all_ascii_iff is_ascii_def) code_simp
  then show ?thesis by (auto simp: find_field_def call_fields_def)
qed

lemma field_members_name:
  "field_members call_fields ''name'' kvs = field_members [''name''] ''name'' kvs"
  by (simp add: field_members_def find_field_name)

lemma same_name:
  "decode_call_params params = Some cp \<Longrightarrow> decode_name_params params = Some (cp_Name cp)"
  by (auto simp: decode_call_params_def decode_name_params_def field_members_name
      bind_eq_Some_conv)

lemma call_of_tool:
  assumes "call_of rt s params = Some (c, r, b)"
  obtains n args where "decode_name_params params = Some n" "GetConfig (registry s) n = Some c"
    "newEndpointRequest (Endpoint c) args = Inr r" "b = marshalRequestBody (unicode rt) (Endpoint c) args"
    "decode_call_params params = Some \<lparr>cp_Name = n, cp_Arguments = args\<rparr>"
proof -
  from assms obtain cp where cp: "decode_call_params params = Some cp"
    "GetConfig (registry s) (cp_Name cp) = Some c"
    "newEndpointRequest (Endpoint c) (cp_Arguments cp) = Inr r"
    "b = marshalRequestBody (unicode rt) (Endpoint c) (cp_Arguments cp)"
    by (auto simp: call_of_def split: option.splits sum.splits)
  show ?thesis by (rule that [OF same_name [OF cp(1)] cp(2,3,4)]) (simp add: cp(1))
qed

subsection \<open>The rewritten headers\<close>

lemma foldl_appendHeader:
  "foldl (\<lambda>hs (k, v). appendHeader hs k v) acc kvs =
     acc @ map (\<lambda>(k, v). \<lparr>hvo_header = \<lparr>hkey = k, raw_value = v\<rparr>,
                           hvo_action = OVERWRITE_IF_EXISTS_OR_ADD\<rparr>) kvs"
  by (induction kvs arbitrary: acc) (auto simp: appendHeader_def)

fun mutation_of :: "processing_response \<Rightarrow> header_mutation option" where
  "mutation_of (RequestHeadersResponse r) = cr_headers r"
| "mutation_of (ResponseHeadersResponse r) = cr_headers r"
| "mutation_of m = None"

definition header_pairs :: "header_value_option list \<Rightarrow> (string \<times> bytes) list" where
  "header_pairs hs = map (\<lambda>o'. (hkey (hvo_header o'), raw_value (hvo_header o'))) hs"

lemma header_pairs_reroute:
  "header_pairs (reroute_headers host meth path kvs) =
     kvs @ [('':method'', meth), ('':path'', path), ('':authority'', host)]"
  unfolding reroute_headers_def foldl_appendHeader
  by (simp add: header_pairs_def appendHeader_def o_def case_prod_beta)

lemma forward_call_mutation:
  "\<exists>m hm. Reroute (forward_call rt e i c r b strip) = Some m \<and> mutation_of (sm_headers m) = Some hm \<and>
     header_pairs (set_headers hm) =
       header_order rt (extraHeaders r) @
       [('':method'', to_upper (unicode rt) (Method (Endpoint c))), ('':path'', fullPath r),
        ('':authority'', Host (Endpoint c))] \<and>
     set (remove_headers hm) = set removeOnRoutingHeaders \<union> set strip \<and> sm_body m = b"
  by (auto simp: forward_call_def rerouteWithBodyMutation_def headerMutation_def msg_simps
      header_pairs_reroute empty_common_response_def)

text \<open>The keys, lowered, of the headers the modern revision adds to a request.\<close>

definition is_mcp_header :: "string \<Rightarrow> bool" where
  "is_mcp_header k \<longleftrightarrow>
     k \<in> {headerMCPProtocolVersion, headerMCPMethod, headerMCPName} \<or> has_prefix k headerMCPParamPrefix"

lemma mcp_headers_stripped:
  assumes "h \<in> set hs" and "is_mcp_header (to_lower U (hkey h))"
  shows "to_lower U (hkey h) \<in>
     set removeOnRoutingHeaders \<union> set (paramHeaderNames (captureMCPRequestHeaders U hs))"
  using assms by (auto simp: is_mcp_header_def capture_first param_keys_def removeOnRoutingHeaders_def)

subsection \<open>The status of an answer\<close>

lemma reply_status_forward [simp]: "reply_status (forward_call rt e i c r b strip) = None"
  by (simp add: reply_status_def forward_call_def)

lemma reply_status_accepted [simp]:
  "reply_status (immediate_reply i (httpStatusResponse st)) = Some st"
  by (simp add: reply_status_def immediate_reply_def msg_simps)

text \<open>In the legacy era every answer is a 200, but for the one to the initialized notification.\<close>

lemma forward_call_Reroute [simp]: "Reroute (forward_call rt e i c r b strip) \<noteq> None"
  by (simp add: forward_call_def)

lemma legacy_tool_call_status:
  "reply_status (handleToolCall rt s LegacyEra req strip) =
     (if Reroute (handleToolCall rt s LegacyEra req strip) = None then Some StatusOK else None)"
  by (simp add: handleToolCall_def legacy_errorStatus_def split: option.split sum.split)

lemma legacy_status:
  assumes "fst (resolveEra (serverInfo s) (rq_method req) (metaProtocolVersion (rq_params req))
             (protocolVersion hdrs)) = LegacyEra"
  shows "reply_status (handle_request rt s req hdrs) =
     (if rq_method req = methodNotificationsInitialized then Some StatusAccepted
      else if Reroute (handle_request rt s req hdrs) = None then Some StatusOK
      else None)"
proof -
  have era: "resolveEra (serverInfo s) (rq_method req) (metaProtocolVersion (rq_params req))
          (protocolVersion hdrs) = (LegacyEra, [], True)"
    using assms
    by (cases "serverInfo s" "rq_method req" "metaProtocolVersion (rq_params req)"
        "protocolVersion hdrs" rule: resolveEra_cases) auto
  show ?thesis
    by (auto simp: handle_request_def era legacy_validateHeaders_def legacy_errorStatus_def dispatch_def
        handleInitialize_def legacy_serves_def method_defs legacy_tool_call_status split: sum.split)
qed

subsection \<open>Tool results\<close>

text \<open>
  \<open>tool_outcome\<close> is the result a tool call is promised: the upstream body as text, an error flag
  that depends on the status alone, and the body again as structured content when the tool
  declares an output schema, the status is not an error and the body is JSON.
\<close>

definition tool_outcome :: "tool_response_config \<Rightarrow> int \<Rightarrow> bytes \<Rightarrow> callToolResult" where
  "tool_outcome config st body =
     call_result body
       (if UseStructuredOutput config \<and> \<not> isHTTPErrorStatus st \<and> json_valid body then body else [])
       (isHTTPErrorStatus st)"

lemma buildMCPResponse_outcome:
  assumes "id_is_valid (jsonrpcID rc)" and "rc_toolResponseConfig rc = Some config"
  shows "buildMCPResponse rt rc body (httpStatusToErrorInfo (upstreamStatusCode rc)) =
     Option.bind
       (encodeResult (rsdk rt) (protocolEra rc)
          (CallToolResult (Some (tool_outcome config (upstreamStatusCode rc) body))))
       (\<lambda>resultJson. EncodeMessage (rsdk rt) (jsonrpcID rc) (RpcResult resultJson))"
proof -
  have "(if UseStructuredOutput config \<and> json_valid body \<and> \<not> isHTTPErrorStatus st then body else []) =
        (if UseStructuredOutput config \<and> \<not> isHTTPErrorStatus st \<and> json_valid body then body else [])" for st
    by auto
  then show ?thesis
    using assms by (simp add: buildMCPResponse_def httpStatusToErrorInfo_def tool_outcome_def)
qed

lemma tool_outcome_members:
  "call_members (tool_outcome config st body) =
     Some
       ([(''content'', json_array
            [json_object [(''type'', json_quote ''text''), (''text'', json_quote body)]])] @
        (if UseStructuredOutput config \<and> \<not> isHTTPErrorStatus st \<and> json_valid body
         then [(''structuredContent'', compact False body)] else []) @
        (if isHTTPErrorStatus st then [(''isError'', ''true'')] else []))"
proof -
  have "json_valid body \<Longrightarrow> body \<noteq> []"
    by (auto simp: json_valid_def parse_json_def parse_value.simps skip_ws_def)
  then show ?thesis
    by (auto simp: call_members_def tool_outcome_def call_result_def newTextContent_def
        marshal_textContent_def)
qed

lemma json_starts: "parse_json (CHR ''A'' # cs) = None"
  by (simp add: parse_json_def parse_value.simps skip_ws_def is_ws_def has_prefix_def
      lex_number_def lex_int_def lex_digits_def is_digit_def)

lemma describe_not_json: "\<not> json_valid (describeEmptyUpstreamResponse st)"
  by (simp add: describeEmptyUpstreamResponse_def json_valid_def json_starts)

lemma payload_headers:
  "header_pairs (snd (buildMCPResponsePayload rt rc body)) =
     [(''content-type'', ''application/json''),
      (''content-length'', itoa (int (length (fst (buildMCPResponsePayload rt rc body)))))]"
  by (simp add: buildMCPResponsePayload_def Let_def header_pairs_def appendHeader_def)

lemma response_mutation:
  "\<exists>cr hm. sm_headers (mcpResponseHandler rt body rc) = ResponseHeadersResponse cr \<and> cr_headers cr = Some hm \<and>
     cr_status cr = CONTINUE \<and>
     header_pairs (set_headers hm) =
       [(''content-type'', ''application/json''),
        (''content-length'', itoa (int (length (sm_body (mcpResponseHandler rt body rc)))))] \<and>
     remove_headers hm = [''content-length'', ''content-type'']"
  using payload_headers [of rt rc body]
  by (simp add: mcpResponseHandler_def case_prod_beta headerMutation_def msg_simps empty_common_response_def
      contentHeaders_def)

text \<open>Without an identifier or a configuration the payload is the internal error.\<close>

lemma payload_not_tool_call:
  "\<not> isToolCall rc \<Longrightarrow>
     fst (buildMCPResponsePayload rt rc body) =
       encodeJSONRPCError rt (jsonrpcID rc) CodeInternalError ''Internal error''"
  by (auto simp: buildMCPResponsePayload_def Let_def buildMCPResponse_def isToolCall_def)

end
