(* ===== verification/Stream_State.thy ===== *)
theory Stream_State
  imports Mcp_Handler
begin

section \<open>The ext_proc state machine (\<open>stream_state.go\<close>)\<close>

text \<open>
  One state per phase of an exchange; \<open>handle\<close> is the method of that name of each state, with the
  body buffer of the stream passed along. The time stamp of a phase only dates a span and is left
  out. The locale \<open>machine\<close> runs any such handler over a list of messages; its instance for \<open>handle\<close>
  gives the reachable states, their invariant and what a whole exchange produces.
\<close>

record stream =
  server :: ext_proc_server
  buf :: bytes

datatype stream_state =
  AwaitingRequestHeaders
| DrainingRequest "processing_response list"
| BufferingRequest mcp_request_headers
| AwaitingResponseHeaders requestContext
| BufferingResponse requestContext

text \<open>
  \<open>protocolViolation\<close>: the status \<open>FailedPrecondition\<close> with what was expected and the message that
  came instead.
\<close>

datatype stream_error = ProtocolViolation string processing_request

type_synonym handled = "stream_error + ((stream \<times> stream_state) \<times> processing_response list)"

definition protocolViolation :: "processing_request \<Rightarrow> string \<Rightarrow> handled" where
  "protocolViolation req expected = Inl (ProtocolViolation expected req)"

definition beginBuffering :: "stream \<Rightarrow> stream" where
  "beginBuffering strm = strm\<lparr>buf := []\<rparr>"

subsection \<open>The states\<close>

text \<open>\<open>stateAwaitingRequestHeaders\<close>: method, then host and origin, then the missing body.\<close>

definition start_request ::
  "runtime \<Rightarrow> stream \<Rightarrow> header_map \<Rightarrow> bool \<Rightarrow> (stream \<times> stream_state) \<times> processing_response list"
  where
  "start_request rt strm hs eos =
     (if findHeader hs '':method'' \<noteq> None \<and> findHeader hs '':method'' \<noteq> Some ''POST''
      then ((strm, AwaitingRequestHeaders), methodNotAllowedResponse)
      else if \<not> fst (checkHeaders (unicode rt) (url_hostname rt) (allowedHosts (server strm)) hs)
      then (if eos then ((strm, AwaitingRequestHeaders), forbiddenResponse)
            else ((strm, DrainingRequest forbiddenResponse), []))
      else if eos
      then ((strm, AwaitingRequestHeaders),
            newImmediateBodyResponse (encodeJSONRPCError rt None CodeInvalidRequest ''Invalid Request''))
      else ((beginBuffering strm, BufferingRequest (captureMCPRequestHeaders (unicode rt) hs)), []))"

definition handle_awaiting_request :: "runtime \<Rightarrow> stream \<Rightarrow> processing_request \<Rightarrow> handled" where
  "handle_awaiting_request rt strm req =
     (case req of
        RequestHeaders hs eos \<Rightarrow> Inr (start_request rt strm hs eos)
      | _ \<Rightarrow> protocolViolation req ''RequestHeaders'')"

definition handle_draining ::
  "processing_response list \<Rightarrow> stream \<Rightarrow> processing_request \<Rightarrow> handled" where
  "handle_draining reject strm req =
     (case req of
        RequestBody body eos \<Rightarrow>
          if \<not> eos then Inr ((strm, DrainingRequest reject), [])
          else Inr ((strm, AwaitingRequestHeaders), reject)
      | RequestTrailers \<Rightarrow> Inr ((strm, AwaitingRequestHeaders), reject)
      | _ \<Rightarrow> protocolViolation req ''RequestBody or RequestTrailers while draining request'')"

definition request_context_of :: "mcpProcResponse \<Rightarrow> requestContext" where
  "request_context_of p =
     \<lparr>jsonrpcID = Id p, rc_toolResponseConfig = ToolResponseConfig p, upstreamStatusCode = 0,
      rc_era = Era p\<rparr>"

definition finalize_request ::
  "runtime \<Rightarrow> mcp_request_headers \<Rightarrow> stream \<Rightarrow> bool \<Rightarrow>
   (stream \<times> stream_state) \<times> processing_response list" where
  "finalize_request rt mcpHeaders strm hasTrailers =
     (let handlerResult = mcpRequestHandler rt (server strm) (buf strm) mcpHeaders;
          reps = (case Reroute handlerResult of
                    None \<Rightarrow> Immediate handlerResult
                  | Some m \<Rightarrow> frame m requestFactory hasTrailers)
      in ((strm, AwaitingResponseHeaders (request_context_of handlerResult)), reps))"

definition handle_buffering_request ::
  "runtime \<Rightarrow> mcp_request_headers \<Rightarrow> stream \<Rightarrow> processing_request \<Rightarrow> handled" where
  "handle_buffering_request rt mcpHeaders strm req =
     (case req of
        RequestBody body eos \<Rightarrow>
          let strm' = strm\<lparr>buf := buf strm @ body\<rparr> in
          if \<not> eos then Inr ((strm', BufferingRequest mcpHeaders), [])
          else Inr (finalize_request rt mcpHeaders strm' False)
      | RequestTrailers \<Rightarrow> Inr (finalize_request rt mcpHeaders strm True)
      | _ \<Rightarrow> protocolViolation req ''RequestBody or RequestTrailers while buffering request'')"

definition with_upstream_status :: "requestContext \<Rightarrow> header_map \<Rightarrow> requestContext" where
  "with_upstream_status rc hs =
     (case parseUpstreamStatusCode hs of
        Some statusCode \<Rightarrow> rc\<lparr>upstreamStatusCode := statusCode\<rparr>
      | None \<Rightarrow> rc)"

definition handle_awaiting_response ::
  "runtime \<Rightarrow> requestContext \<Rightarrow> stream \<Rightarrow> processing_request \<Rightarrow> handled" where
  "handle_awaiting_response rt rc strm req =
     (case req of
        ResponseHeaders hs eos \<Rightarrow>
          if \<not> isToolCall rc then protocolViolation req ''tool call response''
          else
            let rc' = with_upstream_status rc hs in
            if \<not> eos then Inr ((beginBuffering strm, BufferingResponse rc'), [])
            else Inr ((strm, AwaitingRequestHeaders), buildEndOfStreamResponse rt rc')
      | _ \<Rightarrow> protocolViolation req ''ResponseHeaders'')"

definition finalize_response ::
  "runtime \<Rightarrow> requestContext \<Rightarrow> stream \<Rightarrow> bool \<Rightarrow>
   (stream \<times> stream_state) \<times> processing_response list" where
  "finalize_response rt rc strm hasTrailers =
     ((strm, AwaitingRequestHeaders),
      frame (mcpResponseHandler rt (buf strm) rc) responseFactory hasTrailers)"

definition handle_buffering_response ::
  "runtime \<Rightarrow> requestContext \<Rightarrow> stream \<Rightarrow> processing_request \<Rightarrow> handled" where
  "handle_buffering_response rt rc strm req =
     (case req of
        ResponseBody body eos \<Rightarrow>
          let strm' = strm\<lparr>buf := buf strm @ body\<rparr> in
          if \<not> eos then Inr ((strm', BufferingResponse rc), [])
          else Inr (finalize_response rt rc strm' False)
      | ResponseTrailers \<Rightarrow> Inr (finalize_response rt rc strm True)
      | _ \<Rightarrow> protocolViolation req ''ResponseBody or ResponseTrailers while buffering response'')"

definition handle :: "runtime \<Rightarrow> stream \<times> stream_state \<Rightarrow> processing_request \<Rightarrow> handled" where
  "handle rt c req =
     (case snd c of
        AwaitingRequestHeaders \<Rightarrow> handle_awaiting_request rt (fst c) req
      | DrainingRequest reject \<Rightarrow> handle_draining reject (fst c) req
      | BufferingRequest mcpHeaders \<Rightarrow> handle_buffering_request rt mcpHeaders (fst c) req
      | AwaitingResponseHeaders rc \<Rightarrow> handle_awaiting_response rt rc (fst c) req
      | BufferingResponse rc \<Rightarrow> handle_buffering_response rt rc (fst c) req)"

lemmas handle_defs =
  handle_def handle_awaiting_request_def handle_draining_def handle_buffering_request_def
  handle_awaiting_response_def handle_buffering_response_def protocolViolation_def

subsection \<open>Machines\<close>

text \<open>
  A machine takes one message at a time and either fails or moves on and emits messages. \<open>feed\<close>
  runs it over a list and stops at the first failure; \<open>run\<close> is the same as a relation on traces.
\<close>

primrec feed :: "('c \<Rightarrow> 'i \<Rightarrow> 'e + ('c \<times> 'o list)) \<Rightarrow> 'c \<Rightarrow> 'i list \<Rightarrow> 'e + ('c \<times> 'o list)" where
  "feed step c [] = Inr (c, [])"
| "feed step c (i # is) =
     (case step c i of
        Inl e \<Rightarrow> Inl e
      | Inr (c', out) \<Rightarrow>
          (case feed step c' is of
             Inl e \<Rightarrow> Inl e
           | Inr (c'', outs) \<Rightarrow> Inr (c'', out @ outs)))"

inductive run :: "('c \<Rightarrow> 'i \<Rightarrow> 'e + ('c \<times> 'o list)) \<Rightarrow> 'c \<Rightarrow> ('i \<times> 'o list) list \<Rightarrow> 'c \<Rightarrow> bool"
  for step where
  run_nil: "run step c [] c"
| run_step: "step c i = Inr (c', out) \<Longrightarrow> run step c' tr c'' \<Longrightarrow> run step c ((i, out) # tr) c''"

inductive_cases run_NilE: "run step c [] c'"
inductive_cases run_ConsE: "run step c (x # tr) c'"
inductive_simps run_Nil_iff: "run step c [] c'"
inductive_simps run_Cons_iff: "run step c ((i, out) # tr) c'"

lemma feed_append:
  "feed step c (is @ js) =
     (case feed step c is of
        Inl e \<Rightarrow> Inl e
      | Inr (c', out) \<Rightarrow>
          (case feed step c' js of Inl e \<Rightarrow> Inl e | Inr (c'', outs) \<Rightarrow> Inr (c'', out @ outs)))"
proof (induction "is" arbitrary: c)
  case Nil
  show ?case by (cases "feed step c js") auto
next
  case (Cons i "is")
  show ?case
  proof (cases "step c i")
    case (Inl e)
    then show ?thesis by simp
  next
    case (Inr x)
    obtain c1 o1 where x: "x = (c1, o1)" by (cases x)
    show ?thesis
    proof (cases "feed step c1 is")
      case (Inl e)
      then show ?thesis using Inr x by (simp add: Cons.IH)
    next
      case 2: (Inr y)
      obtain c2 o2 where y: "y = (c2, o2)" by (cases y)
      show ?thesis using Inr x 2 y by (cases "feed step c2 js") (auto simp: Cons.IH)
    qed
  qed
qed

lemma run_feed:
  "run step c tr c' \<Longrightarrow> feed step c (map fst tr) = Inr (c', concat (map snd tr))"
  by (induction rule: run.induct) simp_all

lemma feed_run:
  "feed step c is = Inr (c', out) \<Longrightarrow> \<exists>tr. run step c tr c' \<and> map fst tr = is \<and> concat (map snd tr) = out"
proof (induction "is" arbitrary: c out)
  case Nil
  then show ?case by (intro exI [of _ "[]"]) (simp add: run_Nil_iff)
next
  case (Cons i "is")
  then obtain c1 o1 os where 1: "step c i = Inr (c1, o1)" "feed step c1 is = Inr (c', os)" "out = o1 @ os"
    by (auto split: sum.splits)
  from Cons.IH [OF 1(2)] obtain tr where tr: "run step c1 tr c'" "map fst tr = is" "concat (map snd tr) = os"
    by blast
  with 1 show ?case by (intro exI [of _ "(i, o1) # tr"]) (simp add: run_Cons_iff)
qed

lemma run_append: "run step c tr c' \<Longrightarrow> run step c' tr' c'' \<Longrightarrow> run step c (tr @ tr') c''"
  by (induction rule: run.induct) (auto intro: run_step)

locale machine =
  fixes step :: "'c \<Rightarrow> 'i \<Rightarrow> 'e + ('c \<times> 'o list)"
    and inv :: "'c \<Rightarrow> bool"
    and emits :: "'c \<Rightarrow> 'i \<Rightarrow> 'o list \<Rightarrow> bool"
  assumes step_inv: "inv c \<Longrightarrow> step c i = Inr (c', out) \<Longrightarrow> inv c'"
    and step_emits: "inv c \<Longrightarrow> step c i = Inr (c', out) \<Longrightarrow> emits c i out"
begin

lemma run_inv: "run step c tr c' \<Longrightarrow> inv c \<Longrightarrow> inv c'"
  by (induction rule: run.induct) (auto dest: step_inv)

lemma feed_inv: "feed step c is = Inr (c', out) \<Longrightarrow> inv c \<Longrightarrow> inv c'"
proof -
  assume "feed step c is = Inr (c', out)" and "inv c"
  then obtain tr where "run step c tr c'" using feed_run by fast
  then show "inv c'" using \<open>inv c\<close> by (rule run_inv)
qed

text \<open>Every step of a run is done in the state its prefix leads to, and emits what may be emitted there.\<close>

lemma run_at:
  assumes "run step c (pre @ (i, out) # post) c'" and "inv c"
  shows "\<exists>d d'. run step c pre d \<and> step d i = Inr (d', out) \<and> inv d \<and> emits d i out"
  using assms
proof (induction pre arbitrary: c)
  case Nil
  then obtain d' where "step c i = Inr (d', out)" by (auto simp: run_Cons_iff)
  with Nil.prems(2) step_emits show ?case by (auto simp: run_Nil_iff)
next
  case (Cons p pre)
  obtain j o' where p: "p = (j, o')" by (cases p)
  with Cons.prems obtain d where d: "step c j = Inr (d, o')" "run step d (pre @ (i, out) # post) c'"
    by (auto simp: run_Cons_iff)
  have "inv d" using Cons.prems(2) d(1) by (rule step_inv)
  from Cons.IH [OF d(2) this] d(1) show ?case unfolding p by (blast intro: run_step)
qed

end

subsection \<open>Which messages a state takes\<close>

definition accepts :: "stream_state \<Rightarrow> processing_request \<Rightarrow> bool" where
  "accepts st req =
     (case st of
        AwaitingRequestHeaders \<Rightarrow> (\<exists>hs eos. req = RequestHeaders hs eos)
      | DrainingRequest _ \<Rightarrow> req = RequestTrailers \<or> (\<exists>b eos. req = RequestBody b eos)
      | BufferingRequest _ \<Rightarrow> req = RequestTrailers \<or> (\<exists>b eos. req = RequestBody b eos)
      | AwaitingResponseHeaders rc \<Rightarrow> isToolCall rc \<and> (\<exists>hs eos. req = ResponseHeaders hs eos)
      | BufferingResponse _ \<Rightarrow> req = ResponseTrailers \<or> (\<exists>b eos. req = ResponseBody b eos))"

lemma handle_accepts: "\<not> isl (handle rt (strm, st) req) \<longleftrightarrow> accepts st req"
  by (cases st; cases req) (simp_all add: handle_defs accepts_def Let_def)

lemma handle_rejects:
  "\<not> accepts st req \<Longrightarrow> \<exists>expected. handle rt (strm, st) req = Inl (ProtocolViolation expected req)"
  by (cases st; cases req) (auto simp: handle_defs accepts_def Let_def)

subsection \<open>The invariant of the reachable states\<close>

definition context_ok :: "requestContext \<Rightarrow> bool" where
  "context_ok rc \<longleftrightarrow> (rc_toolResponseConfig rc = None \<longleftrightarrow> rc_era rc = None)"

definition state_ok :: "ext_proc_server \<Rightarrow> stream \<times> stream_state \<Rightarrow> bool" where
  "state_ok s c \<longleftrightarrow>
     server (fst c) = s \<and>
     (case snd c of
        DrainingRequest reject \<Rightarrow> reject = forbiddenResponse
      | AwaitingResponseHeaders rc \<Rightarrow> context_ok rc
      | BufferingResponse rc \<Rightarrow> context_ok rc \<and> isToolCall rc
      | _ \<Rightarrow> True)"

text \<open>Messages of the request side and of the response side; an emission starts with headers.\<close>

fun request_side :: "processing_response \<Rightarrow> bool" where
  "request_side (RequestHeadersResponse _) = True"
| "request_side (RequestBodyResponse _) = True"
| "request_side RequestTrailersResponse = True"
| "request_side (ImmediateResponse _) = True"
| "request_side _ = False"

fun response_side :: "processing_response \<Rightarrow> bool" where
  "response_side (ResponseHeadersResponse _) = True"
| "response_side (ResponseBodyResponse _) = True"
| "response_side ResponseTrailersResponse = True"
| "response_side _ = False"

fun is_headers :: "processing_response \<Rightarrow> bool" where
  "is_headers (RequestHeadersResponse _) = True"
| "is_headers (ResponseHeadersResponse _) = True"
| "is_headers _ = False"

fun in_response_phase :: "stream_state \<Rightarrow> bool" where
  "in_response_phase (AwaitingResponseHeaders _) = True"
| "in_response_phase (BufferingResponse _) = True"
| "in_response_phase _ = False"

definition well_sided :: "stream_state \<Rightarrow> processing_response list \<Rightarrow> bool" where
  "well_sided st out \<longleftrightarrow>
     list_all (if in_response_phase st then response_side else request_side) out \<and>
     (out = [] \<or> (is_headers (hd out) \<and> \<not> list_ex is_headers (tl out)))"

lemma frame_chunks_request:
  "list_all request_side (frame_chunks requestFactory t b) \<and>
   \<not> list_ex is_headers (frame_chunks requestFactory t b)"
  by (induction b rule: chunk_induct) (simp_all add: frame_chunks_last frame_chunks_more msg_simps)

lemma frame_chunks_response:
  "list_all response_side (frame_chunks responseFactory t b) \<and>
   \<not> list_ex is_headers (frame_chunks responseFactory t b)"
  by (induction b rule: chunk_induct) (simp_all add: frame_chunks_last frame_chunks_more msg_simps)

lemma immediate_sided:
  "\<not> in_response_phase st \<Longrightarrow> well_sided st (immediateResponse ir)"
  by (simp add: well_sided_def msg_simps)

lemma answered_immediate:
  "Reroute (mcpRequestHandler rt s body hdrs) = None \<Longrightarrow>
     \<exists>ir. Immediate (mcpRequestHandler rt s body hdrs) = immediateResponse ir"
  using mcpRequestHandler_either [of rt s body hdrs] by (auto simp: answered_def forwarded_def)

lemma rerouted_headers:
  "Reroute (mcpRequestHandler rt s body hdrs) = Some m \<Longrightarrow> \<exists>r. sm_headers m = RequestHeadersResponse r"
  by (auto simp: mcpRequestHandler_def handle_request_Reroute forward_call_def
      rerouteWithBodyMutation_def headerMutation_def msg_simps
      split: option.splits rpc_message.splits)

lemma finalize_request_sided:
  "well_sided (BufferingRequest h) (snd (finalize_request rt h strm t))"
proof (cases "Reroute (mcpRequestHandler rt (server strm) (buf strm) h)")
  case None
  then obtain ir where "Immediate (mcpRequestHandler rt (server strm) (buf strm) h) = immediateResponse ir"
    using answered_immediate by blast
  with None show ?thesis by (simp add: finalize_request_def immediate_sided)
next
  case (Some m)
  with rerouted_headers obtain r where "sm_headers m = RequestHeadersResponse r" by blast
  with Some frame_chunks_request show ?thesis
    by (simp add: finalize_request_def well_sided_def frame_def msg_simps)
qed

lemma finalize_response_sided:
  "well_sided (BufferingResponse rc) (snd (finalize_response rt rc strm t))"
  using frame_chunks_response
  by (simp add: finalize_response_def well_sided_def frame_def mcpResponseHandler_def
      headerMutation_def msg_simps case_prod_beta)

lemma end_of_stream_sided:
  "well_sided (AwaitingResponseHeaders rc) (buildEndOfStreamResponse rt rc')"
  by (simp add: buildEndOfStreamResponse_def newReplacedResponse_def well_sided_def msg_simps
      case_prod_beta Let_def)

lemma start_request_sided:
  "well_sided AwaitingRequestHeaders (snd (start_request rt strm hs eos))"
  by (simp add: start_request_def immediate_sided methodNotAllowedResponse_def forbiddenResponse_def
      httpStatusResponse_def newImmediateBodyResponse_def newImmediateBodyResponseWithStatus_def)
    (simp add: well_sided_def)

lemma context_ok_request: "context_ok (request_context_of (mcpRequestHandler rt s body hdrs))"
  using mcpRequestHandler_either [of rt s body hdrs]
  by (auto simp: context_ok_def request_context_of_def answered_def forwarded_def)

lemma context_ok_status [simp]:
  "context_ok (with_upstream_status rc hs) = context_ok rc"
  "isToolCall (with_upstream_status rc hs) = isToolCall rc"
  "protocolEra (with_upstream_status rc hs) = protocolEra rc"
  "jsonrpcID (with_upstream_status rc hs) = jsonrpcID rc"
  "rc_toolResponseConfig (with_upstream_status rc hs) = rc_toolResponseConfig rc"
  by (auto simp: with_upstream_status_def context_ok_def isToolCall_def protocolEra_def
      split: option.split)

lemma server_finalize [simp]:
  "fst (fst (finalize_request rt h strm t)) = strm"
  "fst (fst (finalize_response rt rc strm t)) = strm"
  "snd (fst (finalize_response rt rc strm t)) = AwaitingRequestHeaders"
  by (simp_all add: finalize_request_def finalize_response_def Let_def)

lemma finalize_request_state:
  "snd (fst (finalize_request rt h strm t)) =
     AwaitingResponseHeaders (request_context_of (mcpRequestHandler rt (server strm) (buf strm) h))"
  by (simp add: finalize_request_def Let_def)

lemma start_request_ok: "server strm = s \<Longrightarrow> state_ok s (fst (start_request rt strm hs eos))"
  by (simp add: start_request_def state_ok_def beginBuffering_def)

text \<open>The transitions of \<open>handle\<close>, one rule per branch that does not fail.\<close>

inductive transition ::
  "runtime \<Rightarrow> stream \<times> stream_state \<Rightarrow> processing_request \<Rightarrow> stream \<times> stream_state \<Rightarrow>
   processing_response list \<Rightarrow> bool"
  for rt where
  start: "start_request rt strm hs eos = (c', out) \<Longrightarrow>
     transition rt (strm, AwaitingRequestHeaders) (RequestHeaders hs eos) c' out"
| drain_more: "transition rt (strm, DrainingRequest r) (RequestBody b False) (strm, DrainingRequest r) []"
| drain_end: "transition rt (strm, DrainingRequest r) (RequestBody b True) (strm, AwaitingRequestHeaders) r"
| drain_trailers: "transition rt (strm, DrainingRequest r) RequestTrailers (strm, AwaitingRequestHeaders) r"
| request_more: "transition rt (strm, BufferingRequest h) (RequestBody b False)
     (strm\<lparr>buf := buf strm @ b\<rparr>, BufferingRequest h) []"
| request_end: "finalize_request rt h (strm\<lparr>buf := buf strm @ b\<rparr>) False = (c', out) \<Longrightarrow>
     transition rt (strm, BufferingRequest h) (RequestBody b True) c' out"
| request_trailers: "finalize_request rt h strm True = (c', out) \<Longrightarrow>
     transition rt (strm, BufferingRequest h) RequestTrailers c' out"
| response_start: "isToolCall rc \<Longrightarrow>
     transition rt (strm, AwaitingResponseHeaders rc) (ResponseHeaders hs False)
       (beginBuffering strm, BufferingResponse (with_upstream_status rc hs)) []"
| response_empty: "isToolCall rc \<Longrightarrow>
     transition rt (strm, AwaitingResponseHeaders rc) (ResponseHeaders hs True)
       (strm, AwaitingRequestHeaders) (buildEndOfStreamResponse rt (with_upstream_status rc hs))"
| response_more: "transition rt (strm, BufferingResponse rc) (ResponseBody b False)
     (strm\<lparr>buf := buf strm @ b\<rparr>, BufferingResponse rc) []"
| response_end: "finalize_response rt rc (strm\<lparr>buf := buf strm @ b\<rparr>) False = (c', out) \<Longrightarrow>
     transition rt (strm, BufferingResponse rc) (ResponseBody b True) c' out"
| response_trailers: "finalize_response rt rc strm True = (c', out) \<Longrightarrow>
     transition rt (strm, BufferingResponse rc) ResponseTrailers c' out"

inductive_simps transition_simps:
  "transition rt (strm, AwaitingRequestHeaders) req c' out"
  "transition rt (strm, DrainingRequest r) req c' out"
  "transition rt (strm, BufferingRequest h) req c' out"
  "transition rt (strm, AwaitingResponseHeaders rc) req c' out"
  "transition rt (strm, BufferingResponse rc) req c' out"

lemma handle_transition: "handle rt c req = Inr (c', out) \<longleftrightarrow> transition rt c req c' out"
proof -
  obtain strm st where c: "c = (strm, st)" by (cases c)
  show ?thesis
    by (cases st; cases req) (auto simp: c handle_defs transition_simps Let_def)
qed

lemma handle_state_ok:
  assumes "state_ok s c" and "handle rt c req = Inr (c', out)"
  shows "state_ok s c'"
  using assms(2,1) unfolding handle_transition
proof cases
  case (start strm hs eos)
  then show ?thesis using start_request_ok [of strm s rt hs eos] assms(1) by (simp add: state_ok_def)
qed (auto simp: state_ok_def beginBuffering_def finalize_request_def finalize_response_def
      context_ok_request Let_def)

lemma handle_well_sided:
  assumes "state_ok s c" and "handle rt c req = Inr (c', out)"
  shows "well_sided (snd c) out"
proof -
  have nil: "well_sided st []" for st by (simp add: well_sided_def)
  have forbidden: "well_sided (DrainingRequest r) forbiddenResponse" for r
    by (simp add: immediate_sided forbiddenResponse_def httpStatusResponse_def)
  from assms(2,1) show ?thesis unfolding handle_transition
  proof cases
    case (start strm hs eos)
    then show ?thesis using start_request_sided [of rt strm hs eos] by simp
  next
    case (request_end h strm b)
    then show ?thesis using finalize_request_sided [of h rt "strm\<lparr>buf := buf strm @ b\<rparr>" False] by simp
  next
    case (request_trailers h strm)
    then show ?thesis using finalize_request_sided [of h rt strm True] by simp
  next
    case (response_end rc strm b)
    then show ?thesis using finalize_response_sided [of rc rt "strm\<lparr>buf := buf strm @ b\<rparr>" False] by simp
  next
    case (response_trailers rc strm)
    then show ?thesis using finalize_response_sided [of rc rt strm True] by simp
  qed (auto simp: nil forbidden end_of_stream_sided state_ok_def)
qed

interpretation ep: machine "handle rt" "state_ok s" "\<lambda>c i out. well_sided (snd c) out"
  for rt s
  by unfold_locales (rule handle_state_ok, assumption+, rule handle_well_sided, assumption+)

text \<open>Every status that 64 bits hold is read back, and it alone decides the error flag.\<close>

lemma upstream_status_read:
  assumes "findHeader hs '':status'' = Some (itoa code)" and "int64_min \<le> code" and "code \<le> int64_max"
  shows "upstreamStatusCode (with_upstream_status rc hs) = code \<and>
     (ct_IsError (tool_outcome config (upstreamStatusCode (with_upstream_status rc hs)) body) \<longleftrightarrow>
        code = 0 \<or> 400 \<le> code)"
  using assms
  by (simp add: with_upstream_status_def parseUpstreamStatusCode_def atoi_itoa tool_outcome_def
      call_result_def isHTTPErrorStatus_def)

subsection \<open>Whole phases\<close>

text \<open>
  A body arrives in chunks and ends with a chunk that carries end-of-stream (\<open>Some\<close>) or with
  trailers (\<open>None\<close>).
\<close>

definition request_body :: "bytes list \<Rightarrow> bytes option \<Rightarrow> processing_request list" where
  "request_body bs lst =
     map (\<lambda>b. RequestBody b False) bs @
     [case lst of Some b \<Rightarrow> RequestBody b True | None \<Rightarrow> RequestTrailers]"

definition response_body :: "bytes list \<Rightarrow> bytes option \<Rightarrow> processing_request list" where
  "response_body bs lst =
     map (\<lambda>b. ResponseBody b False) bs @
     [case lst of Some b \<Rightarrow> ResponseBody b True | None \<Rightarrow> ResponseTrailers]"

definition body_of :: "bytes list \<Rightarrow> bytes option \<Rightarrow> bytes" where
  "body_of bs lst = concat bs @ (case lst of Some b \<Rightarrow> b | None \<Rightarrow> [])"

definition post_allowed :: "header_map \<Rightarrow> bool" where
  "post_allowed hs \<longleftrightarrow> findHeader hs '':method'' \<in> {None, Some ''POST''}"

definition host_allowed :: "runtime \<Rightarrow> ext_proc_server \<Rightarrow> header_map \<Rightarrow> bool" where
  "host_allowed rt s hs \<longleftrightarrow>
     fst (checkHeaders (unicode rt) (url_hostname rt) (allowedHosts s) hs)"

lemma start_request_cases:
  "\<not> post_allowed hs \<Longrightarrow>
     start_request rt strm hs eos = ((strm, AwaitingRequestHeaders), methodNotAllowedResponse)"
  "post_allowed hs \<Longrightarrow> \<not> host_allowed rt (server strm) hs \<Longrightarrow>
     start_request rt strm hs False = ((strm, DrainingRequest forbiddenResponse), [])"
  "post_allowed hs \<Longrightarrow> \<not> host_allowed rt (server strm) hs \<Longrightarrow>
     start_request rt strm hs True = ((strm, AwaitingRequestHeaders), forbiddenResponse)"
  "post_allowed hs \<Longrightarrow> host_allowed rt (server strm) hs \<Longrightarrow>
     start_request rt strm hs False =
       ((beginBuffering strm, BufferingRequest (captureMCPRequestHeaders (unicode rt) hs)), [])"
  by (auto simp: start_request_def post_allowed_def host_allowed_def)

lemma feed_request_chunks:
  "feed (handle rt) (strm, BufferingRequest h) (map (\<lambda>b. RequestBody b False) bs) =
     Inr ((strm\<lparr>buf := buf strm @ concat bs\<rparr>, BufferingRequest h), [])"
  by (induction bs arbitrary: strm) (simp_all add: handle_defs Let_def)

lemma feed_response_chunks:
  "feed (handle rt) (strm, BufferingResponse rc) (map (\<lambda>b. ResponseBody b False) bs) =
     Inr ((strm\<lparr>buf := buf strm @ concat bs\<rparr>, BufferingResponse rc), [])"
  by (induction bs arbitrary: strm) (simp_all add: handle_defs Let_def)

lemma feed_drained_chunks:
  "feed (handle rt) (strm, DrainingRequest r) (map (\<lambda>b. RequestBody b False) bs) =
     Inr ((strm, DrainingRequest r), [])"
  by (induction bs) (simp_all add: handle_defs)

lemma request_phase:
  assumes "post_allowed hs" and "host_allowed rt (server strm) hs"
  shows "feed (handle rt) (strm, AwaitingRequestHeaders) (RequestHeaders hs False # request_body bs lst) =
     Inr (finalize_request rt (captureMCPRequestHeaders (unicode rt) hs)
            (strm\<lparr>buf := body_of bs lst\<rparr>) (lst = None))"
  using start_request_cases(4) [OF assms]
  by (cases lst)
    (simp_all add: request_body_def body_of_def feed_append feed_request_chunks beginBuffering_def
      handle_defs case_prod_beta split: sum.split)

lemma rejected_phase:
  assumes "post_allowed hs" and "\<not> host_allowed rt (server strm) hs"
  shows "feed (handle rt) (strm, AwaitingRequestHeaders) (RequestHeaders hs False # request_body bs lst) =
     Inr ((strm, AwaitingRequestHeaders), forbiddenResponse)"
  using start_request_cases(2) [OF assms]
  by (cases lst) (simp_all add: request_body_def feed_append feed_drained_chunks handle_defs)

lemma response_phase:
  assumes "isToolCall rc"
  shows "feed (handle rt) (strm, AwaitingResponseHeaders rc) (ResponseHeaders hs False # response_body bs lst) =
     Inr ((strm\<lparr>buf := body_of bs lst\<rparr>, AwaitingRequestHeaders),
          frame (mcpResponseHandler rt (body_of bs lst) (with_upstream_status rc hs)) responseFactory
            (lst = None))"
  using assms
  by (cases lst)
    (simp_all add: response_body_def body_of_def feed_append feed_response_chunks beginBuffering_def
      handle_defs Let_def finalize_response_def)

end
