(* ===== verification/Openapi.thy ===== *)
theory Openapi
  imports Endpoint_Request
begin

section \<open>Tools from OpenAPI documents (\<open>openapi.go\<close>)\<close>

text \<open>
  The part of a parsed document (package \<open>openapi3\<close>) that the loader reads, and the loader. A schema
  is reached through pointers, which may form cycles: pointers are numbers, and the document comes
  with the map \<open>schemas\<close> from pointers to schemas. Go maps are association lists in the order a loop
  visits them. \<open>openApiSchemaToMap\<close> recurses along the pointers with fuel; the last section says when
  some fuel is enough. A load can end in a panic, which is a value of \<open>load_stop\<close>.
\<close>

subsection \<open>Documents\<close>

type_synonym pointer = nat

record schema =
  sc_Type :: "string list option"
  sc_Description :: string
  sc_Enum :: "gvalue list option"
  sc_Required :: "string list"
  sc_Properties :: "(string \<times> pointer option) list option"
  sc_Items :: "pointer option"

type_synonym schemas = "pointer \<Rightarrow> schema"

text \<open>
  A reference has a \<open>Value\<close> that may be nil. In \<^typ>\<open>pointer option option\<close> the outer option is the
  reference, the inner one its value.
\<close>

record parameter =
  pa_Name :: string
  pa_In :: string
  pa_Description :: string
  pa_Required :: bool
  pa_Schema :: "pointer option option"

record media_type =
  mt_Schema :: "pointer option option"

type_synonym content = "(string \<times> media_type option) list"

record request_body =
  rb_Required :: bool
  rb_Content :: content

type_synonym response = content

record operation =
  OperationID :: string
  Summary :: string
  op_Description :: string
  op_Parameters :: "parameter option list"
  op_RequestBody :: "request_body option option"
  op_Responses :: "(string \<times> response option) list option"

record document =
  servers :: "string list"
  paths :: "(string \<times> (string \<times> operation option) list) list"
  schemas_of :: schemas

datatype load_stop = NilPointer | OutOfFuel

subsection \<open>Schemas\<close>

fun all_right :: "('e + 'a) list \<Rightarrow> 'e + 'a list" where
  "all_right [] = Inr []"
| "all_right (x # xs) =
     (case x of
        Inl e \<Rightarrow> Inl e
      | Inr y \<Rightarrow> (case all_right xs of Inl e \<Rightarrow> Inl e | Inr ys \<Rightarrow> Inr (y # ys)))"

definition map_right :: "('a \<Rightarrow> 'b) \<Rightarrow> 'e + 'a \<Rightarrow> 'e + 'b" where
  "map_right f x = (case x of Inl e \<Rightarrow> Inl e | Inr y \<Rightarrow> Inr (f y))"

definition bind_right :: "'e + 'a \<Rightarrow> ('a \<Rightarrow> 'e + 'b) \<Rightarrow> 'e + 'b" where
  "bind_right x f = (case x of Inl e \<Rightarrow> Inl e | Inr y \<Rightarrow> f y)"

text \<open>The entries that need no recursion, in the order they are written.\<close>

definition scalar_entries :: "schema \<Rightarrow> (string \<times> schema_value) list" where
  "scalar_entries sc =
     (case sc_Type sc of None \<Rightarrow> [] | Some ts \<Rightarrow> [(''type'', SVTypes ts)]) @
     (if sc_Description sc \<noteq> [] then [(''description'', SVString (sc_Description sc))] else []) @
     (case sc_Enum sc of None \<Rightarrow> [] | Some vs \<Rightarrow> [(''enum'', SVEnum vs)]) @
     (if sc_Required sc \<noteq> [] then [(''required'', SVStrings (sc_Required sc))] else [])"

text \<open>The properties whose reference has a value.\<close>

definition present_properties :: "(string \<times> pointer option) list \<Rightarrow> (string \<times> pointer) list" where
  "present_properties ps = List.map_filter (\<lambda>(n, v). map_option (Pair n) v) ps"

fun openApiSchemaToMap ::
  "nat \<Rightarrow> schemas \<Rightarrow> pointer \<Rightarrow> load_stop + (string \<times> schema_value) list" where
  "openApiSchemaToMap 0 S p = Inl OutOfFuel"
| "openApiSchemaToMap (Suc fuel) S p =
     bind_right
       (case sc_Properties (S p) of
          None \<Rightarrow> Inr []
        | Some ps \<Rightarrow>
            map_right
              (\<lambda>ms. [(''properties'',
                      SVMap (map (\<lambda>(n, m). (n, SVMap m)) (zip (map fst (present_properties ps)) ms)))])
              (all_right (map (\<lambda>np. openApiSchemaToMap fuel S (snd np)) (present_properties ps))))
       (\<lambda>props.
          map_right (\<lambda>items. scalar_entries (S p) @ props @ items)
            (case sc_Items (S p) of
               None \<Rightarrow> Inr []
             | Some q \<Rightarrow> map_right (\<lambda>m. [(''items'', SVMap m)]) (openApiSchemaToMap fuel S q)))"

definition openApiParameterToSchema ::
  "nat \<Rightarrow> schemas \<Rightarrow> parameter \<Rightarrow> load_stop + (string \<times> schema_value) list" where
  "openApiParameterToSchema fuel S param =
     map_right
       (\<lambda>m. if pa_Description param \<noteq> []
            then AList.update ''description'' (SVString (pa_Description param)) m else m)
       (case pa_Schema param of
          Some (Some p) \<Rightarrow> openApiSchemaToMap fuel S p
        | _ \<Rightarrow> Inr [])"

subsection \<open>Responses\<close>

definition json_content :: "string \<Rightarrow> bool" where
  "json_content contentType \<longleftrightarrow> has_prefix contentType ''application/json''"

fun findJSONSchemaInResponse :: "response \<Rightarrow> pointer option" where
  "findJSONSchemaInResponse [] = None"
| "findJSONSchemaInResponse ((contentType, mediaType) # rest) =
     (if \<not> json_content contentType then findJSONSchemaInResponse rest
      else
        (case mediaType of
           None \<Rightarrow> findJSONSchemaInResponse rest
         | Some mt \<Rightarrow>
             (case mt_Schema mt of
                None \<Rightarrow> findJSONSchemaInResponse rest
              | Some v \<Rightarrow> v)))"

text \<open>
  The loop over the responses: the default schema, any other schema and the candidates with their
  status codes, in the order they are appended.
\<close>

record found_schemas =
  defaultSchema :: "pointer option"
  anySchema :: "pointer option"
  candidates :: "(int \<times> pointer) list"

definition note_response :: "found_schemas \<Rightarrow> string \<Rightarrow> response option \<Rightarrow> found_schemas" where
  "note_response f st responseValue =
     (case Option.bind responseValue findJSONSchemaInResponse of
        None \<Rightarrow> f
      | Some jsonSchema \<Rightarrow>
          if st = ''default''
          then f\<lparr>defaultSchema := (case defaultSchema f of None \<Rightarrow> Some jsonSchema | d \<Rightarrow> d)\<rparr>
          else
            (case atoi st of
               Some statusCode \<Rightarrow>
                 if 200 \<le> statusCode \<and> statusCode \<le> 299
                 then f\<lparr>candidates := candidates f @ [(statusCode, jsonSchema)]\<rparr>
                 else f\<lparr>anySchema := (case anySchema f of None \<Rightarrow> Some jsonSchema | a \<Rightarrow> a)\<rparr>
             | None \<Rightarrow> f\<lparr>anySchema := (case anySchema f of None \<Rightarrow> Some jsonSchema | a \<Rightarrow> a)\<rparr>))"

definition no_schemas :: found_schemas where
  "no_schemas = \<lparr>defaultSchema = None, anySchema = None, candidates = []\<rparr>"

text \<open>\<open>candidateSchemas\<close> is a map: the last schema for a code is the one it holds.\<close>

definition findJSONSchemaFromResponses :: "(string \<times> response option) list option \<Rightarrow> pointer option" where
  "findJSONSchemaFromResponses responses =
     (case responses of
        None \<Rightarrow> None
      | Some rs \<Rightarrow>
          let f = foldl (\<lambda>f (st, r). note_response f st r) no_schemas rs in
          if candidates f \<noteq> []
          then map_of (rev (candidates f)) (hd (sort (map fst (candidates f))))
          else if defaultSchema f \<noteq> None then defaultSchema f
          else anySchema f)"

text \<open>\<open>fmt.Sprint\<close> of a pointer to the list of types.\<close>

definition sprint_types :: "string list \<Rightarrow> string" where
  "sprint_types ts = ''&['' @ join ts '' '' @ '']''"

definition isTopLevelObjectSchema :: "schema \<Rightarrow> bool" where
  "isTopLevelObjectSchema sc =
     (case sc_Type sc of None \<Rightarrow> False | Some ts \<Rightarrow> contains (sprint_types ts) ''object'')"

subsection \<open>One operation\<close>

text \<open>What the loop over the parameters builds: the input properties, the required names and the endpoint's parameters.\<close>

record built =
  inputSchemaProps :: "(string \<times> (string \<times> schema_value) list) list"
  requiredFields :: "string list"
  endpointParams :: "(string \<times> gvalue) list"

definition nothing_built :: built where
  "nothing_built = \<lparr>inputSchemaProps = [], requiredFields = [], endpointParams = []\<rparr>"

definition add_parameter :: "nat \<Rightarrow> schemas \<Rightarrow> built \<Rightarrow> parameter \<Rightarrow> load_stop + built" where
  "add_parameter fuel S b param =
     map_right
       (\<lambda>m. \<lparr>inputSchemaProps = AList.update (pa_Name param) m (inputSchemaProps b),
             requiredFields =
               requiredFields b @ (if pa_Required param then [pa_Name param] else []),
             endpointParams =
               AList.update (pa_Name param)
                 (VMap [(''in'', VString (pa_In param)), (''required'', VBool (pa_Required param))])
                 (endpointParams b)\<rparr>)
       (openApiParameterToSchema fuel S param)"

fun add_parameters :: "nat \<Rightarrow> schemas \<Rightarrow> built \<Rightarrow> parameter option list \<Rightarrow> load_stop + built" where
  "add_parameters fuel S b [] = Inr b"
| "add_parameters fuel S b (None # ps) = Inl NilPointer"
| "add_parameters fuel S b (Some param # ps) =
     bind_right (add_parameter fuel S b param) (\<lambda>b'. add_parameters fuel S b' ps)"

definition describe_unless :: "string \<Rightarrow> (string \<times> schema_value) list \<Rightarrow> (string \<times> schema_value) list" where
  "describe_unless text m =
     (if map_of m ''description'' \<noteq> None then m else m @ [(''description'', SVString text)])"

definition default_body_schema :: "(string \<times> schema_value) list" where
  "default_body_schema =
     [(''type'', SVString ''object''), (''description'', SVString ''Request body'')]"

text \<open>The schema of the body and the content type, from the entry \<open>application/json\<close>.\<close>

definition body_schema ::
  "nat \<Rightarrow> schemas \<Rightarrow> request_body \<Rightarrow> load_stop + ((string \<times> schema_value) list \<times> string)" where
  "body_schema fuel S rb =
     (case map_of (rb_Content rb) ''application/json'' of
        None \<Rightarrow> Inr (default_body_schema, [])
      | Some None \<Rightarrow> Inl NilPointer
      | Some (Some jsonContent) \<Rightarrow>
          (case mt_Schema jsonContent of
             None \<Rightarrow> Inl NilPointer
           | Some None \<Rightarrow> Inr (default_body_schema, ''application/json'')
           | Some (Some p) \<Rightarrow>
               map_right (\<lambda>m. (describe_unless ''Request body'' m, ''application/json''))
                 (openApiSchemaToMap fuel S p)))"

definition add_body ::
  "nat \<Rightarrow> schemas \<Rightarrow> built \<Rightarrow> request_body option option \<Rightarrow> load_stop + (built \<times> string)" where
  "add_body fuel S b body =
     (case body of
        None \<Rightarrow> Inr (b, [])
      | Some None \<Rightarrow> Inl NilPointer
      | Some (Some rb) \<Rightarrow>
          map_right
            (\<lambda>(m, contentType).
               (b\<lparr>inputSchemaProps := AList.update ''body'' m (inputSchemaProps b),
                  requiredFields :=
                    requiredFields b @ (if rb_Required rb then [''body''] else [])\<rparr>,
                contentType))
            (body_schema fuel S rb))"

definition input_schema :: "built \<Rightarrow> schema_value" where
  "input_schema b =
     SVMap
       ((''type'', SVString ''object'') #
        (if inputSchemaProps b = [] then [(''additionalProperties'', SVBool False)]
         else [(''properties'', SVMap (map (\<lambda>(n, m). (n, SVMap m)) (inputSchemaProps b))),
               (''required'', SVStrings (requiredFields b))]))"

definition output_schema ::
  "nat \<Rightarrow> schemas \<Rightarrow> (string \<times> response option) list option \<Rightarrow> load_stop + schema_value option" where
  "output_schema fuel S responses =
     (case findJSONSchemaFromResponses responses of
        None \<Rightarrow> Inr None
      | Some p \<Rightarrow>
          if isTopLevelObjectSchema (S p)
          then map_right (\<lambda>m. Some (SVMap (describe_unless ''API response object'' m)))
                 (openApiSchemaToMap fuel S p)
          else Inr None)"

definition generateMCPToolFromApiOperation ::
  "unicode_tables \<Rightarrow> nat \<Rightarrow> schemas \<Rightarrow> operation \<Rightarrow> string \<Rightarrow> string \<Rightarrow> string \<Rightarrow> string \<Rightarrow>
   load_stop + (mcp_tool \<times> tool_config)" where
  "generateMCPToolFromApiOperation U fuel S op httpMethod path host toolName =
     bind_right (add_parameters fuel S nothing_built (op_Parameters op))
       (\<lambda>b1.
          bind_right (add_body fuel S b1 (op_RequestBody op))
            (\<lambda>(b, contentType).
               map_right
                 (\<lambda>outputSchema.
                    (\<lparr>Name = toolName, Title = Summary op, Description = op_Description op,
                      InputSchema = input_schema b, OutputSchema = outputSchema\<rparr>,
                     \<lparr>Endpoint =
                        \<lparr>Host = host, Method = to_lower U httpMethod, PathTemplate = path,
                         Parameters = endpointParams b, ContentType = contentType\<rparr>,
                      toolResponseConfig = \<lparr>UseStructuredOutput = False\<rparr>\<rparr>))
                 (output_schema fuel S (op_Responses op))))"

subsection \<open>A document\<close>

record tool_registry_config =
  OpenAPISpecPattern :: string
  ToolAllowlist :: "string list"
  StructuredOutput :: bool

definition hasSupportedRequestBody :: "operation \<Rightarrow> bool" where
  "hasSupportedRequestBody op =
     (case op_RequestBody op of
        Some (Some rb) \<Rightarrow> list_ex (\<lambda>p. json_content (fst p)) (rb_Content rb)
      | _ \<Rightarrow> True)"

definition shouldSkipOperation :: "operation option \<Rightarrow> bool" where
  "shouldSkipOperation apiOperation =
     (case apiOperation of
        None \<Rightarrow> True
      | Some op \<Rightarrow> if OperationID op = [] then True else \<not> hasSupportedRequestBody op)"

text \<open>\<open>url.Parse\<close> and \<open>Host\<close>: \<open>None\<close> where parsing fails.\<close>

definition extractHostFromOpenAPISpec :: "(string \<Rightarrow> string option) \<Rightarrow> document \<Rightarrow> string" where
  "extractHostFromOpenAPISpec url_host spec =
     (case servers spec of
        [] \<Rightarrow> ''localhost''
      | serverURL # _ \<Rightarrow>
          (case url_host serverURL of
             Some h \<Rightarrow> if h \<noteq> [] then h else ''localhost''
           | None \<Rightarrow> ''localhost''))"

definition structured :: "tool_registry_config \<Rightarrow> mcp_tool \<times> tool_config \<Rightarrow> mcp_tool \<times> tool_config" where
  "structured config tc =
     (let (t, c) = tc;
          t' = (if OutputSchema t = None \<or> \<not> StructuredOutput config then t\<lparr>OutputSchema := None\<rparr> else t)
      in (t', c\<lparr>toolResponseConfig := \<lparr>UseStructuredOutput = (OutputSchema t' \<noteq> None)\<rparr>\<rparr>))"

text \<open>One iteration of the inner loop.\<close>

definition load_operation ::
  "unicode_tables \<Rightarrow> nat \<Rightarrow> schemas \<Rightarrow> tool_registry_config \<Rightarrow> string \<Rightarrow> string \<Rightarrow>
   tool_registry \<Rightarrow> string \<times> operation option \<Rightarrow> load_stop + tool_registry" where
  "load_operation U fuel S config host path r mo =
     (case snd mo of
        None \<Rightarrow> Inr r
      | Some op \<Rightarrow>
          if shouldSkipOperation (Some op) then Inr r
          else
            map_right
              (\<lambda>tc. let (t, c) = structured config tc in register_or_skip r (Some t) (Some c))
              (generateMCPToolFromApiOperation U fuel S op (fst mo) path host (OperationID op)))"

fun load_operations ::
  "unicode_tables \<Rightarrow> nat \<Rightarrow> schemas \<Rightarrow> tool_registry_config \<Rightarrow> string \<Rightarrow> tool_registry \<Rightarrow>
   (string \<times> string \<times> operation option) list \<Rightarrow> load_stop + tool_registry" where
  "load_operations U fuel S config host r [] = Inr r"
| "load_operations U fuel S config host r (pmo # rest) =
     bind_right (load_operation U fuel S config host (fst pmo) r (snd pmo))
       (\<lambda>r'. load_operations U fuel S config host r' rest)"

definition operations_of :: "document \<Rightarrow> (string \<times> string \<times> operation option) list" where
  "operations_of spec = concat (map (\<lambda>(path, ops). map (Pair path) ops) (paths spec))"

definition generateMCPToolsFromSpec ::
  "unicode_tables \<Rightarrow> (string \<Rightarrow> string option) \<Rightarrow> nat \<Rightarrow> document \<Rightarrow> tool_registry_config \<Rightarrow>
   load_stop + tool_registry" where
  "generateMCPToolsFromSpec U url_host fuel spec config =
     load_operations U fuel (schemas_of spec) config (extractHostFromOpenAPISpec url_host spec)
       newToolRegistry (operations_of spec)"

subsection \<open>The files\<close>

text \<open>
  The file system and the parser are the record \<open>file_access\<close>: \<open>filepath.Glob\<close> (\<open>None\<close>: a malformed
  pattern), \<open>os.Stat\<close> (\<open>None\<close>: an error, else whether it is a directory) and \<open>LoadFromFile\<close>.
\<close>

record file_access =
  glob :: "string \<Rightarrow> string list option"
  stat_is_dir :: "string \<Rightarrow> bool option"
  load_file :: "string \<Rightarrow> document option"
  url_host :: "string \<Rightarrow> string option"

datatype load_error = InvalidGlob string | NoFilesMatched string | NoTools string | Stopped load_stop

definition registerLoadedTools :: "tool_registry \<Rightarrow> tool_registry \<Rightarrow> tool_registry" where
  "registerLoadedTools r loaded =
     foldl (\<lambda>r t. case configs loaded (Name t) of
                    None \<Rightarrow> r
                  | Some c \<Rightarrow> register_or_skip r (Some t) (Some c))
       r (tools loaded)"

definition load_path ::
  "unicode_tables \<Rightarrow> file_access \<Rightarrow> nat \<Rightarrow> tool_registry_config \<Rightarrow> tool_registry \<Rightarrow> string \<Rightarrow>
   load_stop + tool_registry" where
  "load_path U fa fuel config r path =
     (case stat_is_dir fa path of
        Some False \<Rightarrow>
          (case load_file fa path of
             None \<Rightarrow> Inr r
           | Some spec \<Rightarrow>
               map_right (registerLoadedTools r)
                 (generateMCPToolsFromSpec U (url_host fa) fuel spec config))
      | _ \<Rightarrow> Inr r)"

fun load_paths ::
  "unicode_tables \<Rightarrow> file_access \<Rightarrow> nat \<Rightarrow> tool_registry_config \<Rightarrow> tool_registry \<Rightarrow> string list \<Rightarrow>
   load_stop + tool_registry" where
  "load_paths U fa fuel config r [] = Inr r"
| "load_paths U fa fuel config r (path # rest) =
     bind_right (load_path U fa fuel config r path) (\<lambda>r'. load_paths U fa fuel config r' rest)"

definition newToolRegistryFromConfig ::
  "unicode_tables \<Rightarrow> file_access \<Rightarrow> nat \<Rightarrow> tool_registry_config \<Rightarrow> load_error + tool_registry" where
  "newToolRegistryFromConfig U fa fuel config =
     (case glob fa (OpenAPISpecPattern config) of
        None \<Rightarrow> Inl (InvalidGlob (OpenAPISpecPattern config))
      | Some matches \<Rightarrow>
          if matches = [] then Inl (NoFilesMatched (OpenAPISpecPattern config))
          else
            (case load_paths U fa fuel config newToolRegistry matches of
               Inl e \<Rightarrow> Inl (Stopped e)
             | Inr r \<Rightarrow>
                 if registry_Len r = 0 then Inl (NoTools (OpenAPISpecPattern config)) else Inr r))"

subsection \<open>How deep a schema is\<close>

text \<open>The pointers a schema leads to. A schema is translated exactly when no chain of them is infinite.\<close>

definition children :: "schemas \<Rightarrow> pointer \<Rightarrow> pointer list" where
  "children S p =
     (case sc_Properties (S p) of None \<Rightarrow> [] | Some ps \<Rightarrow> map snd (present_properties ps)) @
     (case sc_Items (S p) of None \<Rightarrow> [] | Some q \<Rightarrow> [q])"

lemma all_right_Inr:
  "(\<forall>x \<in> set xs. \<exists>y. x = Inr y) \<longleftrightarrow> (\<exists>ys. all_right xs = Inr ys)"
  by (induction xs) (auto split: sum.splits)

lemma all_right_Inl: "all_right xs = Inl e \<Longrightarrow> Inl e \<in> set xs"
  by (induction xs) (auto split: sum.splits)

lemma bind_right_simps [simp]:
  "bind_right (Inl e) f = Inl e" "bind_right (Inr x) f = f x"
  "map_right g (Inl e) = Inl e" "map_right g (Inr x) = Inr (g x)"
  by (simp_all add: bind_right_def map_right_def)

lemma map_right_Inr: "map_right f x = Inr z \<longleftrightarrow> (\<exists>y. x = Inr y \<and> z = f y)"
  by (cases x) auto

lemma bind_right_Inr: "bind_right x f = Inr z \<longleftrightarrow> (\<exists>y. x = Inr y \<and> f y = Inr z)"
  by (cases x) auto

lemma translate_Suc_Inr:
  "(\<exists>m. openApiSchemaToMap (Suc fuel) S p = Inr m) \<longleftrightarrow>
     (\<forall>q \<in> set (children S p). \<exists>m. openApiSchemaToMap fuel S q = Inr m)"
proof -
  have props: "(\<exists>ms. all_right (map (\<lambda>np. openApiSchemaToMap fuel S (snd np)) (present_properties ps)) = Inr ms)
      \<longleftrightarrow> (\<forall>x \<in> set (present_properties ps). \<exists>m. openApiSchemaToMap fuel S (snd x) = Inr m)" for ps
    by (simp add: all_right_Inr [symmetric])
  show ?thesis
    by (cases "sc_Properties (S p)"; cases "sc_Items (S p)")
      (simp_all add: bind_right_Inr map_right_Inr children_def ball_Un props [symmetric] del: all_right.simps,
        blast+)
qed

lemma translate_error: "openApiSchemaToMap fuel S p = Inl e \<Longrightarrow> e = OutOfFuel"
proof (induction fuel arbitrary: p e)
  case 0
  then show ?case by simp
next
  case (Suc fuel)
  then show ?case
    by (auto simp: bind_right_def map_right_def split: option.splits sum.splits dest!: all_right_Inl)
qed

text \<open>Enough fuel: the height of the schema, for any measure that drops along the pointers.\<close>

lemma translate_ranked:
  assumes "\<And>p q. q \<in> set (children S p) \<Longrightarrow> rank q < (rank p :: nat)" and "rank p < fuel"
  shows "\<exists>m. openApiSchemaToMap fuel S p = Inr m"
  using assms(2)
proof (induction fuel arbitrary: p)
  case 0
  then show ?case by simp
next
  case (Suc fuel)
  have "\<forall>q \<in> set (children S p). \<exists>m. openApiSchemaToMap fuel S q = Inr m"
    using assms(1) Suc by (meson less_Suc_eq_le order_less_le_trans)
  then show ?case by (simp only: translate_Suc_Inr)
qed

text \<open>No amount of fuel is enough where every schema of a set leads back into the set.\<close>

lemma translate_cyclic:
  assumes "\<And>p. p \<in> C \<Longrightarrow> \<exists>q \<in> set (children S p). q \<in> C" and "p \<in> C"
  shows "openApiSchemaToMap fuel S p = Inl OutOfFuel"
proof -
  have "\<nexists>m. openApiSchemaToMap fuel S p = Inr m"
    using assms(2)
  proof (induction fuel arbitrary: p)
    case 0
    then show ?case by simp
  next
    case (Suc fuel)
    then obtain q where "q \<in> set (children S p)" "q \<in> C" using assms(1) by blast
    with Suc.IH show ?case unfolding translate_Suc_Inr by blast
  qed
  then show ?thesis
    by (cases "openApiSchemaToMap fuel S p") (auto dest: translate_error)
qed

text \<open>More fuel never hurts, and some fuel is enough exactly for the schemas from which every
  chain of pointers ends.\<close>

lemma translate_more_fuel:
  "\<exists>m. openApiSchemaToMap fuel S p = Inr m \<Longrightarrow> fuel \<le> fuel' \<Longrightarrow> \<exists>m. openApiSchemaToMap fuel' S p = Inr m"
proof (induction fuel arbitrary: p fuel')
  case 0
  then show ?case by simp
next
  case (Suc fuel)
  from Suc.prems(2) obtain k where k: "fuel' = Suc k" "fuel \<le> k" by (cases fuel') auto
  from Suc.prems(1) show ?case unfolding k(1) translate_Suc_Inr using Suc.IH [OF _ k(2)] by blast
qed

definition finite_height :: "schemas \<Rightarrow> pointer \<Rightarrow> bool" where
  "finite_height S = Wellfounded.accp (\<lambda>q p. q \<in> set (children S p))"

lemma translate_finite_height:
  assumes "\<forall>q \<in> Q. \<exists>fuel m. openApiSchemaToMap fuel S q = Inr m" and "finite Q"
  shows "\<exists>fuel. \<forall>q \<in> Q. \<exists>m. openApiSchemaToMap fuel S q = Inr m"
  using assms(2,1)
proof (induction Q)
  case empty
  then show ?case by simp
next
  case (insert q Q)
  then obtain f1 f2 m2 where 1: "\<forall>q \<in> Q. \<exists>m. openApiSchemaToMap f1 S q = Inr m"
    and 2: "openApiSchemaToMap f2 S q = Inr m2" by (metis insert_iff)
  have "\<exists>m. openApiSchemaToMap (max f1 f2) S x = Inr m" if "x \<in> insert q Q" for x
  proof (cases "x = q")
    case True
    show ?thesis unfolding True by (rule translate_more_fuel [of f2]) (rule exI, rule 2, rule max.cobounded2)
  next
    case False
    with that 1 have "\<exists>m. openApiSchemaToMap f1 S x = Inr m" by blast
    then show ?thesis by (rule translate_more_fuel) (rule max.cobounded1)
  qed
  then show ?case by blast
qed

lemma translate_returns_iff: "(\<exists>fuel m. openApiSchemaToMap fuel S p = Inr m) \<longleftrightarrow> finite_height S p"
proof
  assume "\<exists>fuel m. openApiSchemaToMap fuel S p = Inr m"
  then obtain fuel where "\<exists>m. openApiSchemaToMap fuel S p = Inr m" by blast
  then show "finite_height S p"
  proof (induction fuel arbitrary: p)
    case 0
    then show ?case by simp
  next
    case (Suc fuel)
    then show ?case unfolding translate_Suc_Inr finite_height_def by (blast intro: accp.accI)
  qed
next
  assume "finite_height S p"
  then show "\<exists>fuel m. openApiSchemaToMap fuel S p = Inr m"
    unfolding finite_height_def
  proof (induction rule: accp.induct)
    case (accI p)
    then have "\<forall>q \<in> set (children S p). \<exists>fuel m. openApiSchemaToMap fuel S q = Inr m" by blast
    then obtain fuel where "\<forall>q \<in> set (children S p). \<exists>m. openApiSchemaToMap fuel S q = Inr m"
      using translate_finite_height [of "set (children S p)" S] by blast
    then have "\<exists>m. openApiSchemaToMap (Suc fuel) S p = Inr m" by (simp only: translate_Suc_Inr)
    then show ?case by blast
  qed
qed

subsection \<open>What a generated tool looks like\<close>

fun members_of :: "schema_value \<Rightarrow> (string \<times> schema_value) list" where
  "members_of (SVMap kvs) = kvs"
| "members_of _ = []"

definition property_names :: "schema_value \<Rightarrow> string list" where
  "property_names v =
     (case map_of (members_of v) ''properties'' of None \<Rightarrow> [] | Some ps \<Rightarrow> map fst (members_of ps))"

definition required_names :: "schema_value \<Rightarrow> string list" where
  "required_names v =
     (case map_of (members_of v) ''required'' of Some (SVStrings ns) \<Rightarrow> ns | _ \<Rightarrow> [])"

text \<open>An entry of \<open>Parameters\<close> as the request builder expects it: no type assertion on it fails.\<close>

definition parameter_entry :: "gvalue \<Rightarrow> bool" where
  "parameter_entry v \<longleftrightarrow> (\<exists>i q. v = VMap [(''in'', VString i), (''required'', VBool q)])"

lemma parameter_entryI [simp]:
  "parameter_entry (VMap [(''in'', VString i), (''required'', VBool q)])"
  unfolding parameter_entry_def by blast

definition built_ok :: "built \<Rightarrow> bool" where
  "built_ok b \<longleftrightarrow>
     distinct (map fst (inputSchemaProps b)) \<and> distinct (map fst (endpointParams b)) \<and>
     (\<forall>n v. map_of (endpointParams b) n = Some v \<longrightarrow> map_of (inputSchemaProps b) n \<noteq> None) \<and>
     (\<forall>n \<in> set (requiredFields b). map_of (inputSchemaProps b) n \<noteq> None) \<and>
     (\<forall>n v. map_of (endpointParams b) n = Some v \<longrightarrow> parameter_entry v)"

lemma nothing_built_ok: "built_ok nothing_built"
  by (simp add: built_ok_def nothing_built_def)

lemma add_parameter_ok:
  assumes "built_ok b" and "add_parameter fuel S b param = Inr b'"
  shows "built_ok b'"
  using assms
  by (auto simp: add_parameter_def map_right_Inr built_ok_def update_conv'
      distinct_update simp del: map_of_eq_Some_iff map_of_eq_None_iff
      split: if_splits)

lemma add_parameters_ok: "built_ok b \<Longrightarrow> add_parameters fuel S b ps = Inr b' \<Longrightarrow> built_ok b'"
proof (induction ps arbitrary: b)
  case Nil
  then show ?case by simp
next
  case (Cons p ps)
  then show ?case by (cases p) (auto simp: bind_right_Inr dest: add_parameter_ok)
qed

lemma add_body_ok: "built_ok b \<Longrightarrow> add_body fuel S b body = Inr (b', ct) \<Longrightarrow> built_ok b'"
  by (auto simp: add_body_def map_right_Inr built_ok_def update_conv' distinct_update
      simp del: map_of_eq_Some_iff map_of_eq_None_iff split: option.splits if_splits)

lemma property_names_input [simp]: "property_names (input_schema b) = map fst (inputSchemaProps b)"
  by (simp add: property_names_def input_schema_def)
    (simp add: comp_def case_prod_beta)

lemma required_names_input:
  "built_ok b \<Longrightarrow> required_names (input_schema b) = requiredFields b"
  by (cases "requiredFields b") (auto simp: required_names_def input_schema_def built_ok_def)

text \<open>
  The agreement of a tool with its configuration: what the tool declares to the client is what the
  request builder and the response handler act on.
\<close>

definition agrees :: "mcp_tool \<Rightarrow> tool_config \<Rightarrow> bool" where
  "agrees t c \<longleftrightarrow>
     distinct (map fst (Parameters (Endpoint c))) \<and>
     (\<forall>(n, v) \<in> set (Parameters (Endpoint c)). parameter_entry v \<and> n \<in> set (property_names (InputSchema t))) \<and>
     set (required_names (InputSchema t)) \<subseteq> set (property_names (InputSchema t)) \<and>
     (UseStructuredOutput (toolResponseConfig c) \<longleftrightarrow> OutputSchema t \<noteq> None)"

lemma generated_tool:
  assumes "generateMCPToolFromApiOperation U fuel S op m path host n = Inr (t, c)"
  shows "Name t = n" and "PathTemplate (Endpoint c) = path" and "Host (Endpoint c) = host"
    and "Method (Endpoint c) = to_lower U m" and "agrees (fst (structured cfg (t, c))) (snd (structured cfg (t, c)))"
proof -
  from assms obtain b1 b ct out where b1: "add_parameters fuel S nothing_built (op_Parameters op) = Inr b1"
    and b: "add_body fuel S b1 (op_RequestBody op) = Inr (b, ct)"
    and tc: "t = \<lparr>Name = n, Title = Summary op, Description = op_Description op,
                  InputSchema = input_schema b, OutputSchema = out\<rparr>"
      "c = \<lparr>Endpoint = \<lparr>Host = host, Method = to_lower U m, PathTemplate = path,
                        Parameters = endpointParams b, ContentType = ct\<rparr>,
            toolResponseConfig = \<lparr>UseStructuredOutput = False\<rparr>\<rparr>"
    by (auto simp: generateMCPToolFromApiOperation_def bind_right_Inr map_right_Inr)
  have ok: "built_ok b" by (rule add_body_ok [OF add_parameters_ok [OF nothing_built_ok b1] b])
  from tc show "Name t = n" "PathTemplate (Endpoint c) = path" "Host (Endpoint c) = host"
    "Method (Endpoint c) = to_lower U m" by simp_all
  have "parameter_entry v \<and> k \<in> set (map fst (inputSchemaProps b))"
    if "(k, v) \<in> set (endpointParams b)" for k v
  proof -
    from ok that have "map_of (endpointParams b) k = Some v" by (simp add: built_ok_def)
    with ok have "parameter_entry v" "map_of (inputSchemaProps b) k \<noteq> None"
      unfolding built_ok_def by blast+
    then show ?thesis by (simp add: map_of_eq_None_iff)
  qed
  moreover have "k \<in> set (map fst (inputSchemaProps b))" if "k \<in> set (requiredFields b)" for k
    using ok that by (auto simp: built_ok_def map_of_eq_None_iff)
  moreover have "distinct (map fst (endpointParams b))" using ok by (simp add: built_ok_def)
  ultimately show "agrees (fst (structured cfg (t, c))) (snd (structured cfg (t, c)))"
    using required_names_input [OF ok] by (auto simp: structured_def tc agrees_def Let_def)
qed

subsection \<open>The registry of a document and of a set of files\<close>

lemma load_operation_agrees:
  assumes "reg.all_stored agrees r" and "load_operation U fuel S config host path r mo = Inr r'"
  shows "reg.all_stored agrees r'"
proof (cases "r' = r")
  case True
  with assms show ?thesis by simp
next
  case False
  then obtain op t c where "generateMCPToolFromApiOperation U fuel S op (fst mo) path host (OperationID op) = Inr (t, c)"
    "r' = register_or_skip r (Some (fst (structured config (t, c)))) (Some (snd (structured config (t, c))))"
    using assms(2)
    by (auto simp: load_operation_def map_right_Inr case_prod_beta split: option.splits if_splits)
  with generated_tool(5) reg.all_stored_insert [OF assms(1)] show ?thesis by simp
qed

lemma load_operations_agrees:
  "reg.all_stored agrees r \<Longrightarrow> load_operations U fuel S config host r ops = Inr r' \<Longrightarrow>
     reg.all_stored agrees r'"
  by (induction ops arbitrary: r) (auto simp: bind_right_Inr dest: load_operation_agrees)

lemma generated_agrees:
  "generateMCPToolsFromSpec U uh fuel spec config = Inr r \<Longrightarrow> reg.all_stored agrees r"
  unfolding generateMCPToolsFromSpec_def by (rule load_operations_agrees [OF reg.all_stored_empty])

definition stored_pairs :: "tool_registry \<Rightarrow> (mcp_tool \<times> tool_config) list" where
  "stored_pairs r = List.map_filter (\<lambda>t. map_option (Pair t) (configs r (Name t))) (tools r)"

lemma set_stored_pairs: "(t, c) \<in> set (stored_pairs r) \<longleftrightarrow> reg.stored r t c"
  by (auto simp: stored_pairs_def map_filter_def reg.stored_def Tools_def GetConfig_def image_iff
      intro!: bexI [where x = t])

lemma registerLoadedTools_load_from:
  "registerLoadedTools r loaded = reg.load_from r (stored_pairs loaded)"
proof -
  have "foldl (\<lambda>r t. case configs loaded (Name t) of
            None \<Rightarrow> r | Some c \<Rightarrow> register_or_skip r (Some t) (Some c)) r ts =
        reg.load_from r (List.map_filter (\<lambda>t. map_option (Pair t) (configs loaded (Name t))) ts)" for ts
    by (induction ts arbitrary: r)
      (auto simp: map_filter_simps reg.load_from_def split: option.split)
  then show ?thesis by (simp add: registerLoadedTools_def stored_pairs_def)
qed

lemma registerLoadedTools_agrees:
  "reg.all_stored P r \<Longrightarrow> reg.all_stored P loaded \<Longrightarrow> reg.all_stored P (registerLoadedTools r loaded)"
  unfolding registerLoadedTools_load_from
  by (rule reg.all_stored_load_from) (auto simp: set_stored_pairs reg.all_stored_def)

lemma load_path_agrees:
  "reg.all_stored agrees r \<Longrightarrow> load_path U fa fuel config r path = Inr r' \<Longrightarrow> reg.all_stored agrees r'"
  by (auto simp: load_path_def map_right_Inr split: option.splits bool.splits
      intro: registerLoadedTools_agrees generated_agrees)

lemma load_paths_agrees:
  "reg.all_stored agrees r \<Longrightarrow> load_paths U fa fuel config r ps = Inr r' \<Longrightarrow> reg.all_stored agrees r'"
  by (induction ps arbitrary: r) (auto simp: bind_right_Inr dest: load_path_agrees)

lemma newToolRegistryFromConfig_agrees:
  "newToolRegistryFromConfig U fa fuel config = Inr r \<Longrightarrow> reg.all_stored agrees r \<and> tools r \<noteq> []"
  by (auto simp: newToolRegistryFromConfig_def registry_Len_def
      split: option.splits sum.splits if_splits
      intro: load_paths_agrees [OF reg.all_stored_empty])

subsection \<open>Which response schema is chosen\<close>

text \<open>The successful responses with a JSON schema, with their codes.\<close>

definition success_entry :: "string \<times> response option \<Rightarrow> (int \<times> pointer) option" where
  "success_entry sr =
     (case (atoi (fst sr), Option.bind (snd sr) findJSONSchemaInResponse) of
        (Some code, Some p) \<Rightarrow> if 200 \<le> code \<and> code \<le> 299 then Some (code, p) else None
      | _ \<Rightarrow> None)"

lemma atoi_default: "atoi ''default'' = None"
  by code_simp

lemma note_response_candidates:
  "candidates (note_response f st r) =
     candidates f @ (case success_entry (st, r) of None \<Rightarrow> [] | Some e \<Rightarrow> [e])"
  using atoi_default by (auto simp: note_response_def success_entry_def split: option.split)

lemma candidates_foldl:
  "candidates (foldl (\<lambda>f (st, r). note_response f st r) f rs) =
     candidates f @ List.map_filter success_entry rs"
  by (induction rs arbitrary: f)
    (auto simp: map_filter_simps note_response_candidates split: option.split)

lemma hd_sort_least:
  fixes xs :: "'a::linorder list"
  assumes "xs \<noteq> []"
  shows "hd (sort xs) \<in> set xs" and "x \<in> set xs \<Longrightarrow> hd (sort xs) \<le> x"
proof -
  have "sort xs \<noteq> []" using assms by (metis set_empty set_sort)
  then obtain y ys where y: "sort xs = y # ys" by (cases "sort xs") auto
  have "set (y # ys) = set xs" unfolding y [symmetric] by simp
  moreover have "sorted (y # ys)" unfolding y [symmetric] by simp
  ultimately show "hd (sort xs) \<in> set xs" "x \<in> set xs \<Longrightarrow> hd (sort xs) \<le> x"
    unfolding y by auto
qed

lemma lowest_success_chosen:
  assumes "e \<in> set rs" and "success_entry e \<noteq> None"
  shows "\<exists>e' \<in> set rs. \<exists>code p. success_entry e' = Some (code, p) \<and>
           findJSONSchemaFromResponses (Some rs) = Some p \<and>
           (\<forall>e'' \<in> set rs. \<forall>code' p'. success_entry e'' = Some (code', p') \<longrightarrow> code \<le> code')"
proof -
  let ?c = "List.map_filter success_entry rs"
  have mem: "x \<in> set ?c \<longleftrightarrow> (\<exists>e \<in> set rs. success_entry e = Some x)" for x
    by (auto simp: map_filter_def image_iff) force
  with assms have ne: "?c \<noteq> []" by (metis empty_iff list.set(1) option.exhaust)
  define code where "code = hd (sort (map fst ?c))"
  have least: "code \<in> set (map fst ?c)" "x \<in> set (map fst ?c) \<Longrightarrow> code \<le> x" for x
    unfolding code_def by (rule hd_sort_least; use ne in simp)+
  from least(1) have "code \<in> dom (map_of (rev ?c))" by (simp add: dom_map_of_conv_image_fst)
  then obtain p where p: "map_of (rev ?c) code = Some p" by auto
  then have "(code, p) \<in> set ?c" by (auto dest: map_of_SomeD)
  then obtain e' where e': "e' \<in> set rs" "success_entry e' = Some (code, p)" using mem by blast
  have "findJSONSchemaFromResponses (Some rs) = Some p"
    using p ne by (simp add: findJSONSchemaFromResponses_def candidates_foldl no_schemas_def code_def)
  moreover have "code \<le> code'" if "e'' \<in> set rs" "success_entry e'' = Some (code', p')" for e'' code' p'
    using that mem by (intro least(2)) force
  ultimately show ?thesis using e' by blast
qed

end
