(* ===== verification/Server.thy ===== *)
theory Server
  imports Stream_State Openapi
begin

section \<open>The server (\<open>server.go\<close>)\<close>

text \<open>
  \<open>Process\<close>, the loop that receives, handles and sends on one stream; the configuration and its
  validation; and \<open>RunServer\<close>, which turns a configuration into a server on a socket. gRPC is a
  parameter: the list of events \<open>Recv\<close> returns, a function that says whether sending a message
  fails, and what \<open>Serve\<close> returns.
\<close>

subsection \<open>Process\<close>

datatype event =
  Received processing_request
| StreamClosed
| ReceiveFailed string

datatype process_error =
  ReceiveError string
| SendError string
| Violation stream_error

text \<open>\<open>Blocked\<close>: the loop waits in \<open>Recv\<close> after the last event.\<close>

datatype outcome = Returned "process_error option" | Blocked

type_synonym sender = "processing_response list \<Rightarrow> processing_response \<Rightarrow> string option"

text \<open>The loop over the replies: what has been sent, and the error that stopped it.\<close>

fun send_all ::
  "sender \<Rightarrow> processing_response list \<Rightarrow> processing_response list \<Rightarrow>
   processing_response list \<times> string option" where
  "send_all send sent [] = (sent, None)"
| "send_all send sent (rep # reps) =
     (case send sent rep of
        Some err \<Rightarrow> (sent, Some err)
      | None \<Rightarrow> send_all send (sent @ [rep]) reps)"

fun process_loop ::
  "runtime \<Rightarrow> sender \<Rightarrow> stream \<times> stream_state \<Rightarrow> processing_response list \<Rightarrow> event list \<Rightarrow>
   processing_response list \<times> outcome" where
  "process_loop rt send c sent [] = (sent, Blocked)"
| "process_loop rt send c sent (StreamClosed # es) = (sent, Returned None)"
| "process_loop rt send c sent (ReceiveFailed err # es) = (sent, Returned (Some (ReceiveError err)))"
| "process_loop rt send c sent (Received req # es) =
     (case handle rt c req of
        Inl err \<Rightarrow> (sent, Returned (Some (Violation err)))
      | Inr (c', reps) \<Rightarrow>
          (case send_all send sent reps of
             (sent', Some err) \<Rightarrow> (sent', Returned (Some (SendError err)))
           | (sent', None) \<Rightarrow> process_loop rt send c' sent' es))"

definition initial :: "ext_proc_server \<Rightarrow> stream \<times> stream_state" where
  "initial s = (\<lparr>server = s, buf = []\<rparr>, AwaitingRequestHeaders)"

definition Process ::
  "runtime \<Rightarrow> ext_proc_server \<Rightarrow> sender \<Rightarrow> event list \<Rightarrow> processing_response list \<times> outcome" where
  "Process rt s send es = process_loop rt send (initial s) [] es"

subsection \<open>Configuration\<close>

record server_config =
  SocketPath :: string
  ToolRegistryConfig :: "tool_registry_config option"
  ServerInfo :: server_info
  AllowedHosts :: "string list"

datatype config_error = RegistryConfigNil | SocketPathEmpty | BadAllowedHost string

definition validate :: "server_config \<Rightarrow> config_error option" where
  "validate c =
     (if ToolRegistryConfig c = None then Some RegistryConfigNil
      else if SocketPath c = [] then Some SocketPathEmpty
      else map_option BadAllowedHost (find (\<lambda>h. \<not> validAllowedHost h) (AllowedHosts c)))"

subsection \<open>RunServer\<close>

datatype run_error =
  ContextMissing
| ConfigMissing
| ConfigInvalid config_error
| LoadFailed load_error
| FilterFailed registry_error
| SocketError string
| ServeFailed string

text \<open>The server value that is registered with gRPC.\<close>

definition new_server :: "unicode_tables \<Rightarrow> server_config \<Rightarrow> tool_registry \<Rightarrow> ext_proc_server" where
  "new_server U cfg r =
     \<lparr>registry = r, serverInfo = ServerInfo cfg,
      allowedHosts =
        newHostAllowlist U (if AllowedHosts cfg = [] then defaultAllowedHosts else AllowedHosts cfg)\<rparr>"

text \<open>
  \<open>configured_server\<close> is the part before the socket: the configuration is checked, the documents are
  loaded and filtered, and only then is there a server, with the path it will listen on.
\<close>

definition configured_server ::
  "unicode_tables \<Rightarrow> file_access \<Rightarrow> nat \<Rightarrow> server_config option \<Rightarrow>
   run_error + string \<times> ext_proc_server" where
  "configured_server U fa fuel cfgp =
     (case cfgp of
        None \<Rightarrow> Inl ConfigMissing
      | Some cfg \<Rightarrow>
          (case (validate cfg, ToolRegistryConfig cfg) of
             (None, Some rc) \<Rightarrow>
               (case newToolRegistryFromConfig U fa fuel rc of
                  Inl e \<Rightarrow> Inl (LoadFailed e)
                | Inr loaded \<Rightarrow>
                    (case (if ToolAllowlist rc \<noteq> [] then FilterByAllowlist loaded (ToolAllowlist rc)
                           else Inr loaded) of
                       Inl e \<Rightarrow> Inl (FilterFailed e)
                     | Inr r \<Rightarrow> Inr (SocketPath cfg, new_server U cfg r)))
           | (Some e, _) \<Rightarrow> Inl (ConfigInvalid e)
           | (None, None) \<Rightarrow> Inl (ConfigInvalid RegistryConfigNil)))"

text \<open>
  The operating system and gRPC are parameters: removing a file, listening on a socket, and what
  \<open>Serve\<close> returns for a registered server. \<open>run_effect\<close> is what the call does, in order; closing the
  listener is the deferred call, which comes last.
\<close>

datatype remove_error = NotExist | RemoveError string

record socket_ops =
  remove_file :: "string \<Rightarrow> remove_error option"
  listen_unix :: "string \<Rightarrow> string option"
  serve_grpc :: "ext_proc_server \<Rightarrow> string option"

datatype run_effect =
  RemovedFile string
| Listening string
| Registered ext_proc_server
| Serving
| ListenerClosed

definition serve_on_socket ::
  "socket_ops \<Rightarrow> string \<Rightarrow> ext_proc_server \<Rightarrow> run_effect list \<times> run_error option" where
  "serve_on_socket os path s =
     (case remove_file os path of
        Some (RemoveError err) \<Rightarrow> ([], Some (SocketError err))
      | removed \<Rightarrow>
          let cleared = (if removed = None then [RemovedFile path] else []) in
          (case listen_unix os path of
             Some err \<Rightarrow> (cleared, Some (SocketError err))
           | None \<Rightarrow>
               (cleared @ [Listening path, Registered s, Serving, ListenerClosed],
                map_option ServeFailed (serve_grpc os s))))"

definition RunServer ::
  "unicode_tables \<Rightarrow> file_access \<Rightarrow> nat \<Rightarrow> socket_ops \<Rightarrow> unit option \<Rightarrow> server_config option \<Rightarrow>
   run_effect list \<times> run_error option" where
  "RunServer U fa fuel os ctx cfgp =
     (if ctx = None then ([], Some ContextMissing)
      else
        (case configured_server U fa fuel cfgp of
           Inl e \<Rightarrow> ([], Some e)
         | Inr (path, s) \<Rightarrow> serve_on_socket os path s))"

subsection \<open>The loop is the machine\<close>

lemma send_all_ok: "(\<And>xs x. send xs x = None) \<Longrightarrow> send_all send sent reps = (sent @ reps, None)"
  by (induction reps arbitrary: sent) simp_all

lemma process_loop_feed:
  assumes "\<And>xs x. send xs x = None"
  shows "process_loop rt send c sent (map Received reqs @ es) =
     (case feed (handle rt) c reqs of
        Inr (c', out) \<Rightarrow> process_loop rt send c' (sent @ out) es
      | Inl _ \<Rightarrow> process_loop rt send c sent (map Received reqs @ es))"
proof (induction reqs arbitrary: c sent)
  case Nil
  then show ?case by simp
next
  case (Cons req reqs)
  show ?case
  proof (cases "handle rt c req")
    case (Inl e)
    then show ?thesis by simp
  next
    case (Inr x)
    obtain c1 o1 where x: "x = (c1, o1)" by (cases x)
    show ?thesis
      using Inr x Cons.IH [of c1 "sent @ o1"] send_all_ok [of send, OF assms]
      by (cases "feed (handle rt) c1 reqs") (auto split: sum.splits)
  qed
qed

text \<open>What is sent up to a violation, which ends the loop.\<close>

lemma process_loop_violation:
  assumes "\<And>xs x. send xs x = None" and "feed (handle rt) c reqs = Inr (c', out)"
    and "\<not> accepts (snd c') req"
  shows "\<exists>expected. process_loop rt send c sent (map Received reqs @ Received req # es) =
     (sent @ out, Returned (Some (Violation (ProtocolViolation expected req))))"
proof -
  obtain expected where "handle rt c' req = Inl (ProtocolViolation expected req)"
    using handle_rejects [of "snd c'" req rt "fst c'"] assms(3) by auto
  with process_loop_feed [of send rt c sent reqs "Received req # es"] assms(1,2) show ?thesis by simp
qed

subsection \<open>The effects of a start\<close>

text \<open>\<open>starts\<close>: the call got as far as registering the server with gRPC.\<close>

definition starts :: "run_effect list \<times> run_error option \<Rightarrow> ext_proc_server \<Rightarrow> bool" where
  "starts res s \<longleftrightarrow> Registered s \<in> set (fst res)"

text \<open>The socket is served, or the call fails before there is a listener.\<close>

lemma serve_on_socket_cases:
  "(\<exists>err cleared. serve_on_socket os path s = (cleared, Some (SocketError err)) \<and>
      set cleared \<subseteq> {RemovedFile path}) \<or>
   (\<exists>cleared. serve_on_socket os path s =
      (cleared @ [Listening path, Registered s, Serving, ListenerClosed],
       map_option ServeFailed (serve_grpc os s)) \<and> set cleared \<subseteq> {RemovedFile path})"
  by (auto simp: serve_on_socket_def Let_def split: option.split remove_error.split)

lemma serve_on_socket_starts: "starts (serve_on_socket os path s) s' \<Longrightarrow> s' = s"
  using serve_on_socket_cases [of os path s] by (auto simp: starts_def)

lemma RunServer_starts:
  "starts (RunServer U fa fuel os ctx cfgp) s \<Longrightarrow>
     \<exists>path. configured_server U fa fuel cfgp = Inr (path, s)"
  by (auto simp: RunServer_def split: if_splits sum.splits dest: serve_on_socket_starts)
    (simp_all add: starts_def)

subsection \<open>What a started server guarantees\<close>

lemma started_server:
  assumes "starts (RunServer U fa fuel os ctx (Some cfg)) s"
  obtains rc loaded where "validate cfg = None" "ToolRegistryConfig cfg = Some rc"
    "newToolRegistryFromConfig U fa fuel rc = Inr loaded"
    "(if ToolAllowlist rc \<noteq> [] then FilterByAllowlist loaded (ToolAllowlist rc) else Inr loaded) =
       Inr (registry s)"
    "serverInfo s = ServerInfo cfg"
    "allowedHosts s = newHostAllowlist U (if AllowedHosts cfg = [] then defaultAllowedHosts else AllowedHosts cfg)"
  using RunServer_starts [OF assms]
  by (auto simp: configured_server_def new_server_def split: option.splits sum.splits if_splits)

lemma filtered_agrees:
  assumes "reg.all_stored P r" and "FilterByAllowlist r allowlist = Inr r'"
  shows "reg.all_stored P r'"
proof -
  have inv: "registry_inv r" using assms(1) by (simp add: reg.all_stored_def)
  note f = filter_result [OF inv assms(2)]
  show ?thesis
    using assms(1) f
    by (auto simp: reg.all_stored_def reg.stored_def Tools_def GetConfig_def restrict_map_def
        split: if_splits)
qed

lemma started_agrees:
  assumes "starts (RunServer U fa fuel os ctx (Some cfg)) s"
  shows "reg.all_stored agrees (registry s)"
proof -
  from assms obtain rc loaded where *: "newToolRegistryFromConfig U fa fuel rc = Inr loaded"
    "(if ToolAllowlist rc \<noteq> [] then FilterByAllowlist loaded (ToolAllowlist rc) else Inr loaded) =
       Inr (registry s)"
    by (rule started_server)
  then show ?thesis
    using newToolRegistryFromConfig_agrees [OF *(1)] filtered_agrees by (auto split: if_splits)
qed

lemma started_parameters_distinct:
  assumes "starts (RunServer U fa fuel os ctx (Some cfg)) s" and "GetConfig (registry s) n = Some c"
  shows "distinct (map fst (Parameters (Endpoint c)))"
proof -
  note ok = started_agrees [OF assms(1)]
  then have "registry_inv (registry s)" by (simp add: reg.all_stored_def)
  then obtain t where "reg.stored (registry s) t c" using assms(2) by (rule reg.lookup_stored)
  with ok show ?thesis by (simp add: reg.all_stored_def agrees_def)
qed

end
