(* ===== verification/Demo.thy ===== *)
theory Demo
  imports Server
begin

section \<open>A concrete server\<close>

text \<open>
  Inputs on which the witnesses of the root theory evaluate the model: Unicode tables that map
  nothing (every string of the examples is ASCII), an SDK whose decoder takes the whole body as the
  parameters of a \<open>tools/call\<close> with identifier 1, a registry with the one tool \<open>get\<close>, and the server.
\<close>

definition demo_unicode :: unicode_tables where
  "demo_unicode = \<lparr>lower_table = (\<lambda>r. r), upper_table = (\<lambda>r. r), print_table = (\<lambda>r. True)\<rparr>"

definition demo_request :: "bytes \<Rightarrow> rpc_request" where
  "demo_request body = \<lparr>rq_id = Some (IntId 1), rq_method = methodToolsCall, rq_params = body\<rparr>"

definition demo_encode :: "jsonrpc_id \<Rightarrow> rpc_outcome \<Rightarrow> bytes option" where
  "demo_encode i outcome =
     (case outcome of RpcResult b \<Rightarrow> Some (''result '' @ b)
                    | RpcError code msg data \<Rightarrow> Some (''error '' @ msg))"

definition demo_sdk :: sdk where
  "demo_sdk =
     \<lparr>DecodeMessage = (\<lambda>body. Some (RequestMessage (demo_request body))),
      EncodeMessage = demo_encode,
      unmarshalInitialize = (\<lambda>params. Inr ''2025-06-18''),
      unmarshalError = (\<lambda>params. ''invalid''),
      marshalTool = (\<lambda>t. Some (json_object [(''name'', json_quote (Name t))])),
      marshalImplementation = (\<lambda>n v. Some (json_object [(''name'', json_quote n)])),
      cacheableMembers = (\<lambda>c. [(''ttlMs'', itoa (TTLMs c))]),
      marshalDiscover = (\<lambda>r. Some ''discover''),
      marshalInitialize = (\<lambda>r. Some (in_ProtocolVersion r))\<rparr>"

definition demo_runtime :: runtime where
  "demo_runtime =
     \<lparr>unicode = demo_unicode, rsdk = demo_sdk, header_order = (\<lambda>hs. hs),
      url_hostname = (\<lambda>u. Some u)\<rparr>"

definition demo_endpoint :: endpoint where
  "demo_endpoint =
     \<lparr>Host = ''api'', Method = ''get'', PathTemplate = ''/pets/{id}'',
      Parameters =
        [(''id'', VMap [(''in'', VString ''path''), (''required'', VBool True)]),
         (''tag'', VMap [(''in'', VString ''query''), (''required'', VBool False)])],
      ContentType = []\<rparr>"

definition demo_config :: tool_config where
  "demo_config =
     \<lparr>Endpoint = demo_endpoint, toolResponseConfig = \<lparr>UseStructuredOutput = True\<rparr>\<rparr>"

definition demo_tool :: mcp_tool where
  "demo_tool =
     \<lparr>Name = ''get'', Title = [], Description = [],
      InputSchema =
        SVMap [(''type'', SVString ''object''),
               (''properties'', SVMap [(''id'', SVMap []), (''tag'', SVMap [])]),
               (''required'', SVStrings [''id''])],
      OutputSchema =
        Some (SVMap [(''type'', SVTypes [''object'']),
                     (''description'', SVString ''API response object'')])\<rparr>"

definition demo_registry :: tool_registry where
  "demo_registry = register_or_skip newToolRegistry (Some demo_tool) (Some demo_config)"

definition demo_server :: ext_proc_server where
  "demo_server =
     \<lparr>registry = demo_registry,
      serverInfo = \<lparr>si_Name = ''demo'', si_Version = ''1'', si_Instructions = []\<rparr>,
      allowedHosts = newHostAllowlist demo_unicode []\<rparr>"

definition header_of :: "string \<Rightarrow> string \<Rightarrow> header_value" where
  "header_of k v = \<lparr>hkey = k, raw_value = v\<rparr>"

definition demo_headers :: header_map where
  "demo_headers = [header_of '':method'' ''POST'', header_of '':authority'' ''localhost:8080'']"

definition q :: string where "q = [CHR 0x22]"

definition demo_body :: bytes where
  "demo_body =
     ''{'' @ q @ ''name'' @ q @ '':'' @ q @ ''get'' @ q @ '','' @ q @ ''arguments'' @ q @ '':{'' @
     q @ ''id'' @ q @ '':'' @ q @ ''7'' @ q @ '','' @ q @ ''tag'' @ q @ '':['' @ q @ ''a b'' @ q @ '']}}''"

definition demo_arguments :: "(string \<times> gvalue) list" where
  "demo_arguments = [(''id'', VString ''7''), (''tag'', VList [VString ''a b''])]"

subsection \<open>Evaluations the witnesses share\<close>

lemma demo_name_ok: "validateToolName ''get'' = None"
  by code_simp

lemma demo_registry_inv: "registry_inv demo_registry"
  by (simp add: demo_registry_def register_or_skip_inv registry_inv_new)

lemma demo_config_stored: "GetConfig (registry demo_server) ''get'' = Some demo_config"
  by (simp add: demo_server_def demo_registry_def reg.lookup_insert registry_inv_new reg.lookup_empty
      demo_tool_def demo_name_ok)

definition demo_members :: "(string \<times> json) list" where
  "demo_members =
     [(''name'', JStr ''get''),
      (''arguments'', JObj [(''id'', JStr ''7''), (''tag'', JArr [JStr ''a b''])])]"

lemma demo_parse: "parse_json demo_body = Some (JObj demo_members)"
  by code_simp

lemma demo_fields:
  "field_members call_fields ''name'' demo_members = [JStr ''get'']"
  "field_members call_fields ''arguments'' demo_members =
     [JObj [(''id'', JStr ''7''), (''tag'', JArr [JStr ''a b''])]]"
  by (simp_all add: field_members_def find_field_def call_fields_def demo_members_def)

lemma demo_decode:
  "decode_call_params demo_body = Some \<lparr>cp_Name = ''get'', cp_Arguments = demo_arguments\<rparr>"
  by (simp add: decode_call_params_def demo_parse demo_fields map_of_pairs_def demo_arguments_def)

lemma demo_start: "post_allowed demo_headers" "host_allowed demo_runtime demo_server demo_headers"
proof -
  have local: "plain_host ''localhost''" "list_all is_digit ''8080''"
    by (simp_all add: plain_host_def is_ascii_def is_space_def is_digit_def)
  have low: "map ascii_lower ''localhost'' = ''localhost''" by code_simp
  have name: "normalizeHostname demo_unicode ''localhost'' = ''localhost''"
    by (simp only: normalize_plain [OF local(1)] low)
  have port: "''localhost'' @ CHR '':'' # ''8080'' = ''localhost:8080''" by simp
  have "normalizeHostname demo_unicode ''localhost:8080'' = ''localhost''"
    using normalize_port [OF local, of demo_unicode] unfolding port name .
  moreover have "host_matches demo_unicode ''localhost'' ''localhost''"
    by (simp add: host_matches_def has_prefix_def name)
  ultimately have "allows (allowedHosts demo_server) (normalizeHostname demo_unicode ''localhost:8080'')"
    by (simp add: demo_server_def allows_iff_matches defaultAllowedHosts_def)
  then show "host_allowed demo_runtime demo_server demo_headers"
    unfolding host_allowed_def
    by (intro hp.originless_accepted)
      (simp_all add: demo_runtime_def demo_headers_def header_of_def request_host_def)
  show "post_allowed demo_headers" by (simp add: post_allowed_def demo_headers_def header_of_def)
qed

definition demo_endpoint_request :: endpoint_request where
  "demo_endpoint_request =
     \<lparr>rpath = ''/pets/7'', queryParams = [(''tag'', [''a b''])], extraHeaders = [(''accept'', ''*/*'')]\<rparr>"

lemma demo_new_request: "newEndpointRequest demo_endpoint demo_arguments = Inr demo_endpoint_request"
  by code_simp

lemma demo_template_ok: "template_ok demo_endpoint demo_arguments [Lit ''/pets/'', Hole ''id'']"
proof -
  have vals: "path_values demo_endpoint demo_arguments n = Some v \<Longrightarrow> no_open v" for n v
    by (auto simp: path_values_def placed_def demo_endpoint_def demo_arguments_def param_in_def
        parameter_in_defs no_open_def split: if_splits)
  have "PathTemplate demo_endpoint = fill Map.empty [Lit ''/pets/'', Hole ''id'']"
    "list_all segment_ok [Lit ''/pets/'', Hole ''id'']"
    "\<forall>n \<in> fst ` set (Parameters demo_endpoint). plain_name n"
    by (simp_all add: fill_def placeholder_def no_open_def plain_name_def demo_endpoint_def)
  with vals show ?thesis unfolding template_ok_def by blast
qed

lemma demo_call:
  "call_of demo_runtime demo_server demo_body = Some (demo_config, demo_endpoint_request, [])"
  by (simp add: call_of_def demo_decode demo_config_stored demo_new_request demo_config_def
      marshalRequestBody_def) code_simp

lemma demo_full_path: "fullPath demo_endpoint_request = ''/pets/7?tag=a+b''"
  by code_simp

lemma demo_only_config: "GetConfig (registry demo_server) n = Some c \<Longrightarrow> c = demo_config"
  by (simp add: demo_server_def demo_registry_def reg.lookup_insert registry_inv_new reg.lookup_empty
      split: if_splits)

subsection \<open>The legacy call, forwarded\<close>

definition demo_captured :: mcp_request_headers where
  "demo_captured =
     \<lparr>protocolVersion = [], mh_method = [], mh_name = [], paramHeaderNames = []\<rparr>"

lemma demo_capture: "captureMCPRequestHeaders (unicode demo_runtime) demo_headers = demo_captured"
  by code_simp

lemma demo_declared: "metaProtocolVersion demo_body = []"
proof -
  have "field_members [''_meta''] ''_meta'' demo_members = []"
    by (simp add: field_members_def find_field_def demo_members_def) code_simp
  then show ?thesis by (simp add: metaProtocolVersion_def demo_parse meta_of_params_def)
qed

lemma demo_admitted: "admitted demo_runtime demo_server (demo_request demo_body) demo_captured LegacyEra"
  by (simp add: admitted_def demo_request_def demo_declared demo_captured_def resolveEra_def
      era_simps legacy_serves_def legacy_validateHeaders_def method_defs)

definition demo_reply :: mcpProcResponse where
  "demo_reply =
     forward_call demo_runtime LegacyEra (Some (IntId 1)) demo_config demo_endpoint_request [] []"

lemma demo_forwarded: "mcpRequestHandler demo_runtime demo_server demo_body demo_captured = demo_reply"
proof -
  have "mcpRequestHandler demo_runtime demo_server demo_body demo_captured =
        handle_request demo_runtime demo_server (demo_request demo_body) demo_captured"
    by (simp add: mcpRequestHandler_def demo_runtime_def demo_sdk_def)
  also have "\<dots> = handleToolCall demo_runtime demo_server LegacyEra (demo_request demo_body) []"
    unfolding handle_request_admitted [OF demo_admitted]
    by (simp add: dispatch_def demo_request_def method_defs demo_captured_def)
  also have "\<dots> = demo_reply"
    by (subst handleToolCall_call_of) (simp add: demo_request_def demo_call demo_reply_def)
  finally show ?thesis .
qed

definition demo_stream :: stream where
  "demo_stream = \<lparr>server = demo_server, buf = []\<rparr>"

lemma demo_stream_server [simp]: "server demo_stream = demo_server"
  by (simp add: demo_stream_def)

subsection \<open>A modern call\<close>

definition demo_modern_body :: bytes where
  "demo_modern_body =
     ''{'' @ q @ ''_meta'' @ q @ '':{'' @ q @ ''io.modelcontextprotocol/protocolVersion'' @ q @ '':'' @
     q @ ''2026-07-28'' @ q @ ''},'' @ q @ ''name'' @ q @ '':'' @ q @ ''get'' @ q @ '','' @
     q @ ''arguments'' @ q @ '':{'' @ q @ ''id'' @ q @ '':'' @ q @ ''7'' @ q @ ''}}''"

definition demo_modern_headers :: header_map where
  "demo_modern_headers =
     [header_of '':method'' ''POST'', header_of '':authority'' ''localhost'',
      header_of ''mcp-protocol-version'' ''2026-07-28'', header_of ''mcp-method'' ''tools/call'',
      header_of ''mcp-name'' '' get '', header_of ''mcp-param-id'' ''7'']"

definition demo_modern_captured :: mcp_request_headers where
  "demo_modern_captured =
     \<lparr>protocolVersion = v20260728, mh_method = methodToolsCall, mh_name = ''get'',
      paramHeaderNames = [''mcp-param-id'']\<rparr>"

lemma demo_trimmed:
  "trim_space ''tools/call'' = ''tools/call''" "trim_space ''2026-07-28'' = ''2026-07-28''"
  by (rule trim_space_id; simp add: is_ascii_def is_space_def)+

lemma demo_trimmed_name: "trim_space '' get '' = ''get''"
proof -
  have "split_runes '' get '' = [(32, '' ''), (103, ''g''), (101, ''e''), (116, ''t''), (32, '' '')]"
    by code_simp
  then show ?thesis by (simp add: trim_space_def is_space_def)
qed

lemma demo_lowered:
  "map (\<lambda>h. to_lower demo_unicode (hkey h)) demo_modern_headers =
     ['':method'', '':authority'', ''mcp-protocol-version'', ''mcp-method'', ''mcp-name'', ''mcp-param-id'']"
  by code_simp

lemma demo_modern_capture:
  "captureMCPRequestHeaders (unicode demo_runtime) demo_modern_headers = demo_modern_captured"
  using demo_lowered
  by (simp add: demo_modern_headers_def header_of_def capture_first first_value_def param_keys_def
      demo_runtime_def headerValue_def demo_trimmed demo_trimmed_name demo_modern_captured_def
      headerMCPProtocolVersion_def headerMCPMethod_def headerMCPName_def headerMCPParamPrefix_def
      has_prefix_def v20260728_def methodToolsCall_def)

definition demo_modern_members :: "(string \<times> json) list" where
  "demo_modern_members =
     [(''_meta'', JObj [(''io.modelcontextprotocol/protocolVersion'', JStr ''2026-07-28'')]),
      (''name'', JStr ''get''), (''arguments'', JObj [(''id'', JStr ''7'')])]"

lemma demo_modern_parse: "parse_json demo_modern_body = Some (JObj demo_modern_members)"
  by code_simp

lemma demo_modern_fields:
  "field_members [''_meta''] ''_meta'' demo_modern_members =
     [JObj [(''io.modelcontextprotocol/protocolVersion'', JStr ''2026-07-28'')]]"
  "field_members [''name''] ''name'' demo_modern_members = [JStr ''get'']"
  "field_members call_fields ''name'' demo_modern_members = [JStr ''get'']"
  "field_members call_fields ''arguments'' demo_modern_members = [JObj [(''id'', JStr ''7'')]]"
  by code_simp+

lemma demo_modern_declared: "metaProtocolVersion demo_modern_body = v20260728"
  by (simp add: metaProtocolVersion_def demo_modern_parse meta_of_params_def demo_modern_fields
      map_of_pairs_def MetaKeyProtocolVersion_def v20260728_def) (simp add: demo_modern_body_def)

lemma demo_modern_decode:
  "decode_call_params demo_modern_body = Some \<lparr>cp_Name = ''get'', cp_Arguments = [(''id'', VString ''7'')]\<rparr>"
  by (simp add: decode_call_params_def demo_modern_parse demo_modern_fields map_of_pairs_def)

lemma demo_modern_mirror:
  "headers_mirror_body (demo_request demo_modern_body) v20260728 demo_modern_captured"
  by (simp add: headers_mirror_body_def demo_request_def demo_modern_captured_def v20260728_def
      method_defs decode_name_params_def demo_modern_parse demo_modern_fields decodeHeaderValue_def
      cut_prefix_def base64Prefix_def has_prefix_def)

lemma demo_modern_admitted:
  "admitted demo_runtime demo_server (demo_request demo_modern_body) demo_modern_captured
     (ModernEra (serverInfo demo_server))"
proof -
  have "validateModernHeaders (unicode demo_runtime) (demo_request demo_modern_body) v20260728
          demo_modern_captured = None"
    using demo_modern_mirror by (simp only: validate_iff_mirror)
  moreover have "metaProtocolVersion (rq_params (demo_request demo_modern_body)) = v20260728"
    by (simp add: demo_request_def demo_modern_declared)
  ultimately show ?thesis
    by (simp add: admitted_def resolveEra_def era_simps demo_modern_captured_def)
      (simp add: modern_serves_def demo_request_def method_defs)
qed

definition demo_modern_request :: endpoint_request where
  "demo_modern_request =
     \<lparr>rpath = ''/pets/7'', queryParams = [], extraHeaders = [(''accept'', ''*/*'')]\<rparr>"

lemma demo_modern_call:
  "call_of demo_runtime demo_server demo_modern_body = Some (demo_config, demo_modern_request, [])"
proof -
  have "newEndpointRequest demo_endpoint [(''id'', VString ''7'')] = Inr demo_modern_request"
    by code_simp
  moreover have "marshalRequestBody demo_unicode demo_endpoint [(''id'', VString ''7'')] = []"
    by code_simp
  ultimately show ?thesis
    by (simp add: call_of_def demo_modern_decode demo_config_stored demo_config_def demo_runtime_def)
qed

lemma demo_modern_forwarded:
  "mcpRequestHandler demo_runtime demo_server demo_modern_body demo_modern_captured =
     forward_call demo_runtime (ModernEra (serverInfo demo_server)) (Some (IntId 1)) demo_config
       demo_modern_request [] [''mcp-param-id'']"
proof -
  have "mcpRequestHandler demo_runtime demo_server demo_modern_body demo_modern_captured =
        handle_request demo_runtime demo_server (demo_request demo_modern_body) demo_modern_captured"
    by (simp add: mcpRequestHandler_def demo_runtime_def demo_sdk_def)
  also have "\<dots> = handleToolCall demo_runtime demo_server (ModernEra (serverInfo demo_server))
      (demo_request demo_modern_body) [''mcp-param-id'']"
    unfolding handle_request_admitted [OF demo_modern_admitted]
    by (simp add: dispatch_def demo_request_def method_defs demo_modern_captured_def)
  also have "\<dots> = forward_call demo_runtime (ModernEra (serverInfo demo_server)) (Some (IntId 1))
      demo_config demo_modern_request [] [''mcp-param-id'']"
    by (subst handleToolCall_call_of) (simp add: demo_request_def demo_modern_call)
  finally show ?thesis .
qed

subsection \<open>The server from a document\<close>

definition demo_parameter :: "string \<Rightarrow> string \<Rightarrow> bool \<Rightarrow> parameter" where
  "demo_parameter n i r =
     \<lparr>pa_Name = n, pa_In = i, pa_Description = [], pa_Required = r, pa_Schema = None\<rparr>"

definition demo_operation :: operation where
  "demo_operation =
     \<lparr>OperationID = ''get'', Summary = [], op_Description = [],
      op_Parameters = [Some (demo_parameter ''id'' ''path'' True), Some (demo_parameter ''tag'' ''query'' False)],
      op_RequestBody = None,
      op_Responses = Some [(''200'', Some [(''application/json'', Some \<lparr>mt_Schema = Some (Some 0)\<rparr>)])]\<rparr>"

definition object_schema :: schema where
  "object_schema =
     \<lparr>sc_Type = Some [''object''], sc_Description = [], sc_Enum = None, sc_Required = [],
      sc_Properties = None, sc_Items = None\<rparr>"

definition demo_document :: document where
  "demo_document =
     \<lparr>servers = [''http://api''], paths = [(''/pets/{id}'', [(''GET'', Some demo_operation)])],
      schemas_of = (\<lambda>p. object_schema)\<rparr>"

definition demo_files :: file_access where
  "demo_files =
     \<lparr>glob = (\<lambda>pattern. Some [''api.yaml'']), stat_is_dir = (\<lambda>p. Some False),
      load_file = (\<lambda>p. Some demo_document), url_host = (\<lambda>u. Some ''api'')\<rparr>"

definition demo_server_config :: server_config where
  "demo_server_config =
     \<lparr>SocketPath = ''/tmp/s'',
      ToolRegistryConfig =
        Some \<lparr>OpenAPISpecPattern = ''*.yaml'', ToolAllowlist = [], StructuredOutput = True\<rparr>,
      ServerInfo = serverInfo demo_server, AllowedHosts = []\<rparr>"

lemma demo_generated:
  "generateMCPToolFromApiOperation demo_unicode 2 (schemas_of demo_document) demo_operation ''GET''
     ''/pets/{id}'' ''api'' ''get'' =
   Inr (demo_tool, demo_config\<lparr>toolResponseConfig := \<lparr>UseStructuredOutput = False\<rparr>\<rparr>)"
  by code_simp

lemma demo_loaded:
  "newToolRegistryFromConfig demo_unicode demo_files 2
     \<lparr>OpenAPISpecPattern = ''*.yaml'', ToolAllowlist = [], StructuredOutput = True\<rparr> = Inr demo_registry"
proof -
  have names: "Name demo_tool = ''get''" by (simp add: demo_tool_def)
  have gen: "generateMCPToolsFromSpec demo_unicode (url_host demo_files) 2 demo_document
      \<lparr>OpenAPISpecPattern = ''*.yaml'', ToolAllowlist = [], StructuredOutput = True\<rparr> = Inr demo_registry"
  proof -
    have op: "OperationID demo_operation = ''get''" "\<not> shouldSkipOperation (Some demo_operation)"
      by (simp_all add: shouldSkipOperation_def hasSupportedRequestBody_def demo_operation_def)
    have host: "extractHostFromOpenAPISpec (url_host demo_files) demo_document = ''api''"
      by (simp add: extractHostFromOpenAPISpec_def demo_document_def demo_files_def)
    have ops: "operations_of demo_document = [(''/pets/{id}'', ''GET'', Some demo_operation)]"
      by (simp add: operations_of_def demo_document_def)
    have st: "structured \<lparr>OpenAPISpecPattern = ''*.yaml'', ToolAllowlist = [], StructuredOutput = True\<rparr>
        (demo_tool, demo_config\<lparr>toolResponseConfig := \<lparr>UseStructuredOutput = False\<rparr>\<rparr>) =
      (demo_tool, demo_config)"
      by (simp add: structured_def demo_config_def demo_tool_def)
    show ?thesis
      by (simp add: generateMCPToolsFromSpec_def ops host load_operation_def op demo_generated
          st demo_registry_def)
  qed
  have one: "demo_registry = \<lparr>tools = [demo_tool], configs = [''get'' \<mapsto> demo_config]\<rparr>"
    using register_or_skip_cases [OF registry_inv_new, of demo_tool demo_config]
    by (simp add: demo_registry_def names demo_name_ok newToolRegistry_def slices_insert_def)
  have parts: "tools demo_registry = [demo_tool]"
    "configs demo_registry (Name demo_tool) = Some demo_config"
    unfolding one by (simp_all add: names)
  then have "registerLoadedTools newToolRegistry demo_registry = demo_registry"
    by (simp add: registerLoadedTools_def) (simp add: demo_registry_def)
  with gen parts(1) show ?thesis
    by (simp add: newToolRegistryFromConfig_def load_path_def demo_files_def registry_Len_def)
qed

definition demo_socket :: socket_ops where
  "demo_socket =
     \<lparr>remove_file = (\<lambda>path. Some NotExist), listen_unix = (\<lambda>path. None), serve_grpc = (\<lambda>s. None)\<rparr>"

lemma demo_configured:
  "configured_server demo_unicode demo_files 2 (Some demo_server_config) = Inr (''/tmp/s'', demo_server)"
  by (simp add: configured_server_def new_server_def demo_server_config_def validate_def demo_loaded)
    (simp add: demo_server_def newHostAllowlist_def)

lemma demo_run:
  "RunServer demo_unicode demo_files 2 demo_socket (Some ()) (Some demo_server_config) =
     ([Listening ''/tmp/s'', Registered demo_server, Serving, ListenerClosed], None)"
  by (simp add: RunServer_def demo_configured serve_on_socket_def demo_socket_def)

lemma demo_started:
  "starts (RunServer demo_unicode demo_files 2 demo_socket (Some ()) (Some demo_server_config)) demo_server"
  by (simp add: starts_def demo_run)

subsection \<open>Contexts of the response phase\<close>

definition demo_context :: "int \<Rightarrow> requestContext" where
  "demo_context st =
     \<lparr>jsonrpcID = Some (IntId 1), rc_toolResponseConfig = Some \<lparr>UseStructuredOutput = True\<rparr>,
      upstreamStatusCode = st, rc_era = None\<rparr>"

lemma demo_context_simps [simp]:
  "jsonrpcID (demo_context st) = Some (IntId 1)"
  "rc_toolResponseConfig (demo_context st) = Some \<lparr>UseStructuredOutput = True\<rparr>"
  "upstreamStatusCode (demo_context st) = st" "protocolEra (demo_context st) = LegacyEra"
  "id_is_valid (Some (IntId 1))"
  by (simp_all add: demo_context_def protocolEra_def id_is_valid_def)

definition no_context :: requestContext where
  "no_context =
     \<lparr>jsonrpcID = None, rc_toolResponseConfig = None, upstreamStatusCode = 0, rc_era = None\<rparr>"

lemma no_context_payload:
  "fst (buildMCPResponsePayload demo_runtime no_context body) = ''error Internal error''"
proof -
  have "\<not> isToolCall no_context" by (simp add: isToolCall_def no_context_def id_is_valid_def)
  note payload_not_tool_call [OF this, of demo_runtime body]
  moreover have "encodeJSONRPCError demo_runtime (jsonrpcID no_context) CodeInternalError ''Internal error'' =
      ''error Internal error''"
    by (simp add: encodeJSONRPCError_def encodeJSONRPCErrorWithData_def demo_runtime_def demo_sdk_def
        demo_encode_def)
  ultimately show ?thesis by simp
qed

lemma demo_encode_result: "EncodeMessage (rsdk demo_runtime) i (RpcResult b) = Some (''result '' @ b)"
  by (simp add: demo_runtime_def demo_sdk_def demo_encode_def)

end
