(* ===== verification/Spans.thy ===== *)
theory Spans
  imports Mcp_Handler
begin

section \<open>Spans of the handlers (\<open>mcp_handler.go\<close>)\<close>

text \<open>
  What the handlers tell the tracer. A span collects operations: attributes, recorded errors and an
  error status. Each function of \<open>mcp_handler.go\<close> that touches its span has a version here, with the
  prefix \<open>traced\<close>, that also returns these operations, in order; without them it is the function of
  \<open>Mcp_Handler\<close>. The keys of the semantic conventions are constructors, since that package is not
  part of the program; \<open>span_texts\<close> holds the texts of errors of the JSON-RPC library, and how the
  text of a gRPC status and the name of a message type look.
\<close>

subsection \<open>Operations\<close>

datatype attribute_key =
  CustomKey string | RPCMethod | HTTPRequestMethod | HTTPRoute | HTTPRequestBodySize

datatype attribute_value = BoolValue bool | IntValue int | StringValue string

datatype span_op =
  SetAttribute attribute_key attribute_value
| RecordError string
| SetStatus string

datatype grpc_code = Unknown | FailedPrecondition

record span_texts =
  decodeErrorText :: "bytes \<Rightarrow> string"
  encodeResultError :: "protocol_era \<Rightarrow> rpc_result \<Rightarrow> string"
  encodeMessageError :: "jsonrpc_id \<Rightarrow> rpc_outcome \<Rightarrow> string"
  statusText :: "grpc_code \<Rightarrow> string \<Rightarrow> string"
  requestTypeName :: "processing_request \<Rightarrow> string"

type_synonym 'a traced = "span_op list \<times> 'a"

definition noting :: "span_op list \<Rightarrow> 'a traced \<Rightarrow> 'a traced" where
  "noting ops t = (ops @ fst t, snd t)"

lemma noting_simps [simp]: "fst (noting ops t) = ops @ fst t" "snd (noting ops t) = snd t"
  by (simp_all add: noting_def)

definition attrBodySize :: string where "attrBodySize = ''body.size''"
definition attrJSONRPCID :: string where "attrJSONRPCID = ''jsonrpc.id''"
definition attrJSONRPCMethod :: string where "attrJSONRPCMethod = ''jsonrpc.method''"
definition attrJSONRPCDecodeError :: string where "attrJSONRPCDecodeError = ''jsonrpc.decode.error''"
definition attrMCPMessageType :: string where "attrMCPMessageType = ''mcp.message_type''"
definition attrMCPMethod :: string where "attrMCPMethod = ''mcp.method''"
definition attrMCPProtocolVersion :: string where "attrMCPProtocolVersion = ''mcp.protocol_version''"
definition attrToolName :: string where "attrToolName = ''tool.name''"
definition attrToolIsError :: string where "attrToolIsError = ''tool.is_error''"
definition attrToolErrorReason :: string where "attrToolErrorReason = ''tool.error.reason''"
definition attrResponseMarshalError :: string where
  "attrResponseMarshalError = ''response.marshal.error''"
definition attrResponseInvalidJson :: string where "attrResponseInvalidJson = ''response.invalid_json''"
definition attrResponseJSONRPCIDPresent :: string where
  "attrResponseJSONRPCIDPresent = ''response.jsonrpcid_present''"
definition attrResponseToolCallContextPresent :: string where
  "attrResponseToolCallContextPresent = ''response.tool_call_ctx_present''"
definition attrResponseUseStructuredOutput :: string where
  "attrResponseUseStructuredOutput = ''response.use_structured_output''"

lemmas attr_defs =
  attrBodySize_def attrJSONRPCID_def attrJSONRPCMethod_def attrJSONRPCDecodeError_def
  attrMCPMessageType_def attrMCPMethod_def attrMCPProtocolVersion_def attrToolName_def
  attrToolIsError_def attrToolErrorReason_def attrResponseMarshalError_def
  attrResponseInvalidJson_def attrResponseJSONRPCIDPresent_def
  attrResponseToolCallContextPresent_def attrResponseUseStructuredOutput_def

abbreviation attr_bool :: "string \<Rightarrow> bool \<Rightarrow> span_op" where
  "attr_bool k b \<equiv> SetAttribute (CustomKey k) (BoolValue b)"

abbreviation attr_int :: "string \<Rightarrow> int \<Rightarrow> span_op" where
  "attr_int k n \<equiv> SetAttribute (CustomKey k) (IntValue n)"

abbreviation attr_string :: "string \<Rightarrow> string \<Rightarrow> span_op" where
  "attr_string k v \<equiv> SetAttribute (CustomKey k) (StringValue v)"

text \<open>\<open>fmt.Sprint\<close> of the raw identifier.\<close>

definition raw_id_text :: "jsonrpc_id \<Rightarrow> string" where
  "raw_id_text i =
     (case i of None \<Rightarrow> ''<nil>'' | Some (IntId n) \<Rightarrow> itoa n | Some (StrId s) \<Rightarrow> s)"

subsection \<open>Responses\<close>

definition traced_errorResponse ::
  "runtime \<Rightarrow> protocol_era \<Rightarrow> jsonrpc_id \<Rightarrow> int \<Rightarrow> string \<Rightarrow> gvalue option \<Rightarrow> mcpProcResponse traced"
  where
  "traced_errorResponse rt e i code message data =
     ([SetStatus message], errorResponse rt e i code message data)"

definition traced_resultResponse ::
  "span_texts \<Rightarrow> runtime \<Rightarrow> protocol_era \<Rightarrow> jsonrpc_id \<Rightarrow> rpc_result \<Rightarrow> mcpProcResponse traced" where
  "traced_resultResponse X rt e i result =
     (case encodeResult (rsdk rt) e result of
        None \<Rightarrow>
          noting [RecordError (encodeResultError X e result)]
            (traced_errorResponse rt e i CodeInternalError ''Internal error'' None)
      | Some resultJSON \<Rightarrow>
          (case EncodeMessage (rsdk rt) i (RpcResult resultJSON) of
             None \<Rightarrow>
               noting [RecordError (encodeMessageError X i (RpcResult resultJSON))]
                 (traced_errorResponse rt e i CodeInternalError ''Internal error'' None)
           | Some message \<Rightarrow> ([], immediate_reply i (newImmediateBodyResponse message))))"

definition traced_toolExecutionErrorResponse ::
  "span_texts \<Rightarrow> runtime \<Rightarrow> protocol_era \<Rightarrow> jsonrpc_id \<Rightarrow> string \<Rightarrow> string \<Rightarrow> mcpProcResponse traced"
  where
  "traced_toolExecutionErrorResponse X rt e i clientMessage traceReason =
     noting
       [attr_bool attrToolIsError True,
        attr_string attrToolErrorReason (if traceReason = [] then clientMessage else traceReason)]
       (traced_resultResponse X rt e i (CallToolResult (Some (call_result clientMessage [] True))))"

subsection \<open>The methods\<close>

definition traced_handleDiscover ::
  "span_texts \<Rightarrow> runtime \<Rightarrow> ext_proc_server \<Rightarrow> protocol_era \<Rightarrow> rpc_request \<Rightarrow> mcpProcResponse traced"
  where
  "traced_handleDiscover X rt s e req =
     traced_resultResponse X rt e (rq_id req)
       (DiscoverResult
          (Some \<lparr>dr_meta = no_meta, dr_Cacheable = None,
                 dr_SupportedVersions = supportedProtocolVersions,
                 dr_Capabilities = serverCapabilities,
                 dr_Instructions = si_Instructions (serverInfo s)\<rparr>))"

definition traced_handleInitialize ::
  "span_texts \<Rightarrow> runtime \<Rightarrow> ext_proc_server \<Rightarrow> protocol_era \<Rightarrow> rpc_request \<Rightarrow> mcpProcResponse traced"
  where
  "traced_handleInitialize X rt s e req =
     (case unmarshalInitialize (rsdk rt) (rq_params req) of
        Inl err \<Rightarrow>
          noting [RecordError err]
            (traced_errorResponse rt e (rq_id req) CodeInvalidParams (''Invalid params: '' @ err) None)
      | Inr clientVersion \<Rightarrow>
          traced_resultResponse X rt e (rq_id req)
            (InitializeResult (Some (initialize_answer s clientVersion))))"

definition traced_invalid_argument :: "param_error \<Rightarrow> string" where
  "traced_invalid_argument err =
     ''Invalid parameter in='' @ paramIn err @ '', name='' @ paramName err @ '': '' @ reason err"

definition traced_handleToolCall ::
  "span_texts \<Rightarrow> runtime \<Rightarrow> ext_proc_server \<Rightarrow> protocol_era \<Rightarrow> rpc_request \<Rightarrow> string list \<Rightarrow>
   mcpProcResponse traced" where
  "traced_handleToolCall X rt s e req stripHeaders =
     (case decode_call_params (rq_params req) of
        None \<Rightarrow>
          noting [RecordError (unmarshalError (rsdk rt) (rq_params req))]
            (traced_errorResponse rt e (rq_id req) CodeInvalidParams
               (''Invalid params: '' @ unmarshalError (rsdk rt) (rq_params req)) None)
      | Some callParams \<Rightarrow>
          noting [attr_string attrToolName (cp_Name callParams)]
            (case GetConfig (registry s) (cp_Name callParams) of
               None \<Rightarrow>
                 traced_errorResponse rt e (rq_id req) CodeInvalidParams
                   (''Unknown tool: '' @ cp_Name callParams) None
             | Some c \<Rightarrow>
                 (case newEndpointRequest (Endpoint c) (cp_Arguments callParams) of
                    Inl err \<Rightarrow>
                      traced_toolExecutionErrorResponse X rt e (rq_id req)
                        (invalid_argument (unicode rt) err) (traced_invalid_argument err)
                  | Inr r \<Rightarrow>
                      let requestBody =
                            marshalRequestBody (unicode rt) (Endpoint c) (cp_Arguments callParams)
                      in ([SetAttribute HTTPRequestMethod
                             (StringValue (to_upper (unicode rt) (Method (Endpoint c)))),
                           SetAttribute HTTPRoute (StringValue (fullPath r)),
                           SetAttribute HTTPRequestBodySize (IntValue (int (length requestBody)))],
                          forward_call rt e (rq_id req) c r requestBody stripHeaders))))"

subsection \<open>The request handler\<close>

definition traced_dispatch ::
  "span_texts \<Rightarrow> runtime \<Rightarrow> ext_proc_server \<Rightarrow> protocol_era \<Rightarrow> rpc_request \<Rightarrow> string list \<Rightarrow>
   mcpProcResponse traced" where
  "traced_dispatch X rt s e req strip =
     (if rq_method req = methodInitialize then traced_handleInitialize X rt s e req
      else if rq_method req = methodNotificationsInitialized
      then ([], immediate_reply (rq_id req) (httpStatusResponse StatusAccepted))
      else if rq_method req = methodDiscover then traced_handleDiscover X rt s e req
      else if rq_method req = methodToolsList
      then traced_resultResponse X rt e (rq_id req)
             (ListToolsResult
                (Some \<lparr>lt_meta = no_meta, lt_Cacheable = None, lt_Tools = Tools (registry s)\<rparr>))
      else if rq_method req = methodToolsCall then traced_handleToolCall X rt s e req strip
      else traced_errorResponse rt e (rq_id req) CodeMethodNotFound ''Method not found'' None)"

definition traced_handle_request ::
  "span_texts \<Rightarrow> runtime \<Rightarrow> ext_proc_server \<Rightarrow> rpc_request \<Rightarrow> mcp_request_headers \<Rightarrow>
   mcpProcResponse traced" where
  "traced_handle_request X rt s req hdrs =
     (let declared = metaProtocolVersion (rq_params req) in
      case resolveEra (serverInfo s) (rq_method req) declared (protocolVersion hdrs) of
        (e, requestedVersion, ok) \<Rightarrow>
          noting
            (if requestedVersion = [] then []
             else [attr_string attrMCPProtocolVersion (protocolVersionLabel requestedVersion)])
            (if \<not> ok
             then traced_errorResponse rt e (rq_id req) CodeUnsupportedProtocolVersion
                    (''Unsupported protocol version: '' @ requestedVersion)
                    (Some (unsupported_data requestedVersion))
             else if \<not> serves e (rq_method req)
             then traced_errorResponse rt e (rq_id req) CodeMethodNotFound ''Method not found'' None
             else
               (case validateHeaders (unicode rt) e req declared hdrs of
                  Some err \<Rightarrow> traced_errorResponse rt e (rq_id req) CodeHeaderMismatch err None
                | None \<Rightarrow> traced_dispatch X rt s e req (paramHeaderNames hdrs))))"

definition traced_mcpRequestHandler ::
  "span_texts \<Rightarrow> runtime \<Rightarrow> ext_proc_server \<Rightarrow> bytes \<Rightarrow> mcp_request_headers \<Rightarrow> mcpProcResponse traced"
  where
  "traced_mcpRequestHandler X rt s body hdrs =
     noting [attr_int attrBodySize (int (length body))]
       (case DecodeMessage (rsdk rt) body of
          None \<Rightarrow>
            noting
              [RecordError (decodeErrorText X body),
               attr_string attrJSONRPCDecodeError (decodeErrorText X body)]
              (traced_errorResponse rt LegacyEra None CodeParseError ''Parse error'' None)
        | Some ResponseMessage \<Rightarrow>
            noting [attr_string attrMCPMessageType ''not_request'']
              (traced_errorResponse rt LegacyEra None CodeInvalidRequest ''Invalid Request'' None)
        | Some (RequestMessage req) \<Rightarrow>
            noting
              [SetAttribute RPCMethod (StringValue (rq_method req)),
               attr_string attrJSONRPCID (raw_id_text (rq_id req)),
               attr_string attrJSONRPCMethod (rq_method req),
               attr_string attrMCPMethod (mcpMethodLabel (rq_method req))]
              (traced_handle_request X rt s req hdrs))"

subsection \<open>The response handler\<close>

text \<open>Here the errors of \<open>buildMCPResponse\<close> have their text, which the span gets.\<close>

definition traced_buildMCPResponse ::
  "span_texts \<Rightarrow> runtime \<Rightarrow> requestContext \<Rightarrow> bytes \<Rightarrow> string option \<Rightarrow> (string + bytes) traced" where
  "traced_buildMCPResponse X rt reqCtx body errorInfo =
     (if \<not> id_is_valid (jsonrpcID reqCtx)
      then ([], Inl ''missing req context information: jsonrpcid'')
      else
        (case rc_toolResponseConfig reqCtx of
           None \<Rightarrow> ([], Inl ''missing req context information: tool config ref'')
         | Some config \<Rightarrow>
             let isErr = (errorInfo \<noteq> None);
                 structuredContent =
                   (if UseStructuredOutput config \<and> json_valid body \<and> \<not> isErr then body else []);
                 result = CallToolResult (Some (call_result body structuredContent isErr))
             in noting
                  ([attr_bool attrResponseUseStructuredOutput (UseStructuredOutput config)] @
                   (if UseStructuredOutput config \<and> \<not> json_valid body
                    then [attr_string attrResponseInvalidJson ''upstream response body not valid JSON'']
                    else []) @
                   [attr_bool attrToolIsError isErr] @
                   (case errorInfo of
                      None \<Rightarrow> []
                    | Some traceMessage \<Rightarrow> [attr_string attrToolErrorReason traceMessage]))
                  ([], case encodeResult (rsdk rt) (protocolEra reqCtx) result of
                         None \<Rightarrow> Inl (encodeResultError X (protocolEra reqCtx) result)
                       | Some resultJson \<Rightarrow>
                           (case EncodeMessage (rsdk rt) (jsonrpcID reqCtx) (RpcResult resultJson) of
                              None \<Rightarrow>
                                Inl (encodeMessageError X (jsonrpcID reqCtx) (RpcResult resultJson))
                            | Some message \<Rightarrow> Inr message))))"

definition traced_buildMCPResponsePayload ::
  "span_texts \<Rightarrow> runtime \<Rightarrow> requestContext \<Rightarrow> bytes \<Rightarrow> (bytes \<times> header_value_option list) traced" where
  "traced_buildMCPResponsePayload X rt reqCtx body =
     (let built = traced_buildMCPResponse X rt reqCtx body
            (httpStatusToErrorInfo (upstreamStatusCode reqCtx));
          buf = (case snd built of
                   Inl err \<Rightarrow> encodeJSONRPCError rt (jsonrpcID reqCtx) CodeInternalError ''Internal error''
                 | Inr buf \<Rightarrow> buf);
          hdrs = appendHeader [] ''content-type'' ''application/json''
      in (fst built @
            (case snd built of
               Inl err \<Rightarrow>
                 [RecordError err, attr_string attrResponseMarshalError err,
                  SetStatus ''failed to build MCP response'']
             | Inr buf \<Rightarrow> []),
          buf, appendHeader hdrs ''content-length'' (itoa (int (length buf)))))"

definition traced_buildEndOfStreamResponse ::
  "span_texts \<Rightarrow> runtime \<Rightarrow> requestContext \<Rightarrow> processing_response list traced" where
  "traced_buildEndOfStreamResponse X rt reqCtx =
     (let content = describeEmptyUpstreamResponse (upstreamStatusCode reqCtx);
          (ops, buf, hdrs) = traced_buildMCPResponsePayload X rt reqCtx content
      in (ops, newReplacedResponse hdrs buf))"

definition traced_mcpResponseHandler ::
  "span_texts \<Rightarrow> runtime \<Rightarrow> bytes \<Rightarrow> requestContext \<Rightarrow> streamed_mutation traced" where
  "traced_mcpResponseHandler X rt body reqCtx =
     (let (ops, buf, hdrs) = traced_buildMCPResponsePayload X rt reqCtx body
      in ([attr_int attrBodySize (int (length body)),
           attr_bool attrResponseToolCallContextPresent (rc_toolResponseConfig reqCtx \<noteq> None),
           attr_bool attrResponseJSONRPCIDPresent (id_is_valid (jsonrpcID reqCtx))] @
          (if id_is_valid (jsonrpcID reqCtx)
           then [attr_string attrJSONRPCID (raw_id_text (jsonrpcID reqCtx))] else []) @
          ops,
          \<lparr>sm_headers = headerMutation responseFactory hdrs contentHeaders, sm_body = buf\<rparr>))"

subsection \<open>Tracing changes nothing\<close>

named_theorems transparent "the traced version returns what the plain one does"

lemma traced_responses [transparent]:
  "snd (traced_errorResponse rt e i code msg data) = errorResponse rt e i code msg data"
  "snd (traced_resultResponse X rt e i result) = resultResponse rt e i result"
  "snd (traced_toolExecutionErrorResponse X rt e i m r) = toolExecutionErrorResponse rt e i m"
  by (simp_all add: traced_errorResponse_def traced_resultResponse_def resultResponse_def
      traced_toolExecutionErrorResponse_def toolExecutionErrorResponse_def split: option.split)

lemma traced_methods [transparent]:
  "snd (traced_handleDiscover X rt s e req) = handleDiscover rt s e req"
  "snd (traced_handleInitialize X rt s e req) = handleInitialize rt s e req"
  "snd (traced_handleToolCall X rt s e req strip) = handleToolCall rt s e req strip"
  by (simp_all add: traced_handleDiscover_def handleDiscover_def traced_handleInitialize_def
      handleInitialize_def traced_handleToolCall_def handleToolCall_def Let_def transparent
      split: option.split sum.split)

lemma traced_requests [transparent]:
  "snd (traced_dispatch X rt s e req strip) = dispatch rt s e req strip"
  "snd (traced_handle_request X rt s req hdrs) = handle_request rt s req hdrs"
  "snd (traced_mcpRequestHandler X rt s body hdrs) = mcpRequestHandler rt s body hdrs"
proof -
  show 1: "snd (traced_dispatch X rt s e req strip) = dispatch rt s e req strip" for e req strip
    by (simp add: traced_dispatch_def dispatch_def transparent)
  show 2: "snd (traced_handle_request X rt s req hdrs) = handle_request rt s req hdrs" for req
    by (simp add: traced_handle_request_def handle_request_def Let_def transparent 1
        split: prod.split option.split)
  show "snd (traced_mcpRequestHandler X rt s body hdrs) = mcpRequestHandler rt s body hdrs"
    by (simp add: traced_mcpRequestHandler_def mcpRequestHandler_def transparent 2
        split: option.split rpc_message.split)
qed

definition built :: "string + bytes \<Rightarrow> bytes option" where
  "built r = (case r of Inl err \<Rightarrow> None | Inr buf \<Rightarrow> Some buf)"

lemma built_simps [simp]: "built (Inl err) = None" "built (Inr buf) = Some buf"
  by (simp_all add: built_def)

lemma built_traced: "built (snd (traced_buildMCPResponse X rt rc body info)) = buildMCPResponse rt rc body info"
  by (simp add: traced_buildMCPResponse_def buildMCPResponse_def Let_def split: option.split)

lemma traced_payload [transparent]:
  "snd (traced_buildMCPResponsePayload X rt rc body) = buildMCPResponsePayload rt rc body"
proof -
  let ?info = "httpStatusToErrorInfo (upstreamStatusCode rc)"
  show ?thesis
    using built_traced [of X rt rc body ?info, symmetric]
    by (cases "snd (traced_buildMCPResponse X rt rc body ?info)")
      (simp_all add: traced_buildMCPResponsePayload_def buildMCPResponsePayload_def Let_def)
qed

lemma traced_replies [transparent]:
  "snd (traced_buildEndOfStreamResponse X rt rc) = buildEndOfStreamResponse rt rc"
  "snd (traced_mcpResponseHandler X rt body rc) = mcpResponseHandler rt body rc"
  by (simp_all add: traced_buildEndOfStreamResponse_def buildEndOfStreamResponse_def
      traced_mcpResponseHandler_def mcpResponseHandler_def Let_def traced_payload case_prod_beta)

subsection \<open>What the status of a span says\<close>

fun statuses :: "span_op list \<Rightarrow> string list" where
  "statuses [] = []"
| "statuses (SetStatus m # ops) = m # statuses ops"
| "statuses (_ # ops) = statuses ops"

lemma statuses_append [simp]: "statuses (ops @ ops') = statuses ops @ statuses ops'"
  by (induction ops rule: statuses.induct) simp_all

text \<open>
  \<open>refusal m\<close>: the reply is a JSON-RPC error with the message \<open>m\<close>. \<open>success\<close>: it forwards the call,
  acknowledges the notification, or is an encoded result.
\<close>

definition refusal :: "runtime \<Rightarrow> string \<Rightarrow> mcpProcResponse \<Rightarrow> bool" where
  "refusal rt m p \<longleftrightarrow> (\<exists>e i code data. p = errorResponse rt e i code m data)"

definition result_reply :: "runtime \<Rightarrow> mcpProcResponse \<Rightarrow> bool" where
  "result_reply rt p \<longleftrightarrow>
     (\<exists>e i result j m. encodeResult (rsdk rt) e result = Some j \<and>
        EncodeMessage (rsdk rt) i (RpcResult j) = Some m \<and>
        p = immediate_reply i (newImmediateBodyResponse m))"

definition success :: "runtime \<Rightarrow> mcpProcResponse \<Rightarrow> bool" where
  "success rt p \<longleftrightarrow>
     forwarded p \<or> (\<exists>i. p = immediate_reply i (httpStatusResponse StatusAccepted)) \<or> result_reply rt p"

text \<open>A trace is sound for its reply: one status for a refusal, none for a success.\<close>

definition sound_trace :: "runtime \<Rightarrow> mcpProcResponse traced \<Rightarrow> bool" where
  "sound_trace rt t \<longleftrightarrow>
     (case statuses (fst t) of
        [] \<Rightarrow> success rt (snd t) | [m] \<Rightarrow> refusal rt m (snd t) | _ \<Rightarrow> False)"

named_theorems sound "the trace fits the reply"

lemma sound_noting [sound]: "statuses ops = [] \<Longrightarrow> sound_trace rt t \<Longrightarrow> sound_trace rt (noting ops t)"
  by (simp add: sound_trace_def split: list.splits)

lemma sound_error [sound]: "sound_trace rt (traced_errorResponse rt e i code msg data)"
  by (auto simp: sound_trace_def traced_errorResponse_def refusal_def)

lemma sound_forward: "statuses ops = [] \<Longrightarrow> forwarded p \<Longrightarrow> sound_trace rt (ops, p)"
  by (simp add: sound_trace_def success_def)

lemma sound_accepted: "sound_trace rt ([], immediate_reply i (httpStatusResponse StatusAccepted))"
  by (auto simp: sound_trace_def success_def)

lemma sound_result [sound]: "sound_trace rt (traced_resultResponse X rt e i result)"
proof (cases "encodeResult (rsdk rt) e result")
  case None
  then show ?thesis by (simp add: traced_resultResponse_def sound)
next
  case j: (Some j)
  show ?thesis
  proof (cases "EncodeMessage (rsdk rt) i (RpcResult j)")
    case None
    then show ?thesis by (simp add: traced_resultResponse_def j sound)
  next
    case (Some m)
    with j have "result_reply rt (immediate_reply i (newImmediateBodyResponse m))"
      unfolding result_reply_def by blast
    then show ?thesis by (simp add: traced_resultResponse_def j Some sound_trace_def success_def)
  qed
qed

lemma sound_tool_error [sound]: "sound_trace rt (traced_toolExecutionErrorResponse X rt e i m r)"
  by (simp add: traced_toolExecutionErrorResponse_def sound)

lemma sound_methods [sound]:
  "sound_trace rt (traced_handleDiscover X rt s e req)"
  "sound_trace rt (traced_handleInitialize X rt s e req)"
  "sound_trace rt (traced_handleToolCall X rt s e req strip)"
  by (simp_all add: traced_handleDiscover_def traced_handleInitialize_def traced_handleToolCall_def
      Let_def sound sound_forward split: option.split sum.split)

lemma sound_requests [sound]:
  "sound_trace rt (traced_dispatch X rt s e req strip)"
  "sound_trace rt (traced_handle_request X rt s req hdrs)"
  "sound_trace rt (traced_mcpRequestHandler X rt s body hdrs)"
proof -
  show 1: "sound_trace rt (traced_dispatch X rt s e req strip)" for e req strip
    by (simp add: traced_dispatch_def sound sound_accepted)
  show 2: "sound_trace rt (traced_handle_request X rt s req hdrs)" for req
    by (simp add: traced_handle_request_def Let_def sound 1 split: prod.split option.split)
  show "sound_trace rt (traced_mcpRequestHandler X rt s body hdrs)"
    by (simp add: traced_mcpRequestHandler_def sound 2 split: option.split rpc_message.split)
qed

lemma forwarded_no_status:
  assumes "forwarded (mcpRequestHandler rt s body hdrs)"
  shows "statuses (fst (traced_mcpRequestHandler X rt s body hdrs)) = []"
proof -
  have "\<not> refusal rt m (mcpRequestHandler rt s body hdrs)" for m
    using assms errorResponse_answered answered_not_forwarded by (auto simp: refusal_def)
  then show ?thesis
    using sound_requests(3) [of rt X s body hdrs]
    by (auto simp: sound_trace_def transparent split: list.splits)
qed

subsection \<open>The labels are few\<close>

text \<open>\<open>attr_values ops k\<close>: the values given to an attribute, in order.\<close>

fun attr_values :: "attribute_key \<Rightarrow> span_op list \<Rightarrow> attribute_value list" where
  "attr_values k [] = []"
| "attr_values k (SetAttribute k' v # ops) = (if k' = k then v # attr_values k ops else attr_values k ops)"
| "attr_values k (_ # ops) = attr_values k ops"

lemma attr_values_append [simp]: "attr_values k (ops @ ops') = attr_values k ops @ attr_values k ops'"
  by (induction ops rule: attr_values.induct) simp_all

definition method_labels :: "string set" where
  "method_labels =
     {methodInitialize, methodNotificationsInitialized, methodToolsList, methodToolsCall,
      methodDiscover, ''unknown''}"

definition version_labels :: "string set" where
  "version_labels = insert ''unsupported'' (set supportedProtocolVersions)"

lemma mcpMethodLabel_known: "mcpMethodLabel m \<in> method_labels"
  by (auto simp: mcpMethodLabel_def method_labels_def legacy_serves_def modern_serves_def)

lemma protocolVersionLabel_known: "protocolVersionLabel v \<in> version_labels"
  by (auto simp: protocolVersionLabel_def version_labels_def isSupportedVersion_def)

text \<open>Past the entry of the handlers neither label is written again.\<close>

lemma attr_values_responses [simp]:
  "attr_values k (fst (traced_errorResponse rt e i code msg data)) = []"
  "attr_values k (fst (traced_resultResponse X rt e i result)) = []"
  by (simp_all add: traced_errorResponse_def traced_resultResponse_def split: option.split)

lemma attr_values_methods:
  assumes "k \<in> {CustomKey attrMCPMethod, CustomKey attrMCPProtocolVersion}"
  shows "attr_values k (fst (traced_dispatch X rt s e req strip)) = []"
  using assms
  by (auto simp: traced_dispatch_def traced_handleDiscover_def traced_handleInitialize_def
      traced_handleToolCall_def traced_toolExecutionErrorResponse_def attr_defs Let_def
      split: option.split sum.split)

lemma attr_labels_distinct [simp]:
  "attrMCPMethod \<noteq> attrMCPProtocolVersion" "attrMCPProtocolVersion \<noteq> attrMCPMethod"
  "k \<in> {attrBodySize, attrJSONRPCID, attrJSONRPCMethod, attrJSONRPCDecodeError, attrMCPMessageType} \<Longrightarrow>
     k \<noteq> attrMCPMethod \<and> k \<noteq> attrMCPProtocolVersion"
  by (auto simp: attr_defs)

lemma attr_values_handle_request:
  "attr_values (CustomKey attrMCPMethod) (fst (traced_handle_request X rt s req hdrs)) = []"
  "set (attr_values (CustomKey attrMCPProtocolVersion) (fst (traced_handle_request X rt s req hdrs))) \<subseteq>
     StringValue ` version_labels"
  by (auto simp: traced_handle_request_def Let_def attr_values_methods
      protocolVersionLabel_known split: prod.split option.split)

lemma attr_values_request:
  "set (attr_values (CustomKey attrMCPMethod) (fst (traced_mcpRequestHandler X rt s body hdrs))) \<subseteq>
     StringValue ` method_labels"
  "set (attr_values (CustomKey attrMCPProtocolVersion) (fst (traced_mcpRequestHandler X rt s body hdrs)))
     \<subseteq> StringValue ` version_labels"
  by (simp_all add: traced_mcpRequestHandler_def attr_values_handle_request mcpMethodLabel_known
      split: option.split rpc_message.split)

subsection \<open>What the response span says\<close>

lemma attr_response_distinct [simp]:
  "k \<in> {attrBodySize, attrJSONRPCID, attrResponseMarshalError, attrResponseInvalidJson,
        attrResponseJSONRPCIDPresent, attrResponseToolCallContextPresent,
        attrResponseUseStructuredOutput} \<Longrightarrow> k \<noteq> attrToolIsError \<and> k \<noteq> attrToolErrorReason"
  "attrToolIsError \<noteq> attrToolErrorReason" "attrToolErrorReason \<noteq> attrToolIsError"
  by (auto simp: attr_defs)

lemma traced_payload_tool_call:
  assumes "isToolCall rc"
  shows "attr_values (CustomKey attrToolIsError) (fst (traced_buildMCPResponsePayload X rt rc body)) =
       [BoolValue (isHTTPErrorStatus (upstreamStatusCode rc))] \<and>
     attr_values (CustomKey attrToolErrorReason) (fst (traced_buildMCPResponsePayload X rt rc body)) =
       (case httpStatusToErrorInfo (upstreamStatusCode rc) of
          None \<Rightarrow> [] | Some m \<Rightarrow> [StringValue m])"
proof -
  from assms obtain config where "id_is_valid (jsonrpcID rc)" "rc_toolResponseConfig rc = Some config"
    by (auto simp: isToolCall_def)
  then show ?thesis
    by (simp add: traced_buildMCPResponsePayload_def traced_buildMCPResponse_def Let_def
        httpStatusToErrorInfo_def split: sum.split option.split)
qed

lemma statuses_payload:
  "statuses (fst (traced_buildMCPResponsePayload X rt rc body)) =
     (if buildMCPResponse rt rc body (httpStatusToErrorInfo (upstreamStatusCode rc)) = None
      then [''failed to build MCP response''] else [])"
proof -
  let ?t = "traced_buildMCPResponse X rt rc body (httpStatusToErrorInfo (upstreamStatusCode rc))"
  have "statuses (fst ?t) = []"
    by (simp add: traced_buildMCPResponse_def Let_def split: option.split)
  then show ?thesis
    using built_traced [of X rt rc body "httpStatusToErrorInfo (upstreamStatusCode rc)", symmetric]
    by (cases "snd ?t") (simp_all add: traced_buildMCPResponsePayload_def Let_def)
qed

lemma response_span:
  "attr_values (CustomKey attrToolIsError) (fst (traced_mcpResponseHandler X rt body rc)) =
     attr_values (CustomKey attrToolIsError) (fst (traced_buildMCPResponsePayload X rt rc body))"
  "attr_values (CustomKey attrToolErrorReason) (fst (traced_mcpResponseHandler X rt body rc)) =
     attr_values (CustomKey attrToolErrorReason) (fst (traced_buildMCPResponsePayload X rt rc body))"
  "statuses (fst (traced_mcpResponseHandler X rt body rc)) =
     statuses (fst (traced_buildMCPResponsePayload X rt rc body))"
  by (simp_all add: traced_mcpResponseHandler_def Let_def split: prod.split)

end
