(* ===== verification/Stream_Spans.thy ===== *)
theory Stream_Spans
  imports Spans Server
begin

section \<open>Spans of a stream (\<open>stream_state.go\<close>, \<open>server.go\<close>)\<close>

text \<open>
  \<open>traced_handle\<close> is \<open>handle\<close> with the spans it ends and with the clock: the stream also keeps the
  time at which buffering began, which dates the span of a body. A step emits the spans it ends and
  then, since ending is deferred to the return and sending comes after, the replies. It is a step of
  the same kind as \<open>handle\<close>, so \<open>feed\<close> runs it. The last part is the span and the gRPC status of
  \<open>Process\<close>.
\<close>

datatype span_kind = SpanKindInternal | SpanKindServer

record span =
  span_name :: string
  span_kind :: span_kind
  span_timestamp :: "int option"
  span_ops :: "span_op list"

definition internal_span :: "string \<Rightarrow> int option \<Rightarrow> span_op list \<Rightarrow> span" where
  "internal_span n t ops =
     \<lparr>span_name = n, span_kind = SpanKindInternal, span_timestamp = t, span_ops = ops\<rparr>"

datatype observation = Ended span | Sent processing_response

type_synonym timed_state = "(stream \<times> stream_state) \<times> int"

type_synonym traced_result = "stream_error + timed_state \<times> observation list"

definition observed ::
  "int \<Rightarrow> span list \<Rightarrow> (stream \<times> stream_state) \<times> processing_response list \<Rightarrow>
   timed_state \<times> observation list" where
  "observed start spans r = ((fst r, start), map Ended spans @ map Sent (snd r))"

definition untraced :: "int \<Rightarrow> handled \<Rightarrow> traced_result" where
  "untraced start h = (case h of Inl e \<Rightarrow> Inl e | Inr r \<Rightarrow> Inr (observed start [] r))"

text \<open>\<open>beginBuffering\<close> records the time along with emptying the buffer.\<close>

definition start_ops :: "runtime \<Rightarrow> ext_proc_server \<Rightarrow> header_map \<Rightarrow> bool \<Rightarrow> span_op list" where
  "start_ops rt s hs eos =
     (if findHeader hs '':method'' \<noteq> None \<and> findHeader hs '':method'' \<noteq> Some ''POST''
      then [SetStatus ''method not allowed'']
      else
        (case checkHeaders (unicode rt) (url_hostname rt) (allowedHosts s) hs of
           (False, r) \<Rightarrow> [SetStatus r]
         | (True, _) \<Rightarrow> if eos then [SetStatus ''Invalid Request''] else []))"

definition start_time :: "int \<Rightarrow> int \<Rightarrow> stream_state \<Rightarrow> int" where
  "start_time now start st = (case st of BufferingRequest h \<Rightarrow> now | _ \<Rightarrow> start)"

definition traced_awaiting_request ::
  "runtime \<Rightarrow> int \<Rightarrow> int \<Rightarrow> stream \<Rightarrow> processing_request \<Rightarrow> traced_result" where
  "traced_awaiting_request rt now start strm req =
     (case req of
        RequestHeaders hs eos \<Rightarrow>
          let r = start_request rt strm hs eos in
          Inr (observed (start_time now start (snd (fst r)))
                 [internal_span ''ext_proc.request_headers'' None (start_ops rt (server strm) hs eos)] r)
      | _ \<Rightarrow> untraced start (protocolViolation req ''RequestHeaders''))"

definition traced_finalize_request ::
  "span_texts \<Rightarrow> runtime \<Rightarrow> int \<Rightarrow> mcp_request_headers \<Rightarrow> stream \<Rightarrow> bool \<Rightarrow>
   timed_state \<times> observation list" where
  "traced_finalize_request X rt start mcpHeaders strm hasTrailers =
     (let (ops, handlerResult) = traced_mcpRequestHandler X rt (server strm) (buf strm) mcpHeaders;
          reps = (case Reroute handlerResult of
                    None \<Rightarrow> Immediate handlerResult
                  | Some m \<Rightarrow> frame m requestFactory hasTrailers)
      in observed start [internal_span ''ext_proc.request_body'' (Some start) ops]
           ((strm, AwaitingResponseHeaders (request_context_of handlerResult)), reps))"

definition traced_buffering_request ::
  "span_texts \<Rightarrow> runtime \<Rightarrow> int \<Rightarrow> mcp_request_headers \<Rightarrow> stream \<Rightarrow> processing_request \<Rightarrow> traced_result"
  where
  "traced_buffering_request X rt start mcpHeaders strm req =
     (case req of
        RequestBody body eos \<Rightarrow>
          let strm' = strm\<lparr>buf := buf strm @ body\<rparr> in
          if \<not> eos then Inr (observed start [] ((strm', BufferingRequest mcpHeaders), []))
          else Inr (traced_finalize_request X rt start mcpHeaders strm' False)
      | RequestTrailers \<Rightarrow> Inr (traced_finalize_request X rt start mcpHeaders strm True)
      | _ \<Rightarrow> untraced start
               (protocolViolation req ''RequestBody or RequestTrailers while buffering request''))"

definition traced_awaiting_response ::
  "span_texts \<Rightarrow> runtime \<Rightarrow> int \<Rightarrow> int \<Rightarrow> requestContext \<Rightarrow> stream \<Rightarrow> processing_request \<Rightarrow>
   traced_result" where
  "traced_awaiting_response X rt now start rc strm req =
     (case req of
        ResponseHeaders hs eos \<Rightarrow>
          if \<not> isToolCall rc then untraced start (protocolViolation req ''tool call response'')
          else
            let rc' = with_upstream_status rc hs in
            if \<not> eos
            then Inr (observed now [internal_span ''ext_proc.response_headers'' None []]
                        ((beginBuffering strm, BufferingResponse rc'), []))
            else
              let (ops, reps) = traced_buildEndOfStreamResponse X rt rc' in
              Inr (observed start [internal_span ''ext_proc.response_headers'' None ops]
                     ((strm, AwaitingRequestHeaders), reps))
      | _ \<Rightarrow> untraced start (protocolViolation req ''ResponseHeaders''))"

definition traced_finalize_response ::
  "span_texts \<Rightarrow> runtime \<Rightarrow> int \<Rightarrow> requestContext \<Rightarrow> stream \<Rightarrow> bool \<Rightarrow> timed_state \<times> observation list"
  where
  "traced_finalize_response X rt start rc strm hasTrailers =
     (let (ops, mutation) = traced_mcpResponseHandler X rt (buf strm) rc
      in observed start [internal_span ''ext_proc.response_body'' (Some start) ops]
           ((strm, AwaitingRequestHeaders), frame mutation responseFactory hasTrailers))"

definition traced_buffering_response ::
  "span_texts \<Rightarrow> runtime \<Rightarrow> int \<Rightarrow> requestContext \<Rightarrow> stream \<Rightarrow> processing_request \<Rightarrow> traced_result" where
  "traced_buffering_response X rt start rc strm req =
     (case req of
        ResponseBody body eos \<Rightarrow>
          let strm' = strm\<lparr>buf := buf strm @ body\<rparr> in
          if \<not> eos then Inr (observed start [] ((strm', BufferingResponse rc), []))
          else Inr (traced_finalize_response X rt start rc strm' False)
      | ResponseTrailers \<Rightarrow> Inr (traced_finalize_response X rt start rc strm True)
      | _ \<Rightarrow> untraced start
               (protocolViolation req ''ResponseBody or ResponseTrailers while buffering response''))"

text \<open>A message with the time at which it is handled.\<close>

definition traced_handle ::
  "span_texts \<Rightarrow> runtime \<Rightarrow> timed_state \<Rightarrow> int \<times> processing_request \<Rightarrow> traced_result" where
  "traced_handle X rt c timed_req =
     (case (c, timed_req) of
        (((strm, st), start), (now, req)) \<Rightarrow>
          (case st of
             AwaitingRequestHeaders \<Rightarrow> traced_awaiting_request rt now start strm req
           | DrainingRequest reject \<Rightarrow> untraced start (handle_draining reject strm req)
           | BufferingRequest mcpHeaders \<Rightarrow> traced_buffering_request X rt start mcpHeaders strm req
           | AwaitingResponseHeaders rc \<Rightarrow> traced_awaiting_response X rt now start rc strm req
           | BufferingResponse rc \<Rightarrow> traced_buffering_response X rt start rc strm req))"

lemmas traced_handle_defs =
  traced_handle_def traced_awaiting_request_def traced_buffering_request_def
  traced_awaiting_response_def traced_buffering_response_def untraced_def observed_def

subsection \<open>Forgetting the spans\<close>

fun replies_of :: "observation list \<Rightarrow> processing_response list" where
  "replies_of [] = []"
| "replies_of (Sent r # os) = r # replies_of os"
| "replies_of (Ended _ # os) = replies_of os"

fun spans_of :: "observation list \<Rightarrow> span list" where
  "spans_of [] = []"
| "spans_of (Sent _ # os) = spans_of os"
| "spans_of (Ended sp # os) = sp # spans_of os"

lemma observation_append [simp]:
  "replies_of (os @ os') = replies_of os @ replies_of os'"
  "spans_of (os @ os') = spans_of os @ spans_of os'"
  by (induction os rule: replies_of.induct) simp_all

lemma observation_maps [simp]:
  "replies_of (map Ended sps) = []" "spans_of (map Ended sps) = sps"
  "replies_of (map Sent rs) = rs" "spans_of (map Sent rs) = []"
  by (induction sps, simp_all) (induction rs, simp_all)+

definition forget :: "traced_result \<Rightarrow> handled" where
  "forget r = (case r of Inl e \<Rightarrow> Inl e | Inr (c, os) \<Rightarrow> Inr (fst c, replies_of os))"

lemma forget_simps [simp]:
  "forget (Inl e) = Inl e" "forget (Inr (c, os)) = Inr (fst c, replies_of os)"
  "forget (Inr (observed t sps r)) = Inr r" "forget (untraced t h) = h"
  by (simp_all add: forget_def observed_def untraced_def split: sum.split)

lemma forget_finalize [simp]:
  "forget (Inr (traced_finalize_request X rt t h strm b)) = Inr (finalize_request rt h strm b)"
  "forget (Inr (traced_finalize_response X rt t rc strm b)) = Inr (finalize_response rt rc strm b)"
  by (simp_all add: traced_finalize_request_def traced_finalize_response_def finalize_request_def
      finalize_response_def Let_def case_prod_beta transparent)

lemma traced_handle_transparent: "forget (traced_handle X rt (c, t) (now, req)) = handle rt c req"
  by (cases c; cases "snd c"; cases req)
    (simp_all add: traced_handle_def traced_awaiting_request_def traced_buffering_request_def
      traced_awaiting_response_def traced_buffering_response_def handle_defs Let_def
      case_prod_beta transparent flip: protocolViolation_def)

lemma feed_transparent:
  "forget (feed (traced_handle X rt) ct treqs) = feed (handle rt) (fst ct) (map snd treqs)"
proof (induction treqs arbitrary: ct)
  case Nil
  show ?case by simp
next
  case (Cons tq treqs)
  obtain c t now req where eqs: "ct = (c, t)" "tq = (now, req)" by (cases ct, cases tq)
  have step: "forget (traced_handle X rt ct tq) = handle rt c req"
    by (simp add: eqs traced_handle_transparent)
  show ?case
  proof (cases "traced_handle X rt ct tq")
    case (Inl e)
    with step have "handle rt c req = Inl e" by simp
    then show ?thesis using Inl by (simp add: eqs)
  next
    case (Inr x)
    obtain ct' os where x: "x = (ct', os)" by (cases x)
    have IH: "forget (feed (traced_handle X rt) ct' treqs) = feed (handle rt) (fst ct') (map snd treqs)"
      by (rule Cons.IH)
    from step Inr x have "handle rt c req = Inr (fst ct', replies_of os)" by simp
    then show ?thesis
      using IH [symmetric] Inr x
      by (cases "feed (traced_handle X rt) ct' treqs") (auto simp: eqs)
  qed
qed

subsection \<open>The spans of a tool call\<close>

lemma feed_traced_request_chunks:
  "map snd treqs = map (\<lambda>b. RequestBody b False) bs \<Longrightarrow>
   feed (traced_handle X rt) ((strm, BufferingRequest h), t) treqs =
     Inr (((strm\<lparr>buf := buf strm @ concat bs\<rparr>, BufferingRequest h), t), [])"
proof (induction bs arbitrary: strm treqs)
  case Nil
  then show ?case by simp
next
  case (Cons b bs)
  then obtain now treqs' where "treqs = (now, RequestBody b False) # treqs'"
    "map snd treqs' = map (\<lambda>b. RequestBody b False) bs"
    by (cases treqs) auto
  then show ?case using Cons.IH by (simp add: traced_handle_defs Let_def)
qed

lemma feed_traced_response_chunks:
  "map snd treqs = map (\<lambda>b. ResponseBody b False) bs \<Longrightarrow>
   feed (traced_handle X rt) ((strm, BufferingResponse rc), t) treqs =
     Inr (((strm\<lparr>buf := buf strm @ concat bs\<rparr>, BufferingResponse rc), t), [])"
proof (induction bs arbitrary: strm treqs)
  case Nil
  then show ?case by simp
next
  case (Cons b bs)
  then obtain now treqs' where "treqs = (now, ResponseBody b False) # treqs'"
    "map snd treqs' = map (\<lambda>b. ResponseBody b False) bs"
    by (cases treqs) auto
  then show ?case using Cons.IH by (simp add: traced_handle_defs Let_def)
qed

lemma map_snd_snoc:
  assumes "map snd xs = ys @ [y]"
  obtains xs' t where "xs = xs' @ [(t, y)]" "map snd xs' = ys"
proof -
  from assms have "xs \<noteq> []" by auto
  then obtain xs' x where xs: "xs = xs' @ [x]" by (cases xs rule: rev_cases) auto
  with assms show ?thesis by (intro that [of xs' "fst x"]) (cases x, auto)+
qed

lemma request_body_traced:
  assumes "map snd treqs = request_body bs lst"
  shows "feed (traced_handle X rt) ((strm, BufferingRequest h), t) treqs =
     Inr (traced_finalize_request X rt t h (strm\<lparr>buf := buf strm @ body_of bs lst\<rparr>) (lst = None))"
proof -
  from assms obtain treqs' t' where treqs:
    "treqs = treqs' @ [(t', case lst of Some b \<Rightarrow> RequestBody b True | None \<Rightarrow> RequestTrailers)]"
    and chunks: "map snd treqs' = map (\<lambda>b. RequestBody b False) bs"
    unfolding request_body_def by (rule map_snd_snoc)
  show ?thesis
    by (cases lst; cases "traced_finalize_request X rt t h (strm\<lparr>buf := buf strm @ body_of bs lst\<rparr>) (lst = None)")
      (simp_all add: treqs feed_append feed_traced_request_chunks [OF chunks] body_of_def
        traced_handle_defs Let_def)
qed

lemma response_body_traced:
  assumes "map snd treqs = response_body bs lst"
  shows "feed (traced_handle X rt) ((strm, BufferingResponse rc), t) treqs =
     Inr (traced_finalize_response X rt t rc (strm\<lparr>buf := buf strm @ body_of bs lst\<rparr>) (lst = None))"
proof -
  from assms obtain treqs' t' where treqs:
    "treqs = treqs' @ [(t', case lst of Some b \<Rightarrow> ResponseBody b True | None \<Rightarrow> ResponseTrailers)]"
    and chunks: "map snd treqs' = map (\<lambda>b. ResponseBody b False) bs"
    unfolding response_body_def by (rule map_snd_snoc)
  show ?thesis
    by (cases lst; cases "traced_finalize_response X rt t rc (strm\<lparr>buf := buf strm @ body_of bs lst\<rparr>) (lst = None)")
      (simp_all add: treqs feed_append feed_traced_response_chunks [OF chunks] body_of_def
        traced_handle_defs Let_def)
qed

text \<open>The names, dates and statuses of the spans of a forwarded call whose upstream answers with a body.\<close>

definition span_outline :: "span \<Rightarrow> string \<times> int option \<times> string list" where
  "span_outline sp = (span_name sp, span_timestamp sp, statuses (span_ops sp))"

lemma start_ops_admitted:
  assumes "post_allowed hs" and "host_allowed rt s hs"
  shows "start_ops rt s hs False = []"
  using assms
  by (cases "checkHeaders (unicode rt) (url_hostname rt) (allowedHosts s) hs")
    (simp add: start_ops_def post_allowed_def host_allowed_def)

lemma tool_call_spans:
  assumes "post_allowed hs" and "host_allowed rt (server strm) hs"
    and p: "p = mcpRequestHandler rt (server strm) (body_of bs lst) (captureMCPRequestHeaders (unicode rt) hs)"
    and "forwarded p" and "id_is_valid (Id p)"
    and rc: "rc = with_upstream_status (request_context_of p) hs'"
    and reqs: "map snd qs = request_body bs lst" and resps: "map snd ps = response_body bs' lst'"
  shows "\<exists>c os. feed (traced_handle X rt) ((strm, AwaitingRequestHeaders), t)
       ((t0, RequestHeaders hs False) # qs @ (t1, ResponseHeaders hs' False) # ps) = Inr (c, os) \<and>
     map span_outline (spans_of os) =
       [(''ext_proc.request_headers'', None, []), (''ext_proc.request_body'', Some t0, []),
        (''ext_proc.response_headers'', None, []),
        (''ext_proc.response_body'', Some t1,
         if buildMCPResponse rt rc (body_of bs' lst') (httpStatusToErrorInfo (upstreamStatusCode rc)) = None
         then [''failed to build MCP response''] else [])] \<and>
     span_ops (last (spans_of os)) = fst (traced_mcpResponseHandler X rt (body_of bs' lst') rc)"
proof -
  let ?h = "captureMCPRequestHeaders (unicode rt) hs"
  let ?strm1 = "strm\<lparr>buf := body_of bs lst\<rparr>" and ?strm2 = "strm\<lparr>buf := body_of bs' lst'\<rparr>"
  let ?t = "traced_mcpRequestHandler X rt (server strm) (body_of bs lst) ?h"
  obtain ops where t: "?t = (ops, p)"
    using p traced_requests(3) [of X rt "server strm" "body_of bs lst" ?h] by (cases ?t) auto
  obtain m where m: "Reroute p = Some m" using assms(4) by (auto simp: forwarded_def)
  have ops: "statuses ops = []"
    using forwarded_no_status [of rt "server strm" "body_of bs lst" ?h X] assms(4) t p by simp
  have call: "isToolCall (request_context_of p)"
    using assms(4,5) by (auto simp: forwarded_def isToolCall_def request_context_of_def)
  note start = start_ops_admitted [OF assms(1,2)]
  have 1: "traced_handle X rt ((strm, AwaitingRequestHeaders), t) (t0, RequestHeaders hs False) =
      Inr (((strm\<lparr>buf := []\<rparr>, BufferingRequest ?h), t0),
           [Ended (internal_span ''ext_proc.request_headers'' None [])])"
    using start_request_cases(4) [OF assms(1,2)]
    by (simp add: traced_handle_defs start beginBuffering_def start_time_def)
  have 2: "feed (traced_handle X rt) ((strm\<lparr>buf := []\<rparr>, BufferingRequest ?h), t0) qs =
      Inr (((?strm1, AwaitingResponseHeaders (request_context_of p)), t0),
           Ended (internal_span ''ext_proc.request_body'' (Some t0) ops) #
           map Sent (frame m requestFactory (lst = None)))"
    by (simp add: request_body_traced [OF reqs] traced_finalize_request_def observed_def t m)
  have 3: "traced_handle X rt ((?strm1, AwaitingResponseHeaders (request_context_of p)), t0)
        (t1, ResponseHeaders hs' False) =
      Inr (((strm\<lparr>buf := []\<rparr>, BufferingResponse rc), t1),
           [Ended (internal_span ''ext_proc.response_headers'' None [])])"
    using call by (simp add: traced_handle_defs beginBuffering_def Let_def rc)
  obtain rops mu where r: "traced_mcpResponseHandler X rt (body_of bs' lst') rc = (rops, mu)"
    by (cases "traced_mcpResponseHandler X rt (body_of bs' lst') rc")
  have 4: "feed (traced_handle X rt) ((strm\<lparr>buf := []\<rparr>, BufferingResponse rc), t1) ps =
      Inr (((?strm2, AwaitingRequestHeaders), t1),
           Ended (internal_span ''ext_proc.response_body'' (Some t1) rops) #
           map Sent (frame mu responseFactory (lst' = None)))"
    by (simp add: response_body_traced [OF resps] traced_finalize_response_def observed_def r)
  have st: "statuses rops =
      (if buildMCPResponse rt rc (body_of bs' lst') (httpStatusToErrorInfo (upstreamStatusCode rc)) = None
       then [''failed to build MCP response''] else [])"
    using response_span(3) [of X rt "body_of bs' lst'" rc] r statuses_payload [of X rt rc "body_of bs' lst'"]
    by simp
  show ?thesis
    by (simp add: feed_append 1 2 3 4 r st ops span_outline_def internal_span_def)
qed

subsection \<open>The span and the status of \<open>Process\<close>\<close>

definition violation_text :: "span_texts \<Rightarrow> stream_error \<Rightarrow> string" where
  "violation_text X err =
     (case err of ProtocolViolation expected req \<Rightarrow>
        ''protocol violation: expected '' @ expected @ '', got '' @ requestTypeName X req)"

text \<open>\<open>fail\<close> wraps the error of receiving or sending; a violation is returned as it is.\<close>

definition process_status :: "span_texts \<Rightarrow> process_error \<Rightarrow> grpc_code \<times> string" where
  "process_status X err =
     (case err of
        ReceiveError e \<Rightarrow> (Unknown, ''error receiving request'' @ '': '' @ e)
      | SendError e \<Rightarrow> (Unknown, ''error sending response'' @ '': '' @ e)
      | Violation v \<Rightarrow> (FailedPrecondition, violation_text X v))"

text \<open>\<open>fail\<close>: the error is recorded, the message becomes the status of the span.\<close>

definition fail_ops :: "string \<Rightarrow> string \<Rightarrow> span_op list" where
  "fail_ops err msg = [RecordError err, SetStatus msg]"

text \<open>The span of \<open>Process\<close>; ending it is deferred, so it is the last thing a return does.\<close>

definition process_span :: "span_op list \<Rightarrow> span" where
  "process_span ops =
     \<lparr>span_name = ''ext_proc.Process'', span_kind = SpanKindServer, span_timestamp = None, span_ops = ops\<rparr>"

definition process_return ::
  "observation list \<Rightarrow> span_op list \<Rightarrow> process_error option \<Rightarrow> observation list \<times> outcome" where
  "process_return log ops r = (log @ [Ended (process_span ops)], Returned r)"

text \<open>
  The loop, with the log of what it has observed: the spans a handler ends come before the replies it
  returns, and these go out one by one.
\<close>

fun traced_send_all ::
  "sender \<Rightarrow> observation list \<Rightarrow> processing_response list \<Rightarrow> observation list \<times> string option" where
  "traced_send_all send log [] = (log, None)"
| "traced_send_all send log (rep # reps) =
     (case send (replies_of log) rep of
        Some err \<Rightarrow> (log, Some err)
      | None \<Rightarrow> traced_send_all send (log @ [Sent rep]) reps)"

fun traced_loop ::
  "span_texts \<Rightarrow> runtime \<Rightarrow> sender \<Rightarrow> timed_state \<Rightarrow> observation list \<Rightarrow> (int \<times> event) list \<Rightarrow>
   observation list \<times> outcome" where
  "traced_loop X rt send c log [] = (log, Blocked)"
| "traced_loop X rt send c log ((now, StreamClosed) # es) = process_return log [] None"
| "traced_loop X rt send c log ((now, ReceiveFailed err) # es) =
     process_return log (fail_ops err ''error receiving request'') (Some (ReceiveError err))"
| "traced_loop X rt send c log ((now, Received req) # es) =
     (case traced_handle X rt c (now, req) of
        Inl v \<Rightarrow>
          let err = statusText X FailedPrecondition (violation_text X v) in
          process_return log [RecordError err, SetStatus err] (Some (Violation v))
      | Inr (c', os) \<Rightarrow>
          (case traced_send_all send (log @ map Ended (spans_of os)) (replies_of os) of
             (log', Some err) \<Rightarrow>
               process_return log' (fail_ops err ''error sending response'') (Some (SendError err))
           | (log', None) \<Rightarrow> traced_loop X rt send c' log' es))"

text \<open>The zero time is the date of a phase that has not begun.\<close>

definition traced_Process ::
  "span_texts \<Rightarrow> runtime \<Rightarrow> ext_proc_server \<Rightarrow> sender \<Rightarrow> (int \<times> event) list \<Rightarrow>
   observation list \<times> outcome" where
  "traced_Process X rt s send es = traced_loop X rt send (initial s, 0) [] es"

subsection \<open>The log of a stream\<close>

lemma traced_send_all_replies:
  "send_all send (replies_of log) reps =
     (replies_of (fst (traced_send_all send log reps)), snd (traced_send_all send log reps))"
proof (induction reps arbitrary: log)
  case (Cons rep reps)
  from Cons.IH [of "log @ [Sent rep]"] show ?case by (simp split: option.split)
qed simp

lemma traced_send_all_spans [simp]:
  "spans_of (fst (traced_send_all send log reps)) = spans_of log"
  by (induction reps arbitrary: log) (auto split: option.split)

text \<open>Its replies and its outcome are those of \<open>Process\<close>.\<close>

lemma traced_loop_replies:
  "process_loop rt send (fst c) (replies_of log) (map snd es) =
     (case traced_loop X rt send c log es of (log', res) \<Rightarrow> (replies_of log', res))"
proof (induction X rt send c log es rule: traced_loop.induct)
  case (4 X rt send c log now req es)
  have step: "forget (traced_handle X rt c (now, req)) = handle rt (fst c) req"
    using traced_handle_transparent [of X rt "fst c" "snd c" now req] by simp
  show ?case
  proof (cases "traced_handle X rt c (now, req)")
    case (Inl v)
    with step have "handle rt (fst c) req = Inl v" by simp
    with Inl show ?thesis by (simp add: process_return_def Let_def)
  next
    case (Inr x)
    obtain c' os where x: "x = (c', os)" by (cases x)
    let ?log = "log @ map Ended (spans_of os)"
    obtain log' r where sent: "traced_send_all send ?log (replies_of os) = (log', r)" by fastforce
    from step Inr x have "handle rt (fst c) req = Inr (fst c', replies_of os)" by simp
    moreover have "send_all send (replies_of log) (replies_of os) = (replies_of log', r)"
      using traced_send_all_replies [of send ?log "replies_of os"] sent by simp
    ultimately show ?thesis
      using "4.IH" [OF Inr x [symmetric] sent [symmetric]] Inr x sent
      by (cases r) (simp_all add: process_return_def)
  qed
qed (simp_all add: process_return_def)

text \<open>
  Every other span is one of a phase, and the span of a body is dated at a headers message of its own
  direction that announced a body.
\<close>

definition announced ::
  "(int \<times> event) set \<Rightarrow> (header_map \<Rightarrow> bool \<Rightarrow> processing_request) \<Rightarrow> int \<Rightarrow> bool" where
  "announced E headers t \<longleftrightarrow> (\<exists>hs. (t, Received (headers hs False)) \<in> E)"

definition phase_span :: "(int \<times> event) set \<Rightarrow> span \<Rightarrow> bool" where
  "phase_span E sp \<longleftrightarrow>
     span_kind sp = SpanKindInternal \<and>
     (case span_timestamp sp of
        None \<Rightarrow> span_name sp \<in> {''ext_proc.request_headers'', ''ext_proc.response_headers''}
      | Some t \<Rightarrow> (span_name sp = ''ext_proc.request_body'' \<and> announced E RequestHeaders t) \<or>
           (span_name sp = ''ext_proc.response_body'' \<and> announced E ResponseHeaders t))"

fun dated :: "(int \<times> event) set \<Rightarrow> timed_state \<Rightarrow> bool" where
  "dated E ((strm, BufferingRequest h), t) = announced E RequestHeaders t"
| "dated E ((strm, BufferingResponse rc), t) = announced E ResponseHeaders t"
| "dated E c = True"

lemma start_request_phase:
  "snd (fst (start_request rt strm hs eos)) \<in> {AwaitingRequestHeaders, DrainingRequest forbiddenResponse} \<or>
     (\<not> eos \<and> (\<exists>h. snd (fst (start_request rt strm hs eos)) = BufferingRequest h))"
  by (simp add: start_request_def)

lemma traced_handle_dated:
  assumes "dated E c" and "(now, Received req) \<in> E" and "traced_handle X rt c (now, req) = Inr (c', os)"
  shows "dated E c' \<and> list_all (phase_span E) (spans_of os)"
proof -
  obtain strm st t where c: "c = ((strm, st), t)" by (metis prod.collapse)
  have now: "announced E headers now" if "req = headers hs False" for headers hs
    using assms(2) that by (auto simp: announced_def)
  note phases = phase_span_def internal_span_def
  show ?thesis
  proof (cases st)
    case AwaitingRequestHeaders
    then obtain hs eos where req: "req = RequestHeaders hs eos"
      and c': "c' = (fst (start_request rt strm hs eos), start_time now t (snd (fst (start_request rt strm hs eos))))"
      and os: "spans_of os = [internal_span ''ext_proc.request_headers'' None (start_ops rt (server strm) hs eos)]"
      using assms(3) by (cases req) (auto simp: c traced_handle_defs protocolViolation_def Let_def)
    have "dated E c'"
      using start_request_phase [of rt strm hs eos] now [of RequestHeaders hs] req
      by (cases "fst (start_request rt strm hs eos)") (auto simp: c' start_time_def)
    then show ?thesis by (simp add: os phases)
  next
    case (DrainingRequest r)
    then show ?thesis using assms(3)
      by (cases req) (auto simp: c traced_handle_defs protocolViolation_def handle_draining_def split: if_splits)
  next
    case (BufferingRequest h)
    then show ?thesis using assms(1,3)
      by (cases req) (auto simp: c traced_handle_defs protocolViolation_def traced_finalize_request_def
          phases Let_def case_prod_beta split: if_splits)
  next
    case (AwaitingResponseHeaders rc)
    then show ?thesis using assms(3) now
      by (cases req) (auto simp: c traced_handle_defs protocolViolation_def phases Let_def case_prod_beta
          split: if_splits)
  next
    case (BufferingResponse rc)
    then show ?thesis using assms(1,3)
      by (cases req) (auto simp: c traced_handle_defs protocolViolation_def traced_finalize_response_def
          phases Let_def case_prod_beta split: if_splits)
  qed
qed

text \<open>The operations that a return leaves on the span.\<close>

definition return_ops :: "span_texts \<Rightarrow> process_error option \<Rightarrow> span_op list \<Rightarrow> bool" where
  "return_ops X r ops \<longleftrightarrow>
     ops = (case r of
              None \<Rightarrow> []
            | Some (ReceiveError err) \<Rightarrow> [RecordError err, SetStatus ''error receiving request'']
            | Some (SendError err) \<Rightarrow> [RecordError err, SetStatus ''error sending response'']
            | Some (Violation v) \<Rightarrow>
                [RecordError (statusText X FailedPrecondition (violation_text X v)),
                 SetStatus (statusText X FailedPrecondition (violation_text X v))])"

lemma traced_loop_spans:
  assumes "dated E c" and "set es \<subseteq> E" and "list_all (phase_span E) (spans_of log)"
  shows "case traced_loop X rt send c log es of (log', res) \<Rightarrow>
     (case res of
        Blocked \<Rightarrow> list_all (phase_span E) (spans_of log')
      | Returned r \<Rightarrow> \<exists>log'' ops. log' = log'' @ [Ended (process_span ops)] \<and>
          list_all (phase_span E) (spans_of log'') \<and>
          return_ops X r ops)"
  using assms
proof (induction X rt send c log es rule: traced_loop.induct)
  case (4 X rt send c log now req es)
  show ?case
  proof (cases "traced_handle X rt c (now, req)")
    case (Inl v)
    then show ?thesis using 4(4) by (simp add: process_return_def return_ops_def Let_def)
  next
    case (Inr x)
    obtain c' os where x: "x = (c', os)" by (cases x)
    obtain log' r where sent: "traced_send_all send (log @ map Ended (spans_of os)) (replies_of os) = (log', r)"
      by fastforce
    have ok: "dated E c'" "list_all (phase_span E) (spans_of os)"
      using traced_handle_dated [of E c now req X rt c' os] 4(2,3) Inr x by auto
    have "spans_of log' = spans_of log @ spans_of os"
      using traced_send_all_spans [of send "log @ map Ended (spans_of os)" "replies_of os"] sent by simp
    with ok 4(4) have log': "list_all (phase_span E) (spans_of log')" by simp
    show ?thesis
    proof (cases r)
      case None
      have loop: "traced_loop X rt send c log ((now, Received req) # es) = traced_loop X rt send c' log' es"
        using Inr x sent None by simp
      have "set es \<subseteq> E" using 4(3) by simp
      from "4.IH" [OF Inr x [symmetric] sent [symmetric] None ok(1) this log'] show ?thesis unfolding loop .
    next
      case (Some err)
      with Inr x sent log' show ?thesis by (simp add: process_return_def return_ops_def fail_ops_def)
    qed
  qed
qed (simp_all add: process_return_def return_ops_def fail_ops_def)

end
