(* ===== verification/Telemetry.thy ===== *)
theory Telemetry
  imports Go_Strconv
begin

section \<open>Logging and tracing set-up (\<open>log.go\<close>, \<open>tracing.go\<close>, \<open>telemetry.go\<close>)\<close>

text \<open>
  How the program wires zap and OpenTelemetry together. Those libraries are the parameters: the
  record \<open>telemetry_lib\<close> holds what the program calls, on opaque cores, resources and handles (of
  connections and exporters), and two observations of its values, where an entry of a core goes and
  what a resource says. What the documentation of the libraries promises is collected in
  \<open>zap_documented\<close> and \<open>resource_documented\<close>. \<open>globals\<close> is the state the set-up writes: the global
  logger, tracer provider and propagator, and what it has opened so far.
\<close>

subsection \<open>Levels\<close>

text \<open>The levels of \<open>zapcore\<close>, in their documented order.\<close>

datatype level =
  DebugLevel | InfoLevel | WarnLevel | ErrorLevel | DPanicLevel | PanicLevel | FatalLevel

primrec severity :: "level \<Rightarrow> int" where
  "severity DebugLevel = - 1"
| "severity InfoLevel = 0"
| "severity WarnLevel = 1"
| "severity ErrorLevel = 2"
| "severity DPanicLevel = 3"
| "severity PanicLevel = 4"
| "severity FatalLevel = 5"

lemma severity_inject: "severity a = severity b \<longleftrightarrow> a = b"
  by (cases a; cases b) simp_all

instantiation level :: linorder
begin

definition less_eq_level :: "level \<Rightarrow> level \<Rightarrow> bool" where
  "less_eq_level a b \<longleftrightarrow> severity a \<le> severity b"

definition less_level :: "level \<Rightarrow> level \<Rightarrow> bool" where
  "less_level a b \<longleftrightarrow> severity a < severity b"

instance
  by standard (auto simp: less_eq_level_def less_level_def severity_inject)

end

subsection \<open>The libraries\<close>

datatype sink = Stdout | Stderr | Otel

record telemetry_config =
  OtelEndpoint :: string
  ServiceName :: string
  ServiceVersion :: string
  LogLevel :: string

record ('core, 'res, 'h) telemetry_lib =
  ParseLevel :: "string \<Rightarrow> string + level"
  NewCore :: "sink \<Rightarrow> (level \<Rightarrow> bool) \<Rightarrow> 'core"
  NewTee :: "'core list \<Rightarrow> 'core"
  NewIncreaseLevelCore :: "'core \<Rightarrow> level \<Rightarrow> string + 'core"
  otelzap_NewCore :: "string \<Rightarrow> 'h \<Rightarrow> 'res \<Rightarrow> 'core"
  reaches :: "'core \<Rightarrow> level \<Rightarrow> sink set"
  otlploggrpc_New :: "string \<Rightarrow> string + 'h"
  grpc_NewClient :: "string \<Rightarrow> string + 'h"
  otlptracegrpc_New :: "'h \<Rightarrow> string + 'h"
  resource_Default :: 'res
  SchemaURL :: "'res \<Rightarrow> string"
  NewWithAttributes :: "string \<Rightarrow> (string \<times> string) list \<Rightarrow> 'res"
  NewSchemaless :: "(string \<times> string) list \<Rightarrow> 'res"
  Merge :: "'res \<Rightarrow> 'res \<Rightarrow> string + 'res"
  semconv_ServiceName :: "string \<Rightarrow> string \<times> string"
  attribute_of :: "'res \<Rightarrow> string \<Rightarrow> string option"

text \<open>
  A core made of an enabler writes the entries it enables; a tee writes to all its cores; a core whose
  level is increased drops the entries below that level; the bridge writes to OpenTelemetry.
\<close>

definition zap_documented :: "('core, 'res, 'h) telemetry_lib \<Rightarrow> bool" where
  "zap_documented L \<longleftrightarrow>
     (\<forall>s enab l. reaches L (NewCore L s enab) l = (if enab l then {s} else {})) \<and>
     (\<forall>cs l. reaches L (NewTee L cs) l = (\<Union>c \<in> set cs. reaches L c l)) \<and>
     (\<forall>c lvl c' l. NewIncreaseLevelCore L c lvl = Inr c' \<longrightarrow>
        reaches L c' l = (if lvl \<le> l then reaches L c l else {})) \<and>
     (\<forall>n h r l. reaches L (otelzap_NewCore L n h r) l = {Otel})"

lemma zap_laws:
  assumes "zap_documented L"
  shows "reaches L (NewCore L s enab) l = (if enab l then {s} else {})"
    and "reaches L (NewTee L cs) l = (\<Union>c \<in> set cs. reaches L c l)"
    and "NewIncreaseLevelCore L c lvl = Inr c' \<Longrightarrow>
      reaches L c' l = (if lvl \<le> l then reaches L c l else {})"
    and "reaches L (otelzap_NewCore L n h r) l = {Otel}"
  using assms unfolding zap_documented_def by blast+

text \<open>
  A resource keeps its attributes and schema; merging fails only for two different non-empty schemas,
  and attributes of the second resource win.
\<close>

definition resource_documented :: "('core, 'res, 'h) telemetry_lib \<Rightarrow> bool" where
  "resource_documented L \<longleftrightarrow>
     (\<forall>u kvs. SchemaURL L (NewWithAttributes L u kvs) = u \<and>
        attribute_of L (NewWithAttributes L u kvs) = map_of kvs) \<and>
     (\<forall>kvs. SchemaURL L (NewSchemaless L kvs) = [] \<and> attribute_of L (NewSchemaless L kvs) = map_of kvs) \<and>
     (\<forall>a b. SchemaURL L a = [] \<or> SchemaURL L b = [] \<or> SchemaURL L a = SchemaURL L b \<longrightarrow>
        (\<exists>r. Merge L a b = Inr r \<and> attribute_of L r = attribute_of L a ++ attribute_of L b)) \<and>
     (\<forall>n. semconv_ServiceName L n = (''service.name'', n))"

lemma resource_laws:
  assumes "resource_documented L"
  shows "SchemaURL L (NewWithAttributes L u kvs) = u"
    and "attribute_of L (NewWithAttributes L u kvs) = map_of kvs"
    and "SchemaURL L (NewSchemaless L kvs) = []"
    and "attribute_of L (NewSchemaless L kvs) = map_of kvs"
    and "semconv_ServiceName L n = (''service.name'', n)"
    and "SchemaURL L a = [] \<or> SchemaURL L b = [] \<or> SchemaURL L a = SchemaURL L b \<Longrightarrow>
      \<exists>r. Merge L a b = Inr r \<and> attribute_of L r = attribute_of L a ++ attribute_of L b"
  using assms unfolding resource_documented_def by blast+

subsection \<open>The state\<close>

record 'core logger =
  lg_core :: 'core
  lg_caller :: bool
  lg_name :: string

datatype sampler = AlwaysSample

datatype text_map_propagator = TraceContext | Baggage

record ('res, 'h) tracer_provider =
  tp_exporter :: 'h
  tp_batch_timeout_ms :: nat
  tp_resource :: 'res
  tp_sampler :: sampler

datatype 'h handle = Connection 'h | TraceExporter 'h | LogExporter 'h

record ('core, 'res, 'h) globals =
  global_logger :: "'core logger option"
  global_tracer_provider :: "('res, 'h) tracer_provider option"
  global_propagator :: "text_map_propagator list"
  opened :: "'h handle list"

definition opens :: "'h handle \<Rightarrow> ('core, 'res, 'h) globals \<Rightarrow> ('core, 'res, 'h) globals" where
  "opens h g = g\<lparr>opened := opened g @ [h]\<rparr>"

definition ReplaceGlobals :: "'core logger \<Rightarrow> ('core, 'res, 'h) globals \<Rightarrow> ('core, 'res, 'h) globals" where
  "ReplaceGlobals lg g = g\<lparr>global_logger := Some lg\<rparr>"

lemmas open_eqs = fold_simps prod.case sum.case Let_def

text \<open>Opening handles changes nothing else.\<close>

lemma opens_simps [simp]:
  "global_logger (fold opens hs g) = global_logger g"
  "global_tracer_provider (fold opens hs g) = global_tracer_provider g"
  "global_propagator (fold opens hs g) = global_propagator g"
  "opened (fold opens hs g) = opened g @ hs"
  by (induction hs arbitrary: g) (simp_all add: opens_def)

subsection \<open>Logging\<close>

definition componentName :: string where
  "componentName = ''envoy-mcp-openapi-processor''"

definition stdout_enabler :: "level \<Rightarrow> level \<Rightarrow> bool" where
  "stdout_enabler lvl l \<longleftrightarrow> lvl \<le> l \<and> l < ErrorLevel"

definition CreateConsoleCore :: "('core, 'res, 'h) telemetry_lib \<Rightarrow> level \<Rightarrow> 'core" where
  "CreateConsoleCore L lvl =
     NewTee L [NewCore L Stdout (stdout_enabler lvl), NewCore L Stderr (\<lambda>l. ErrorLevel \<le> l)]"

definition CreateNewLoggerFromCore :: "'core \<Rightarrow> 'core logger" where
  "CreateNewLoggerFromCore c = \<lparr>lg_core = c, lg_caller = True, lg_name = componentName\<rparr>"

definition newResource :: "('core, 'res, 'h) telemetry_lib \<Rightarrow> telemetry_config \<Rightarrow> string + 'res" where
  "newResource L cfg =
     Merge L (resource_Default L)
       (NewWithAttributes L (SchemaURL L (resource_Default L)) [semconv_ServiceName L (ServiceName cfg)])"

text \<open>\<open>createOtelCore\<close> opens the exporter before it makes the resource.\<close>

definition createOtelCore ::
  "('core, 'res, 'h) telemetry_lib \<Rightarrow> telemetry_config \<Rightarrow> ('core, 'res, 'h) globals \<Rightarrow>
   (string + 'core) \<times> ('core, 'res, 'h) globals" where
  "createOtelCore L cfg g =
     (case otlploggrpc_New L (OtelEndpoint cfg) of
        Inl err \<Rightarrow> (Inl (''failed to create OTLP log exporter: '' @ err), g)
      | Inr h \<Rightarrow>
          (case newResource L cfg of
             Inl err \<Rightarrow> (Inl (''cannot create OTel resource: '' @ err), opens (LogExporter h) g)
           | Inr r \<Rightarrow> (Inr (otelzap_NewCore L componentName h r), opens (LogExporter h) g)))"

definition createLoggerCore ::
  "('core, 'res, 'h) telemetry_lib \<Rightarrow> telemetry_config \<Rightarrow> level \<Rightarrow> ('core, 'res, 'h) globals \<Rightarrow>
   (string + 'core) \<times> ('core, 'res, 'h) globals" where
  "createLoggerCore L cfg lvl g =
     (case createOtelCore L cfg g of
        (Inl err, g') \<Rightarrow> (Inl err, g')
      | (Inr otelCore, g') \<Rightarrow>
          (case NewIncreaseLevelCore L otelCore lvl of
             Inl err \<Rightarrow> (Inl (''cannot apply log level to OTel core: '' @ err), g')
           | Inr gated \<Rightarrow> (Inr (NewTee L [CreateConsoleCore L lvl, gated]), g')))"

definition createOtelLogger ::
  "('core, 'res, 'h) telemetry_lib \<Rightarrow> telemetry_config \<Rightarrow> level \<Rightarrow> ('core, 'res, 'h) globals \<Rightarrow>
   (string + 'core logger) \<times> ('core, 'res, 'h) globals" where
  "createOtelLogger L cfg lvl g =
     (case createLoggerCore L cfg lvl g of
        (Inl err, g') \<Rightarrow> (Inl err, g')
      | (Inr c, g') \<Rightarrow> (Inr (CreateNewLoggerFromCore c), g'))"

definition InitLogger ::
  "unicode_tables \<Rightarrow> ('core, 'res, 'h) telemetry_lib \<Rightarrow> telemetry_config \<Rightarrow> ('core, 'res, 'h) globals \<Rightarrow>
   string option \<times> ('core, 'res, 'h) globals" where
  "InitLogger U L cfg g =
     (case ParseLevel L (LogLevel cfg) of
        Inl err \<Rightarrow> (Some (''invalid config.LogLevel '' @ quote U (LogLevel cfg) @ '': '' @ err), g)
      | Inr lvl \<Rightarrow>
          (case createOtelLogger L cfg lvl g of
             (Inl err, g') \<Rightarrow> (Some (''failed to initialize logger: '' @ err), g')
           | (Inr lg, g') \<Rightarrow> (None, ReplaceGlobals lg g')))"

subsection \<open>Tracing\<close>

definition trace_resource :: "('core, 'res, 'h) telemetry_lib \<Rightarrow> telemetry_config \<Rightarrow> string + 'res" where
  "trace_resource L cfg =
     Merge L (resource_Default L)
       (NewSchemaless L
          [(''service.name'', ServiceName cfg), (''service.version'', ServiceVersion cfg)])"

definition NewTracerProvider :: "'h \<Rightarrow> 'res \<Rightarrow> ('res, 'h) tracer_provider" where
  "NewTracerProvider h r =
     \<lparr>tp_exporter = h, tp_batch_timeout_ms = 1000, tp_resource = r, tp_sampler = AlwaysSample\<rparr>"

text \<open>The shutdown function returned with success is that of the provider, which stands for it.\<close>

definition InitTracer ::
  "('core, 'res, 'h) telemetry_lib \<Rightarrow> telemetry_config \<Rightarrow> ('core, 'res, 'h) globals \<Rightarrow>
   (string + ('res, 'h) tracer_provider) \<times> ('core, 'res, 'h) globals" where
  "InitTracer L cfg g =
     (case grpc_NewClient L (OtelEndpoint cfg) of
        Inl err \<Rightarrow> (Inl (''failed to create gRPC connection to collector: '' @ err), g)
      | Inr conn \<Rightarrow>
          let g1 = opens (Connection conn) g in
          (case otlptracegrpc_New L conn of
             Inl err \<Rightarrow> (Inl (''failed to create trace exporter: '' @ err), g1)
           | Inr h \<Rightarrow>
               let g2 = opens (TraceExporter h) g1 in
               (case trace_resource L cfg of
                  Inl err \<Rightarrow> (Inl (''failed to create resource: '' @ err), g2)
                | Inr r \<Rightarrow>
                    let tp = NewTracerProvider h r in
                    (Inr tp,
                     g2\<lparr>global_tracer_provider := Some tp,
                        global_propagator := [TraceContext, Baggage]\<rparr>))))"

subsection \<open>Where an entry goes\<close>

lemma console_reaches:
  assumes "zap_documented L"
  shows "reaches L (CreateConsoleCore L lvl) l =
     (if ErrorLevel \<le> l then {Stderr} else if lvl \<le> l then {Stdout} else {})"
  by (simp add: CreateConsoleCore_def stdout_enabler_def zap_laws(1,2) [OF assms] not_le)

lemma createLoggerCore_reaches:
  assumes "zap_documented L" and "createLoggerCore L cfg lvl g = (Inr c, g')"
  shows "reaches L c l =
     (if ErrorLevel \<le> l then {Stderr} else if lvl \<le> l then {Stdout} else {}) \<union>
     (if lvl \<le> l then {Otel} else {})"
proof -
  from assms(2) obtain n h r gated where
    gated: "NewIncreaseLevelCore L (otelzap_NewCore L n h r) lvl = Inr gated"
    and c: "c = NewTee L [CreateConsoleCore L lvl, gated]"
    by (auto simp: createLoggerCore_def createOtelCore_def split: prod.splits sum.splits)
  have "reaches L gated l = (if lvl \<le> l then {Otel} else {})"
    using zap_laws(3) [OF assms(1) gated] by (simp add: zap_laws(4) [OF assms(1)])
  moreover have "reaches L c l = reaches L (CreateConsoleCore L lvl) l \<union> reaches L gated l"
    by (simp add: c zap_laws(2) [OF assms(1)])
  ultimately show ?thesis using console_reaches [OF assms(1)] by simp
qed

lemma InitLogger_cases:
  obtains (failed) err hs where "InitLogger U L cfg g = (Some err, fold opens hs g)"
  | (installed) lvl c h where "ParseLevel L (LogLevel cfg) = Inr lvl"
      "createLoggerCore L cfg lvl g = (Inr c, opens (LogExporter h) g)"
      "InitLogger U L cfg g =
         (None, (opens (LogExporter h) g)\<lparr>global_logger := Some (CreateNewLoggerFromCore c)\<rparr>)"
proof (cases "ParseLevel L (LogLevel cfg)")
  case (Inl e)
  show ?thesis by (rule failed [where hs = "[]"]) (unfold InitLogger_def Inl open_eqs, rule refl)
next
  case (Inr lvl)
  note init = InitLogger_def createOtelLogger_def createLoggerCore_def createOtelCore_def Inr
  show ?thesis
  proof (cases "otlploggrpc_New L (OtelEndpoint cfg)")
    case (Inl e)
    show ?thesis by (rule failed [where hs = "[]"]) (unfold init Inl open_eqs, rule refl)
  next
    case h: (Inr h)
    show ?thesis
    proof (cases "newResource L cfg")
      case (Inl e)
      show ?thesis by (rule failed [where hs = "[LogExporter h]"]) (unfold init h Inl open_eqs, rule refl)
    next
      case r: (Inr r)
      show ?thesis
      proof (cases "NewIncreaseLevelCore L (otelzap_NewCore L componentName h r) lvl")
        case (Inl e)
        show ?thesis by (rule failed [where hs = "[LogExporter h]"]) (unfold init h r Inl open_eqs, rule refl)
      next
        case c: (Inr c)
        show ?thesis by (rule installed [OF Inr]) (simp_all add: init h r c ReplaceGlobals_def)
      qed
    qed
  qed
qed

subsection \<open>Resources\<close>

lemma newResource_ok:
  assumes "resource_documented L"
  shows "\<exists>r. newResource L cfg = Inr r \<and>
     attribute_of L r = (attribute_of L (resource_Default L))(''service.name'' \<mapsto> ServiceName cfg)"
  using resource_laws(6) [OF assms, of "resource_Default L" "NewWithAttributes L (SchemaURL L (resource_Default L))
      [(''service.name'', ServiceName cfg)]"]
  by (auto simp: newResource_def resource_laws(1,2,5) [OF assms])

lemma trace_resource_ok:
  assumes "resource_documented L"
  shows "\<exists>r. trace_resource L cfg = Inr r \<and>
     attribute_of L r = (attribute_of L (resource_Default L))
       (''service.version'' \<mapsto> ServiceVersion cfg, ''service.name'' \<mapsto> ServiceName cfg)"
  using resource_laws(6) [OF assms, of "resource_Default L" "NewSchemaless L
      [(''service.name'', ServiceName cfg), (''service.version'', ServiceVersion cfg)]"]
  by (auto simp: trace_resource_def resource_laws(3,4) [OF assms])

subsection \<open>Installing the tracer\<close>

text \<open>
  A failure leaves every global as it was; what had been opened stays open, since neither the error
  paths nor the shutdown function closes the connection.
\<close>

lemma InitTracer_cases:
  obtains (failed) err hs where "InitTracer L cfg g = (Inl err, fold opens hs g)"
  | (installed) conn h r where "grpc_NewClient L (OtelEndpoint cfg) = Inr conn"
      "otlptracegrpc_New L conn = Inr h" "trace_resource L cfg = Inr r"
      "InitTracer L cfg g =
         (Inr (NewTracerProvider h r),
          (opens (TraceExporter h) (opens (Connection conn) g))
            \<lparr>global_tracer_provider := Some (NewTracerProvider h r),
             global_propagator := [TraceContext, Baggage]\<rparr>)"
proof (cases "grpc_NewClient L (OtelEndpoint cfg)")
  case (Inl e)
  show ?thesis by (rule failed [where hs = "[]"]) (unfold InitTracer_def Inl open_eqs, rule refl)
next
  case conn: (Inr conn)
  show ?thesis
  proof (cases "otlptracegrpc_New L conn")
    case (Inl e)
    show ?thesis
      by (rule failed [where hs = "[Connection conn]"]) (unfold InitTracer_def conn Inl open_eqs, rule refl)
  next
    case h: (Inr h)
    show ?thesis
    proof (cases "trace_resource L cfg")
      case (Inl e)
      show ?thesis
        by (rule failed [where hs = "[Connection conn, TraceExporter h]"]) (unfold InitTracer_def conn h Inl open_eqs, rule refl)
    next
      case r: (Inr r)
      show ?thesis
        by (rule installed [OF conn h r]) (simp add: InitTracer_def conn h r Let_def)
    qed
  qed
qed

text \<open>
  Resources never conflict, so only the connection and the exporter can fail; the tracer's resource has
  the name and the version of the service, that of the logs only the name.
\<close>

lemma init_tracer_resource:
  assumes "resource_documented L" and "InitTracer L cfg g = (Inr tp, g')"
  shows "attribute_of L (tp_resource tp) ''service.name'' = Some (ServiceName cfg) \<and>
     attribute_of L (tp_resource tp) ''service.version'' = Some (ServiceVersion cfg) \<and>
     (\<exists>r. newResource L cfg = Inr r \<and> attribute_of L r ''service.name'' = Some (ServiceName cfg) \<and>
        attribute_of L r ''service.version'' = attribute_of L (resource_Default L) ''service.version'')"
proof (cases rule: InitTracer_cases [of L cfg g])
  case (failed err hs)
  with assms(2) show ?thesis by simp
next
  case (installed conn h r)
  then have "tp_resource tp = r" using assms(2) by (auto simp: NewTracerProvider_def)
  then show ?thesis
    using trace_resource_ok [OF assms(1), of cfg] newResource_ok [OF assms(1), of cfg] installed(3) by auto
qed

end
