(* ===== verification/Example_Main.thy ===== *)
theory Example_Main
  imports Server Telemetry
begin

section \<open>The example server (\<open>examples/mcp-server/main.go\<close>)\<close>

text \<open>
  The program shipped as an example: a console logger, a signal handler that cancels the context, a
  fixed configuration, and the exit status.
\<close>

definition example_registry_config :: tool_registry_config where
  "example_registry_config =
     \<lparr>OpenAPISpecPattern = ''/home/app/conf/openapi/*.yaml'', ToolAllowlist = [],
      StructuredOutput = True\<rparr>"

definition example_config :: server_config where
  "example_config =
     \<lparr>SocketPath = ''/var/run/shared/ext_proc.sock'',
      ToolRegistryConfig = Some example_registry_config,
      ServerInfo =
        \<lparr>si_Name = ''mcp-server'', si_Version = ''1.0.0'', si_Instructions = ''OpenAPI MCP gateway''\<rparr>,
      AllowedHosts = [''localhost'', ''127.0.0.1'', ''::1'', ''envoy'']\<rparr>"

text \<open>
  The channel is notified of three signals; the goroutine takes the first one it gets and cancels the
  context. The result is that signal, \<open>None\<close> while there is none.
\<close>

datatype os_signal = SIGINT | SIGTERM | SIGQUIT | OtherSignal nat

fun notified :: "os_signal \<Rightarrow> bool" where
  "notified (OtherSignal n) = False"
| "notified _ = True"

definition setUpSignalHandler :: "os_signal list \<Rightarrow> os_signal option" where
  "setUpSignalHandler sigs = find notified sigs"

text \<open>\<open>main\<close>: the globals it leaves, the effects of \<open>RunServer\<close> and the exit status.\<close>

definition example_main ::
  "unicode_tables \<Rightarrow> ('core, 'res, 'h) telemetry_lib \<Rightarrow> file_access \<Rightarrow> nat \<Rightarrow> socket_ops \<Rightarrow>
   ('core, 'res, 'h) globals \<Rightarrow> ('core, 'res, 'h) globals \<times> run_effect list \<times> nat" where
  "example_main U L fa fuel os g =
     (let g' = ReplaceGlobals (CreateNewLoggerFromCore (CreateConsoleCore L InfoLevel)) g;
          (effects, err) = RunServer U fa fuel os (Some ()) (Some example_config)
      in (g', effects, if err \<noteq> None then 1 else 0))"

subsection \<open>The configuration is accepted\<close>

lemma ascii_name_trim:
  "list_all (\<lambda>c. is_ascii c \<and> \<not> is_space (byte_of c)) h \<Longrightarrow> trim_space h = h"
  by (rule trim_space_id) (auto simp: list_all_iff)

lemma example_hosts_trim:
  "trim_space ''localhost'' = ''localhost''" "trim_space ''127.0.0.1'' = ''127.0.0.1''"
  "trim_space ''::1'' = ''::1''" "trim_space ''envoy'' = ''envoy''"
  by (rule ascii_name_trim, simp add: is_ascii_def is_space_def)+

lemma example_validates: "validate example_config = None"
  by (simp add: validate_def example_config_def validAllowedHost_def example_hosts_trim
      contains_any_def cut_prefix_def has_prefix_def contains_single Let_def)

lemma example_hosts_normal:
  "normalizeHostname U ''localhost'' = ''localhost''" "normalizeHostname U ''127.0.0.1'' = ''127.0.0.1''"
  "normalizeHostname U ''::1'' = ''::1''" "normalizeHostname U ''envoy'' = ''envoy''"
proof -
  have "plain_host ''localhost''" "plain_host ''127.0.0.1''" "plain_host ''envoy''"
    by (simp_all add: plain_host_def is_ascii_def is_space_def)
  moreover have "map ascii_lower ''localhost'' = ''localhost''"
    "map ascii_lower ''127.0.0.1'' = ''127.0.0.1''" "map ascii_lower ''envoy'' = ''envoy''"
    by (simp_all add: ascii_lower_def)
  ultimately show "normalizeHostname U ''localhost'' = ''localhost''"
    "normalizeHostname U ''127.0.0.1'' = ''127.0.0.1''" "normalizeHostname U ''envoy'' = ''envoy''"
    by (simp_all only: normalize_plain)
  have "last_index_byte ([CHR '':''] @ CHR '':'' # ''1'') (CHR '':'') = Some 1"
    by (subst last_index_byte_append) simp_all
  then have loopback: "split_host_port ''::1'' = None" by (simp add: split_host_port_def)
  have low: "to_lower U ''::1'' = ''::1''"
    by (subst to_lower_ascii) (simp_all add: is_ascii_def ascii_lower_def)
  show "normalizeHostname U ''::1'' = ''::1''"
    by (simp add: normalizeHostname_def example_hosts_trim Let_def loopback has_prefix_def low)
qed

lemma example_allows:
  "allows (newHostAllowlist U (AllowedHosts example_config)) h \<longleftrightarrow>
     h \<in> {''localhost'', ''127.0.0.1'', ''::1'', ''envoy''}"
  by (auto simp: allows_iff_matches example_config_def host_matches_def has_prefix_def
      example_hosts_normal)

text \<open>So a failed start is a failure of the documents, the socket or gRPC.\<close>

lemma example_failures:
  assumes "snd (RunServer U fa fuel os (Some ()) (Some example_config)) = Some err"
  shows "(\<exists>e. err = LoadFailed e) \<or> (\<exists>e. err = SocketError e) \<or> (\<exists>e. err = ServeFailed e)"
proof -
  have cfg: "ToolRegistryConfig example_config = Some example_registry_config"
    "ToolAllowlist example_registry_config = []"
    by (simp_all add: example_config_def example_registry_config_def)
  show ?thesis
  proof (cases "configured_server U fa fuel (Some example_config)")
    case (Inl e)
    then have "err = e" using assms by (simp add: RunServer_def)
    then show ?thesis using Inl
      by (auto simp: configured_server_def example_validates cfg split: sum.splits)
  next
    case (Inr x)
    then show ?thesis using assms serve_on_socket_cases [of os "fst x" "snd x"]
      by (auto simp: RunServer_def split: prod.splits)
  qed
qed

end
