(* ===== verification/Demo_Telemetry.thy ===== *)
theory Demo_Telemetry
  imports Demo Stream_Spans Example_Main
begin

section \<open>Concrete telemetry libraries\<close>

text \<open>
  A library that behaves as documented: cores are their own effect, resources are a schema and a list
  of attributes. The theorems about logging and spans are applied at it.
\<close>

definition demo_lib :: "(level \<Rightarrow> sink set, string \<times> (string \<times> string) list, string) telemetry_lib" where
  "demo_lib =
     \<lparr>ParseLevel = (\<lambda>s. if s = ''fatal'' then Inr FatalLevel else Inl ''unrecognized level''),
      NewCore = (\<lambda>s enab l. if enab l then {s} else {}),
      NewTee = (\<lambda>cs l. \<Union>c \<in> set cs. c l),
      NewIncreaseLevelCore = (\<lambda>c lvl. Inr (\<lambda>l. if lvl \<le> l then c l else {})),
      otelzap_NewCore = (\<lambda>n h r l. {Otel}), reaches = (\<lambda>c. c),
      otlploggrpc_New = (\<lambda>endpoint. Inr ''logs''), grpc_NewClient = (\<lambda>target. Inr ''conn''),
      otlptracegrpc_New = (\<lambda>conn. Inr ''traces''), resource_Default = (''schema'', []),
      SchemaURL = fst, NewWithAttributes = Pair, NewSchemaless = Pair [],
      Merge = (\<lambda>a b. if fst a = [] \<or> fst b = [] \<or> fst a = fst b
                     then Inr (if fst a = [] then fst b else fst a, snd b @ snd a)
                     else Inl ''conflicting Schema URL''),
      semconv_ServiceName = Pair ''service.name'', attribute_of = (\<lambda>r. map_of (snd r))\<rparr>"

lemma demo_zap: "zap_documented demo_lib"
  by (auto simp: zap_documented_def demo_lib_def)

lemma demo_resource: "resource_documented demo_lib"
  by (auto simp: resource_documented_def demo_lib_def)

definition demo_telemetry :: telemetry_config where
  "demo_telemetry =
     \<lparr>OtelEndpoint = ''localhost:4317'', ServiceName = ''gateway'', ServiceVersion = ''1.0'',
      LogLevel = ''fatal''\<rparr>"

definition demo_globals :: "(level \<Rightarrow> sink set, string \<times> (string \<times> string) list, string) globals" where
  "demo_globals =
     \<lparr>global_logger = None, global_tracer_provider = None, global_propagator = [], opened = []\<rparr>"

lemma demo_init:
  "fst (InitLogger demo_unicode demo_lib demo_telemetry demo_globals) = None"
  by (simp add: InitLogger_def createOtelLogger_def createLoggerCore_def createOtelCore_def
      newResource_def demo_lib_def demo_telemetry_def)

definition demo_texts :: span_texts where
  "demo_texts =
     \<lparr>decodeErrorText = (\<lambda>body. ''invalid message''), encodeResultError = (\<lambda>e r. ''unsupported value''),
      encodeMessageError = (\<lambda>i m. ''invalid message''), statusText = (\<lambda>code msg. msg),
      requestTypeName = (\<lambda>req. ''request'')\<rparr>"

end
