(* ===== verification/Exchange.thy ===== *)
theory Exchange
  imports Server
begin

section \<open>What a stream promises\<close>

text \<open>
  The contract of the state machine, one level up. An exchange is a whole HTTP exchange: a request
  with its body and, for a forwarded call, the upstream's response. \<open>wire\<close> is one way Envoy can cut
  it into messages; \<open>answer\<close> says, over whole bodies and with no state at all, what the filter
  sends for it. The stream refines this: over any sequence of exchanges, cut up in any way, it sends
  the answers one after the other.
\<close>

datatype upstream_response =
  EmptyResponse header_map
| BodyResponse header_map "bytes list" "bytes option"

datatype exchange =
  Bodiless header_map
| Refused header_map "bytes list" "bytes option"
| ToolCall header_map "bytes list" "bytes option" upstream_response

primrec wire_response :: "upstream_response \<Rightarrow> processing_request list" where
  "wire_response (EmptyResponse hs) = [ResponseHeaders hs True]"
| "wire_response (BodyResponse hs bs lst) = ResponseHeaders hs False # response_body bs lst"

primrec wire :: "exchange \<Rightarrow> processing_request list" where
  "wire (Bodiless hs) = [RequestHeaders hs True]"
| "wire (Refused hs bs lst) = RequestHeaders hs False # request_body bs lst"
| "wire (ToolCall hs bs lst resp) =
     (RequestHeaders hs False # request_body bs lst) @ wire_response resp"

definition handler_reply ::
  "runtime \<Rightarrow> ext_proc_server \<Rightarrow> header_map \<Rightarrow> bytes \<Rightarrow> mcpProcResponse" where
  "handler_reply rt s hs body =
     mcpRequestHandler rt s body (captureMCPRequestHeaders (unicode rt) hs)"

text \<open>A bodiless request is refused for its method, its host or its missing body, in this order.\<close>

definition bodiless_answer ::
  "runtime \<Rightarrow> ext_proc_server \<Rightarrow> header_map \<Rightarrow> processing_response list" where
  "bodiless_answer rt s hs =
     (if \<not> post_allowed hs then methodNotAllowedResponse
      else if \<not> host_allowed rt s hs then forbiddenResponse
      else newImmediateBodyResponse (encodeJSONRPCError rt None CodeInvalidRequest ''Invalid Request''))"

primrec response_answer ::
  "runtime \<Rightarrow> requestContext \<Rightarrow> upstream_response \<Rightarrow> processing_response list" where
  "response_answer rt rc (EmptyResponse hs) = buildEndOfStreamResponse rt (with_upstream_status rc hs)"
| "response_answer rt rc (BodyResponse hs bs lst) =
     frame (mcpResponseHandler rt (body_of bs lst) (with_upstream_status rc hs)) responseFactory (lst = None)"

primrec answer :: "runtime \<Rightarrow> ext_proc_server \<Rightarrow> exchange \<Rightarrow> processing_response list" where
  "answer rt s (Bodiless hs) = bodiless_answer rt s hs"
| "answer rt s (Refused hs bs lst) = forbiddenResponse"
| "answer rt s (ToolCall hs bs lst resp) =
     (let p = handler_reply rt s hs (body_of bs lst) in
      frame (the (Reroute p)) requestFactory (lst = None) @
      response_answer rt (request_context_of p) resp)"

text \<open>Which exchanges leave the stream ready for the next one.\<close>

primrec completes :: "runtime \<Rightarrow> ext_proc_server \<Rightarrow> exchange \<Rightarrow> bool" where
  "completes rt s (Bodiless hs) \<longleftrightarrow> True"
| "completes rt s (Refused hs bs lst) \<longleftrightarrow> post_allowed hs \<and> \<not> host_allowed rt s hs"
| "completes rt s (ToolCall hs bs lst resp) \<longleftrightarrow>
     post_allowed hs \<and> host_allowed rt s hs \<and>
     forwarded (handler_reply rt s hs (body_of bs lst)) \<and>
     id_is_valid (Id (handler_reply rt s hs (body_of bs lst)))"

subsection \<open>One exchange\<close>

lemma forwarded_tool_call:
  "forwarded p \<Longrightarrow> id_is_valid (Id p) \<Longrightarrow> isToolCall (request_context_of p)"
  by (auto simp: forwarded_def isToolCall_def request_context_of_def)

lemma response_refines:
  assumes "isToolCall rc"
  shows "\<exists>b. feed (handle rt) (strm, AwaitingResponseHeaders rc) (wire_response resp) =
     Inr ((strm\<lparr>buf := b\<rparr>, AwaitingRequestHeaders), response_answer rt rc resp)"
proof (cases resp)
  case (EmptyResponse hs)
  then show ?thesis using assms by (intro exI [of _ "buf strm"]) (simp add: handle_defs)
next
  case (BodyResponse hs bs lst)
  then show ?thesis using response_phase [OF assms, of rt strm hs bs lst] by auto
qed

lemma finalize_forwarded:
  assumes "forwarded (mcpRequestHandler rt (server strm) (buf strm) h)"
  shows "finalize_request rt h strm t =
     ((strm, AwaitingResponseHeaders (request_context_of (mcpRequestHandler rt (server strm) (buf strm) h))),
      frame (the (Reroute (mcpRequestHandler rt (server strm) (buf strm) h))) requestFactory t)"
  using assms by (auto simp: finalize_request_def forwarded_def Let_def)

lemma exchange_refines:
  assumes "completes rt (server strm) x"
  shows "\<exists>b. feed (handle rt) (strm, AwaitingRequestHeaders) (wire x) =
     Inr ((strm\<lparr>buf := b\<rparr>, AwaitingRequestHeaders), answer rt (server strm) x)"
proof (cases x)
  case (Bodiless hs)
  then show ?thesis
    by (intro exI [of _ "buf strm"])
      (simp add: handle_defs start_request_def bodiless_answer_def post_allowed_def host_allowed_def)
next
  case (Refused hs bs lst)
  then show ?thesis using assms rejected_phase [of hs rt strm bs lst]
    by (intro exI [of _ "buf strm"]) simp
next
  case (ToolCall hs bs lst resp)
  let ?h = "captureMCPRequestHeaders (unicode rt) hs" and ?strm = "strm\<lparr>buf := body_of bs lst\<rparr>"
  let ?p = "mcpRequestHandler rt (server strm) (body_of bs lst) ?h"
  from assms ToolCall have ok: "post_allowed hs" "host_allowed rt (server strm) hs"
    and fw: "forwarded ?p" "id_is_valid (Id ?p)" by (simp_all add: handler_reply_def)
  have req: "feed (handle rt) (strm, AwaitingRequestHeaders) (RequestHeaders hs False # request_body bs lst) =
      Inr ((?strm, AwaitingResponseHeaders (request_context_of ?p)),
           frame (the (Reroute ?p)) requestFactory (lst = None))"
    using request_phase [OF ok, of bs lst] finalize_forwarded [of rt ?strm ?h "lst = None"] fw(1) by simp
  obtain b where "feed (handle rt) (?strm, AwaitingResponseHeaders (request_context_of ?p)) (wire_response resp) =
      Inr ((strm\<lparr>buf := b\<rparr>, AwaitingRequestHeaders), response_answer rt (request_context_of ?p) resp)"
    using response_refines [OF forwarded_tool_call [OF fw], of rt ?strm resp] by auto
  with req show ?thesis unfolding ToolCall
    by (intro exI [of _ b])
      (simp only: wire.simps feed_append sum.case prod.case answer.simps handler_reply_def Let_def)
qed

subsection \<open>A sequence of exchanges\<close>

lemma stream_refines:
  assumes "list_all (completes rt (server strm)) xs"
  shows "\<exists>b. feed (handle rt) (strm, AwaitingRequestHeaders) (concat (map wire xs)) =
     Inr ((strm\<lparr>buf := b\<rparr>, AwaitingRequestHeaders), concat (map (answer rt (server strm)) xs))"
  using assms
proof (induction xs arbitrary: strm)
  case Nil
  then show ?case by (intro exI [of _ "buf strm"]) simp
next
  case (Cons x xs)
  obtain b where 1: "feed (handle rt) (strm, AwaitingRequestHeaders) (wire x) =
      Inr ((strm\<lparr>buf := b\<rparr>, AwaitingRequestHeaders), answer rt (server strm) x)"
    using exchange_refines [of rt strm x] Cons.prems by auto
  obtain b' where "feed (handle rt) (strm\<lparr>buf := b\<rparr>, AwaitingRequestHeaders) (concat (map wire xs)) =
      Inr ((strm\<lparr>buf := b'\<rparr>, AwaitingRequestHeaders), concat (map (answer rt (server strm)) xs))"
    using Cons.IH [of "strm\<lparr>buf := b\<rparr>"] Cons.prems by auto
  with 1 show ?case by (intro exI [of _ b']) (simp only: list.map concat.simps feed_append sum.case prod.case)
qed

lemma process_refines:
  assumes "\<And>sent rep. send sent rep = None" and "list_all (completes rt s) xs"
  shows "Process rt s send (map Received (concat (map wire xs)) @ [StreamClosed]) =
     (concat (map (answer rt s) xs), Returned None)"
proof -
  obtain b where "feed (handle rt) (initial s) (concat (map wire xs)) =
      Inr ((\<lparr>server = s, buf = b\<rparr>, AwaitingRequestHeaders), concat (map (answer rt s) xs))"
    using stream_refines [of rt "\<lparr>server = s, buf = []\<rparr>" xs] assms(2) by (auto simp: initial_def)
  then show ?thesis
    using process_loop_feed [of send rt "initial s" "[]" "concat (map wire xs)" "[StreamClosed]", OF assms(1)]
    by (simp add: Process_def)
qed

subsection \<open>Every request is answered\<close>

text \<open>
  The reply to a complete request is one immediate response or a framed rewrite; after a rewrite
  under a valid identifier every response of the upstream completes the exchange.
\<close>

lemma request_answered:
  assumes "post_allowed hs"
  shows "\<exists>c out. feed (handle rt) (strm, AwaitingRequestHeaders)
       (RequestHeaders hs False # request_body bs lst) = Inr (c, out) \<and>
     ((\<exists>ir. out = immediateResponse ir) \<or>
      (\<exists>m rc. out = frame m requestFactory (lst = None) \<and> snd c = AwaitingResponseHeaders rc \<and>
         (id_is_valid (jsonrpcID rc) = isToolCall rc)))"
proof (cases "host_allowed rt (server strm) hs")
  case False
  then show ?thesis using rejected_phase [OF assms False]
    by (auto simp: forbiddenResponse_def httpStatusResponse_def)
next
  case True
  let ?h = "captureMCPRequestHeaders (unicode rt) hs" and ?strm = "strm\<lparr>buf := body_of bs lst\<rparr>"
  let ?p = "mcpRequestHandler rt (server strm) (body_of bs lst) ?h"
  note req = request_phase [OF assms True, of bs lst]
  show ?thesis
  proof (cases "Reroute ?p")
    case None
    then obtain ir where "Immediate ?p = immediateResponse ir" using answered_immediate by blast
    with None req show ?thesis by (auto simp: finalize_request_def Let_def)
  next
    case (Some m)
    then have "forwarded ?p" using mcpRequestHandler_either [of rt "server strm" "body_of bs lst" ?h]
      by (auto simp: answered_def)
    with Some req show ?thesis
      by (auto simp: finalize_request_def Let_def isToolCall_def request_context_of_def forwarded_def)
  qed
qed

subsection \<open>Where the phases are stricter than the traffic\<close>

text \<open>A forwarded call without an identifier waits for a response it will not take.\<close>

lemma notification_call_blocks:
  assumes "post_allowed hs" and "host_allowed rt (server strm) hs"
    and "p = mcpRequestHandler rt (server strm) (body_of bs lst) (captureMCPRequestHeaders (unicode rt) hs)"
    and "Reroute p = Some m" and "Id p = None"
  shows "feed (handle rt) (strm, AwaitingRequestHeaders) (RequestHeaders hs False # request_body bs lst) =
       Inr ((strm\<lparr>buf := body_of bs lst\<rparr>, AwaitingResponseHeaders (request_context_of p)),
            frame m requestFactory (lst = None)) \<and>
     (\<forall>req. \<not> accepts (AwaitingResponseHeaders (request_context_of p)) req)"
proof
  show "feed (handle rt) (strm, AwaitingRequestHeaders) (RequestHeaders hs False # request_body bs lst) =
       Inr ((strm\<lparr>buf := body_of bs lst\<rparr>, AwaitingResponseHeaders (request_context_of p)),
            frame m requestFactory (lst = None))"
    using request_phase [OF assms(1,2)] assms(3,4) by (simp add: finalize_request_def Let_def)
  show "\<forall>req. \<not> accepts (AwaitingResponseHeaders (request_context_of p)) req"
    using assms(5) by (simp add: accepts_def isToolCall_def request_context_of_def id_is_valid_def)
qed

text \<open>A refusal with 405 does not wait for the body it refuses.\<close>

lemma refused_method_blocks:
  assumes "\<not> post_allowed hs"
  shows "handle rt (strm, AwaitingRequestHeaders) (RequestHeaders hs False) =
       Inr ((strm, AwaitingRequestHeaders), methodNotAllowedResponse) \<and>
     feed (handle rt) (strm, AwaitingRequestHeaders) [RequestHeaders hs False, RequestBody b eos] =
       Inl (ProtocolViolation ''RequestHeaders'' (RequestBody b eos))"
  using start_request_cases(1) [OF assms] by (simp add: handle_defs)

end
