(* ===== verification/Serving.thy ===== *)
theory Serving
  imports Exchange
begin

section \<open>The running server (\<open>server.go\<close>)\<close>

text \<open>
  What runs after \<open>RunServer\<close> has registered the server, with its interleavings. There is the goroutine
  of \<open>RunServer\<close> itself, which calls \<open>Serve\<close>; the one it starts, which waits for the context and calls
  \<open>GracefulStop\<close>; and one \<open>Process\<close> per stream that gRPC opens. All streams point to one server value,
  which is therefore kept once, loaded by each step and stored back. An action is one atomic step of one
  goroutine. Which actions of gRPC happen is a parameter, a predicate on the state; what its documentation
  promises is \<open>grpc_documented\<close>.
\<close>

subsection \<open>One iteration of a stream's loop\<close>

datatype goroutine =
  InLoop bytes stream_state "processing_response list"
| Finished "processing_response list" "process_error option"

text \<open>\<open>Process\<close> up to the loop, and the loop once, on the shared server.\<close>

definition spawned :: goroutine where
  "spawned = InLoop [] AwaitingRequestHeaders []"

definition iteration ::
  "runtime \<Rightarrow> sender \<Rightarrow> ext_proc_server \<Rightarrow> bytes \<Rightarrow> stream_state \<Rightarrow> processing_response list \<Rightarrow> event \<Rightarrow>
   ext_proc_server \<times> goroutine" where
  "iteration rt send s b st sent e =
     (case e of
        StreamClosed \<Rightarrow> (s, Finished sent None)
      | ReceiveFailed err \<Rightarrow> (s, Finished sent (Some (ReceiveError err)))
      | Received req \<Rightarrow>
          (case handle rt (\<lparr>server = s, buf = b\<rparr>, st) req of
             Inl err \<Rightarrow> (s, Finished sent (Some (Violation err)))
           | Inr ((strm, st'), reps) \<Rightarrow>
               (server strm,
                case send_all send sent reps of
                  (sent', Some err) \<Rightarrow> Finished sent' (Some (SendError err))
                | (sent', None) \<Rightarrow> InLoop (buf strm) st' sent')))"

subsection \<open>The actions\<close>

datatype watcher_phase = AwaitingCancel | StoppingServer | WatcherFinished

datatype serve_phase = BeforeServe | InServe | ServeReturned "string option"

record running_server =
  shared :: ext_proc_server
  goroutines :: "nat \<Rightarrow> goroutine option"
  context_done :: bool
  watcher :: watcher_phase
  serve_at :: serve_phase

datatype action =
  OpenStream nat
| Receive nat event
| CancelContext
| CallGracefulStop
| GracefulStopReturns
| CallServe
| ServeReturns "string option"

text \<open>The state when the watcher has been started and \<open>Serve\<close> is still to be called.\<close>

definition launched :: "ext_proc_server \<Rightarrow> running_server" where
  "launched s =
     \<lparr>shared = s, goroutines = (\<lambda>i. None), context_done = False, watcher = AwaitingCancel,
      serve_at = BeforeServe\<rparr>"

text \<open>The goroutine that \<open>RunServer\<close> starts: it blocks until the context is done, then stops gRPC.\<close>

fun watcher_step :: "bool \<Rightarrow> watcher_phase \<Rightarrow> action \<Rightarrow> watcher_phase option" where
  "watcher_step cancelled AwaitingCancel CallGracefulStop = (if cancelled then Some StoppingServer else None)"
| "watcher_step cancelled StoppingServer GracefulStopReturns = Some WatcherFinished"
| "watcher_step cancelled w a = None"

text \<open>The last lines of \<open>RunServer\<close>: one call of \<open>Serve\<close>, whose result is returned.\<close>

fun serve_step :: "serve_phase \<Rightarrow> action \<Rightarrow> serve_phase option" where
  "serve_step BeforeServe CallServe = Some InServe"
| "serve_step InServe (ServeReturns r) = Some (ServeReturned r)"
| "serve_step p a = None"

text \<open>A step of the whole; \<open>None\<close> where the program is not at that point.\<close>

definition act ::
  "runtime \<Rightarrow> (nat \<Rightarrow> sender) \<Rightarrow> running_server \<Rightarrow> action \<Rightarrow> running_server option" where
  "act rt send n a =
     (case a of
        OpenStream i \<Rightarrow>
          if goroutines n i = None then Some (n\<lparr>goroutines := (goroutines n)(i \<mapsto> spawned)\<rparr>) else None
      | Receive i e \<Rightarrow>
          (case goroutines n i of
             Some (InLoop b st sent) \<Rightarrow>
               (case iteration rt (send i) (shared n) b st sent e of
                  (s', g') \<Rightarrow> Some (n\<lparr>shared := s', goroutines := (goroutines n)(i \<mapsto> g')\<rparr>))
           | _ \<Rightarrow> None)
      | CancelContext \<Rightarrow> Some (n\<lparr>context_done := True\<rparr>)
      | CallServe \<Rightarrow> map_option (\<lambda>p. n\<lparr>serve_at := p\<rparr>) (serve_step (serve_at n) a)
      | ServeReturns r \<Rightarrow> map_option (\<lambda>p. n\<lparr>serve_at := p\<rparr>) (serve_step (serve_at n) a)
      | _ \<Rightarrow> map_option (\<lambda>w. n\<lparr>watcher := w\<rparr>) (watcher_step (context_done n) (watcher n) a))"

text \<open>
  A history is a list of actions the program can do in that order while gRPC permits each of them.
\<close>

inductive history ::
  "runtime \<Rightarrow> (nat \<Rightarrow> sender) \<Rightarrow> (running_server \<Rightarrow> action \<Rightarrow> bool) \<Rightarrow> ext_proc_server \<Rightarrow>
   action list \<Rightarrow> running_server \<Rightarrow> bool" for rt send grpc s where
  history_start: "history rt send grpc s [] (launched s)"
| history_step: "history rt send grpc s tr n \<Longrightarrow> grpc n a \<Longrightarrow> act rt send n a = Some n' \<Longrightarrow>
     history rt send grpc s (tr @ [a]) n'"

inductive_cases history_snocE: "history rt send grpc s (tr @ [a]) n"

text \<open>The same, computed.\<close>

fun acts ::
  "runtime \<Rightarrow> (nat \<Rightarrow> sender) \<Rightarrow> (running_server \<Rightarrow> action \<Rightarrow> bool) \<Rightarrow> running_server \<Rightarrow> action list \<Rightarrow>
   running_server option" where
  "acts rt send grpc n [] = Some n"
| "acts rt send grpc n (a # as) =
     (if grpc n a then
        (case act rt send n a of Some n' \<Rightarrow> acts rt send grpc n' as | None \<Rightarrow> None)
      else None)"

text \<open>
  What gRPC documents: a stream is opened by a server that serves, and not once \<open>GracefulStop\<close> has
  returned; \<open>GracefulStop\<close> blocks until all pending calls are finished; and \<open>Serve\<close> returns an error unless
  \<open>Stop\<close> or \<open>GracefulStop\<close> is called.
\<close>

fun documented :: "running_server \<Rightarrow> action \<Rightarrow> bool" where
  "documented n (OpenStream i) \<longleftrightarrow> serve_at n \<noteq> BeforeServe \<and> watcher n \<noteq> WatcherFinished"
| "documented n GracefulStopReturns \<longleftrightarrow> (\<forall>i b st sent. goroutines n i \<noteq> Some (InLoop b st sent))"
| "documented n (ServeReturns r) \<longleftrightarrow> r \<noteq> None \<or> watcher n \<noteq> AwaitingCancel"
| "documented n a \<longleftrightarrow> True"

definition grpc_documented :: "(running_server \<Rightarrow> action \<Rightarrow> bool) \<Rightarrow> bool" where
  "grpc_documented grpc \<longleftrightarrow> (\<forall>n a. grpc n a \<longrightarrow> documented n a)"

subsection \<open>What a stream sees\<close>

fun received :: "nat \<Rightarrow> action list \<Rightarrow> event list" where
  "received i [] = []"
| "received i (Receive j e # as) = (if i = j then e # received i as else received i as)"
| "received i (a # as) = received i as"

fun progress :: "goroutine \<Rightarrow> processing_response list \<times> outcome" where
  "progress (InLoop b st sent) = (sent, Blocked)"
| "progress (Finished sent r) = (sent, Returned r)"

lemma received_append [simp]: "received i (as @ bs) = received i as @ received i bs"
  by (induction i as rule: received.induct) auto

text \<open>No iteration writes to the shared server.\<close>

lemma handle_server: "handle rt c req = Inr (c', out) \<Longrightarrow> server (fst c') = server (fst c)"
  unfolding handle_transition
  by (induction rule: transition.induct)
    (auto simp: start_request_def beginBuffering_def finalize_request_def finalize_response_def Let_def
      split: if_splits)

lemma iteration_shared [simp]: "fst (iteration rt send s b st sent e) = s"
  by (auto simp: iteration_def dest!: handle_server split: event.split sum.split)

lemma iteration_result: "iteration rt send s b st sent e = (s', g') \<Longrightarrow> s' = s"
  using iteration_shared [of rt send s b st sent e] by simp

text \<open>The iterations of one goroutine, one after the other, are \<open>Process\<close>.\<close>

fun goroutine_run ::
  "runtime \<Rightarrow> sender \<Rightarrow> ext_proc_server \<Rightarrow> goroutine \<Rightarrow> event list \<Rightarrow> processing_response list \<times> outcome" where
  "goroutine_run rt send s (InLoop b st sent) es = process_loop rt send (\<lparr>server = s, buf = b\<rparr>, st) sent es"
| "goroutine_run rt send s (Finished sent r) es = (sent, Returned r)"

lemma goroutine_run_Cons:
  "goroutine_run rt send s (InLoop b st sent) (e # es) =
     goroutine_run rt send s (snd (iteration rt send s b st sent e)) es"
proof (cases e)
  case (Received req)
  show ?thesis
  proof (cases "handle rt (\<lparr>server = s, buf = b\<rparr>, st) req")
    case (Inl err)
    then show ?thesis by (simp add: Received iteration_def)
  next
    case (Inr x)
    obtain strm st' reps where x: "x = ((strm, st'), reps)" by (metis prod.collapse)
    have "server strm = s" using handle_server Inr by (fastforce simp: x)
    then have "strm = \<lparr>server = s, buf = buf strm\<rparr>" by simp
    then show ?thesis
      by (cases "send_all send sent reps") (auto simp: Received Inr x iteration_def split: option.split)
  qed
qed (simp_all add: iteration_def)

lemma goroutine_run_spawned: "goroutine_run rt send s spawned es = Process rt s send es"
  by (simp add: spawned_def Process_def initial_def)

lemma goroutine_run_Nil: "goroutine_run rt send s g [] = progress g"
  by (cases g) simp_all

subsection \<open>Streams do not interfere\<close>

text \<open>
  The invariant of every history, whatever gRPC does: the shared server is as it was, exactly the opened
  streams have a goroutine, and each of these is where \<open>Process\<close> alone would be after its own events.
\<close>

definition tracks ::
  "runtime \<Rightarrow> sender \<Rightarrow> ext_proc_server \<Rightarrow> action list \<Rightarrow> nat \<Rightarrow> goroutine option \<Rightarrow> bool" where
  "tracks rt send s tr i gp \<longleftrightarrow>
     (case gp of
        None \<Rightarrow> OpenStream i \<notin> set tr \<and> received i tr = []
      | Some g \<Rightarrow> OpenStream i \<in> set tr \<and>
          (\<forall>es. goroutine_run rt send s g es = Process rt s send (received i tr @ es)))"

definition isolated ::
  "runtime \<Rightarrow> (nat \<Rightarrow> sender) \<Rightarrow> ext_proc_server \<Rightarrow> action list \<Rightarrow> running_server \<Rightarrow> bool" where
  "isolated rt send s tr n \<longleftrightarrow> shared n = s \<and> (\<forall>i. tracks rt (send i) s tr i (goroutines n i))"

text \<open>An action that is not about a stream changes nothing for it.\<close>

fun concerns :: "action \<Rightarrow> nat \<Rightarrow> bool" where
  "concerns (OpenStream j) i \<longleftrightarrow> i = j"
| "concerns (Receive j e) i \<longleftrightarrow> i = j"
| "concerns a i \<longleftrightarrow> False"

lemma tracks_other: "\<not> concerns a i \<Longrightarrow> tracks rt send s (tr @ [a]) i gp \<longleftrightarrow> tracks rt send s tr i gp"
  by (cases a) (auto simp: tracks_def split: option.split)

lemma act_other: "act rt send n a = Some n' \<Longrightarrow> \<not> concerns a i \<Longrightarrow> goroutines n' i = goroutines n i"
  by (cases a) (auto simp: act_def split: if_splits option.splits goroutine.splits prod.splits)

lemma act_shared: "act rt send n a = Some n' \<Longrightarrow> shared n' = shared n"
  by (cases a)
    (auto simp: act_def iteration_result split: if_splits option.splits goroutine.splits prod.splits)

lemma tracks_concerned:
  assumes inv: "tracks rt (send i) (shared n) tr i (goroutines n i)"
    and step: "act rt send n a = Some n'" and "concerns a i"
  shows "tracks rt (send i) (shared n) (tr @ [a]) i (goroutines n' i)"
proof (cases a)
  case (OpenStream j)
  then show ?thesis using assms
    by (auto simp: tracks_def act_def goroutine_run_spawned split: if_splits)
next
  case (Receive j e)
  with assms(3) have a: "a = Receive i e" by simp
  obtain b st sent s' g' where g: "goroutines n i = Some (InLoop b st sent)"
    and it: "iteration rt (send i) (shared n) b st sent e = (s', g')"
    and n': "goroutines n' i = Some g'"
    using step by (auto simp: a act_def split: option.splits goroutine.splits prod.splits)
  have "goroutine_run rt (send i) (shared n) g' es =
      Process rt (shared n) (send i) (received i tr @ e # es)" for es
    using inv goroutine_run_Cons [of rt "send i" "shared n" b st sent e es]
    by (simp add: tracks_def g it)
  then show ?thesis using inv by (simp add: tracks_def g n' a)
qed (use assms(3) in simp_all)

lemma isolated_act:
  assumes "isolated rt send s tr n" and step: "act rt send n a = Some n'"
  shows "isolated rt send s (tr @ [a]) n'"
proof -
  have "tracks rt (send i) s (tr @ [a]) i (goroutines n' i)" for i
    using assms tracks_concerned [OF _ step, of i tr] act_other [OF step, of i] tracks_other [of a i]
    by (cases "concerns a i") (auto simp: isolated_def)
  then show ?thesis using assms act_shared [OF step] by (simp add: isolated_def)
qed

lemma history_isolated: "history rt send grpc s tr n \<Longrightarrow> isolated rt send s tr n"
proof (induction rule: history.induct)
  case history_start
  show ?case by (simp add: isolated_def tracks_def launched_def)
next
  case (history_step tr n a n')
  then show ?case by (blast intro: isolated_act)
qed

lemma history_stream:
  assumes "history rt send grpc s tr n" and "OpenStream i \<in> set tr"
  obtains g where "goroutines n i = Some g" "progress g = Process rt s (send i) (received i tr)"
proof -
  have inv: "tracks rt (send i) s tr i (goroutines n i)"
    using history_isolated [OF assms(1)] by (simp add: isolated_def)
  then obtain g where g: "goroutines n i = Some g" using assms(2) by (auto simp: tracks_def split: option.splits)
  with inv have "goroutine_run rt (send i) s g [] = Process rt s (send i) (received i tr)"
    by (simp add: tracks_def)
  with that [OF g] show ?thesis by (simp add: goroutine_run_Nil)
qed

subsection \<open>Stopping\<close>

lemma history_acts:
  "acts rt send grpc n as = Some n' \<Longrightarrow> history rt send grpc s tr n \<Longrightarrow> history rt send grpc s (tr @ as) n'"
proof (induction "as" arbitrary: n tr)
  case (Cons a "as")
  then obtain m where "grpc n a" "act rt send n a = Some m" "acts rt send grpc m as = Some n'"
    by (auto split: if_splits option.splits)
  with Cons.IH [of m "tr @ [a]"] show ?case using history_step [OF Cons.prems(2)] by auto
qed simp

lemmas acts_history = history_acts [OF _ history_start, simplified]

lemma history_prefix:
  "history rt send grpc s (us @ vs) n \<Longrightarrow> \<exists>m. history rt send grpc s us m"
proof (induction vs arbitrary: n rule: rev_induct)
  case (snoc a vs)
  from snoc.prems have "history rt send grpc s ((us @ vs) @ [a]) n" by simp
  then show ?case by (rule history_snocE) (blast intro: snoc.IH)
qed auto

text \<open>An action of a history is done in some state that its prefix leads to.\<close>

lemma history_split:
  assumes "history rt send grpc s (us @ a # vs) n"
  obtains m m' where "history rt send grpc s us m" "grpc m a" "act rt send m a = Some m'"
proof -
  have "history rt send grpc s ((us @ [a]) @ vs) n" using assms by simp
  then obtain m' where "history rt send grpc s (us @ [a]) m'" using history_prefix by blast
  then show ?thesis by (rule history_snocE) (blast intro: that)
qed

lemma context_done_history:
  "history rt send grpc s tr n \<Longrightarrow> context_done n \<longleftrightarrow> CancelContext \<in> set tr"
  by (induction rule: history.induct)
    (auto simp: launched_def act_def split: action.splits if_splits option.splits goroutine.splits prod.splits)

lemma watcher_history:
  "history rt send grpc s tr n \<Longrightarrow>
     (watcher n = AwaitingCancel \<longleftrightarrow> CallGracefulStop \<notin> set tr) \<and>
     (watcher n = WatcherFinished \<longleftrightarrow> GracefulStopReturns \<in> set tr)"
proof (induction rule: history.induct)
  case history_start
  show ?case by (simp add: launched_def)
next
  case (history_step tr n a n')
  then show ?case
    by (cases a; cases "watcher n")
      (auto simp: act_def split: if_splits option.splits goroutine.splits prod.splits)
qed

lemma stop_after_cancel:
  assumes "history rt send grpc s (us @ CallGracefulStop # vs) n"
  shows "CancelContext \<in> set us"
proof -
  obtain m m' where h: "history rt send grpc s us m" and step: "act rt send m CallGracefulStop = Some m'"
    using assms by (rule history_split)
  have "context_done m" using step by (cases "watcher m") (auto simp: act_def split: if_splits)
  then show ?thesis using context_done_history [OF h] by simp
qed

text \<open>Once \<open>GracefulStop\<close> has returned, every stream has: none was running then, and none is opened later.\<close>

definition running_stream :: "running_server \<Rightarrow> nat \<Rightarrow> bool" where
  "running_stream n i \<longleftrightarrow> (\<exists>b st sent. goroutines n i = Some (InLoop b st sent))"

lemma stopped_drained:
  assumes doc: "grpc_documented grpc" and "history rt send grpc s tr n" and "watcher n = WatcherFinished"
  shows "\<not> running_stream n i"
  using assms(2,3)
proof (induction rule: history.induct)
  case history_start
  then show ?case by (simp add: launched_def)
next
  case (history_step tr n a n')
  have ok: "documented n a" using doc history_step.hyps(2) by (simp add: grpc_documented_def)
  show ?case
  proof (cases "watcher n = WatcherFinished")
    case True
    then have "\<not> running_stream n i" by (rule history_step.IH)
    then show ?thesis using history_step.hyps(3) ok True
      by (cases a) (auto simp: act_def running_stream_def
          split: if_splits option.splits goroutine.splits prod.splits)
  next
    case False
    then have "a = GracefulStopReturns \<and> goroutines n' = goroutines n"
      using history_step.hyps(3) history_step.prems
      by (cases a; cases "watcher n")
        (auto simp: act_def split: if_splits option.splits goroutine.splits prod.splits)
    then show ?thesis using ok by (simp add: running_stream_def)
  qed
qed

lemma served_without_error:
  assumes doc: "grpc_documented grpc" and "history rt send grpc s tr n" and "serve_at n = ServeReturned None"
  shows "CallGracefulStop \<in> set tr"
  using assms(2,3)
proof (induction rule: history.induct)
  case history_start
  then show ?case by (simp add: launched_def)
next
  case (history_step tr n a n')
  have ok: "documented n a" using doc history_step.hyps(2) by (simp add: grpc_documented_def)
  show ?case
  proof (cases "serve_at n = ServeReturned None")
    case False
    then have "a = ServeReturns None"
      using history_step.hyps(3) history_step.prems
      by (cases a; cases "serve_at n")
        (auto simp: act_def split: if_splits option.splits goroutine.splits prod.splits)
    then show ?thesis using ok watcher_history [OF history_step.hyps(1)] by auto
  qed (use history_step in simp)
qed

text \<open>
  Nothing orders the two goroutines at the start: a context that is cancelled early can stop gRPC before
  \<open>Serve\<close> is called, and gRPC then documents an error (\<open>ErrServerStopped\<close>) although all that happened is
  the cancellation \<open>RunServer\<close> is meant to end with.
\<close>

lemma stop_before_serve:
  assumes "\<And>n a. grpc n a \<longleftrightarrow> documented n a"
  shows "\<exists>n. history rt send grpc s
     [CancelContext, CallGracefulStop, CallServe, ServeReturns (Some err)] n"
  by (intro exI, rule acts_history) (simp add: launched_def act_def assms)

subsection \<open>Coming to rest\<close>

text \<open>
  From any point of a history a cancelled server can come to rest, whatever its streams are doing, if only
  Envoy closes the streams that still run.
\<close>

lemma acts_append:
  "acts rt send grpc n (as @ bs) = (case acts rt send grpc n as of Some m \<Rightarrow> acts rt send grpc m bs | None \<Rightarrow> None)"
  by (induction "as" arbitrary: n) (auto split: option.split)

definition closing :: "nat list \<Rightarrow> action list" where
  "closing js = map (\<lambda>i. Receive i StreamClosed) js"

lemma closing_acts:
  assumes "distinct js" and "\<And>i. i \<in> set js \<Longrightarrow> running_stream n i"
  shows "\<exists>n'. acts rt send documented n (closing js) = Some n' \<and>
     watcher n' = watcher n \<and> context_done n' = context_done n \<and> serve_at n' = serve_at n \<and>
     (\<forall>i. running_stream n' i \<longleftrightarrow> running_stream n i \<and> i \<notin> set js)"
  using assms
proof (induction js arbitrary: n)
  case Nil
  then show ?case by (simp add: closing_def)
next
  case (Cons j js)
  from Cons.prems(2) [of j] obtain b st sent where g: "goroutines n j = Some (InLoop b st sent)"
    by (auto simp: running_stream_def)
  let ?n = "n\<lparr>goroutines := (goroutines n)(j \<mapsto> Finished sent None)\<rparr>"
  have step: "act rt send n (Receive j StreamClosed) = Some ?n" by (simp add: act_def g iteration_def)
  have run: "running_stream ?n i \<longleftrightarrow> running_stream n i \<and> i \<noteq> j" for i by (simp add: running_stream_def)
  from Cons.prems have "distinct js" "\<And>i. i \<in> set js \<Longrightarrow> running_stream ?n i" by (auto simp: run)
  from Cons.IH [OF this] obtain n' where "acts rt send documented ?n (closing js) = Some n'"
    "watcher n' = watcher n" "context_done n' = context_done n" "serve_at n' = serve_at n"
    "\<forall>i. running_stream n' i \<longleftrightarrow> running_stream ?n i \<and> i \<notin> set js" by auto
  then show ?case using step by (auto simp: closing_def run)
qed

lemma finite_running: "history rt send grpc s tr n \<Longrightarrow> finite {i. running_stream n i}"
proof (induction rule: history.induct)
  case history_start
  show ?case by (simp add: running_stream_def launched_def)
next
  case (history_step tr n a n')
  have "{i. running_stream n' i} \<subseteq> {i. running_stream n i} \<union> {i. concerns a i}"
    using act_other [OF history_step.hyps(3)] by (auto simp: running_stream_def)
  moreover have "finite {i. concerns a i}" by (cases a) simp_all
  ultimately show ?case using history_step.IH by (meson finite_Un finite_subset)
qed

text \<open>What the watcher still has to do before and after the streams are closed.\<close>

definition stopping_calls :: "watcher_phase \<Rightarrow> action list" where
  "stopping_calls w = (if w = AwaitingCancel then [CancelContext, CallGracefulStop] else [])"

definition resting_calls :: "watcher_phase \<Rightarrow> action list" where
  "resting_calls w = (if w = WatcherFinished then [] else [GracefulStopReturns]) @ [ServeReturns None]"

lemma stopping_acts:
  "\<exists>n'. acts rt send documented n (stopping_calls (watcher n)) = Some n' \<and> goroutines n' = goroutines n \<and>
     serve_at n' = serve_at n \<and>
     watcher n' = (if watcher n = AwaitingCancel then StoppingServer else watcher n)"
  by (cases "watcher n") (auto simp: stopping_calls_def act_def)

lemma resting_acts:
  assumes "watcher n \<noteq> AwaitingCancel" and "serve_at n = InServe" and "\<And>i. \<not> running_stream n i"
  shows "\<exists>n'. acts rt send documented n (resting_calls (watcher n)) = Some n' \<and>
     watcher n' = WatcherFinished \<and> serve_at n' = ServeReturned None"
  using assms by (cases "watcher n") (auto simp: resting_calls_def act_def running_stream_def)

lemma can_rest:
  assumes hist: "history rt send documented s tr n" and "serve_at n = InServe"
  obtains js n' where "set js = {i. running_stream n i}"
    and "history rt send documented s
       (tr @ stopping_calls (watcher n) @ closing js @ resting_calls (watcher n)) n'"
    and "watcher n' = WatcherFinished" and "serve_at n' = ServeReturned None"
proof -
  obtain js where js: "set js = {i. running_stream n i}" "distinct js"
    using finite_distinct_list [OF finite_running [OF hist]] by blast
  obtain m where m: "acts rt send documented n (stopping_calls (watcher n)) = Some m"
    "goroutines m = goroutines n" "serve_at m = serve_at n" "watcher m \<noteq> AwaitingCancel"
    "resting_calls (watcher m) = resting_calls (watcher n)"
    using stopping_acts [of rt send n] by (auto simp: resting_calls_def)
  then have same: "running_stream m i \<longleftrightarrow> running_stream n i" for i by (simp add: running_stream_def)
  obtain c where c: "acts rt send documented m (closing js) = Some c" "watcher c = watcher m"
    "serve_at c = serve_at m" "\<And>i. \<not> running_stream c i"
    using closing_acts [of js m rt send] js by (auto simp: same)
  obtain r where "acts rt send documented c (resting_calls (watcher c)) = Some r"
    "watcher r = WatcherFinished" "serve_at r = ServeReturned None"
    using resting_acts [of c rt send] c m(3,4) assms(2) by auto
  then show ?thesis
    using that [OF js(1) history_acts [OF _ hist]] m c by (simp add: acts_append)
qed

end
