(* ===== verification/Demo_Serving.thy ===== *)
theory Demo_Serving
  imports Demo Serving
begin

section \<open>A concrete run of the server\<close>

text \<open>
  Two streams on one server. The second breaks the protocol and fails while the first is served; then the
  context is cancelled, the first stream is closed, and the server comes to rest.
\<close>

definition demo_run_start :: "action list" where
  "demo_run_start =
     [CallServe, OpenStream 0, OpenStream 1, Receive 0 (Received (RequestHeaders [] True)),
      Receive 1 (Received RequestTrailers)]"

definition demo_run_end :: "action list" where
  "demo_run_end =
     [CancelContext, CallGracefulStop, Receive 0 StreamClosed, GracefulStopReturns, ServeReturns None]"

definition demo_running :: "goroutine \<Rightarrow> watcher_phase \<Rightarrow> serve_phase \<Rightarrow> bool \<Rightarrow> running_server" where
  "demo_running g w p cancelled =
     \<lparr>shared = demo_server,
      goroutines = [0 \<mapsto> g, 1 \<mapsto> Finished [] (Some (Violation (ProtocolViolation ''RequestHeaders'' RequestTrailers)))],
      context_done = cancelled, watcher = w, serve_at = p\<rparr>"

lemma demo_bodiless:
  "handle demo_runtime (\<lparr>server = demo_server, buf = []\<rparr>, AwaitingRequestHeaders) (RequestHeaders [] True) =
     Inr ((\<lparr>server = demo_server, buf = []\<rparr>, AwaitingRequestHeaders), forbiddenResponse)"
  by (simp add: handle_defs start_request_def checkHeaders_def request_host_def)

lemma demo_violation:
  "handle demo_runtime (\<lparr>server = demo_server, buf = []\<rparr>, AwaitingRequestHeaders) RequestTrailers =
     Inl (ProtocolViolation ''RequestHeaders'' RequestTrailers)"
  by (simp add: handle_defs)

lemma demo_history_start:
  "history demo_runtime (\<lambda>i sent rep. None) documented demo_server demo_run_start
     (demo_running (InLoop [] AwaitingRequestHeaders forbiddenResponse) AwaitingCancel InServe False)"
  by (rule acts_history)
    (simp add: demo_run_start_def launched_def act_def spawned_def iteration_def demo_bodiless
      demo_violation send_all_ok demo_running_def fun_upd_twist)

lemma demo_history:
  "history demo_runtime (\<lambda>i sent rep. None) documented demo_server (demo_run_start @ demo_run_end)
     (demo_running (Finished forbiddenResponse None) WatcherFinished (ServeReturned None) True)"
  by (rule history_acts [OF _ demo_history_start])
    (simp add: demo_run_end_def act_def iteration_def demo_running_def fun_upd_twist)

lemma documented_self: "grpc_documented documented"
  by (simp add: grpc_documented_def)

end
