(* ===== verification/Json_Text.thy ===== *)
theory Json_Text
  imports Go_Value
begin

section \<open>JSON text reads back\<close>

text \<open>
  The encoder against the parser: a quoted string is read back as itself, with every invalid byte
  replaced by U+FFFD, whatever it contains, and arrays and objects of texts that read back read back.
  So nothing inside a string can end it early or add members to the object around it.
\<close>

subsection \<open>Code points and their bytes\<close>

text \<open>A piece of a split string, decoded in front of any other bytes.\<close>

definition good_piece :: "nat \<times> string \<Rightarrow> bool" where
  "good_piece p \<longleftrightarrow>
     (\<exists>c. is_ascii c \<and> p = (byte_of c, [c])) \<or>
     (\<exists>c. \<not> is_ascii c \<and> p = (rune_error, [c])) \<or>
     (\<exists>c cs. \<not> is_ascii c \<and> cs \<noteq> [] \<and> snd p = c # cs \<and> 128 \<le> fst p \<and>
        (\<forall>t. decode_rune ((c # cs) @ t) = (fst p, Suc (length cs))))"

lemma decode2_prefix:
  "decode2 b s = (r, w) \<Longrightarrow> w \<noteq> 1 \<Longrightarrow> w = 2 \<and> 1 \<le> length s \<and> decode2 b (take 1 s @ t) = (r, w)"
  by (cases s) (auto simp: decode2_def split: if_splits)

lemma decode3_prefix:
  "decode3 b s = (r, w) \<Longrightarrow> w \<noteq> 1 \<Longrightarrow> w = 3 \<and> 2 \<le> length s \<and> decode3 b (take 2 s @ t) = (r, w)"
  by (cases s; cases "tl s") (auto simp: decode3_def split: if_splits)

lemma decode4_prefix:
  "decode4 b s = (r, w) \<Longrightarrow> w \<noteq> 1 \<Longrightarrow> w = 4 \<and> 3 \<le> length s \<and> decode4 b (take 3 s @ t) = (r, w)"
  by (cases s; cases "tl s"; cases "tl (tl s)") (auto simp: decode4_def split: if_splits)

lemma decode_rune_Cons:
  "\<not> is_ascii c \<Longrightarrow> decode_rune (c # cs) =
     (if 0xC2 \<le> byte_of c \<and> byte_of c \<le> 0xDF then decode2 (byte_of c) cs
      else if 0xE0 \<le> byte_of c \<and> byte_of c \<le> 0xEF then decode3 (byte_of c) cs
      else if 0xF0 \<le> byte_of c \<and> byte_of c \<le> 0xF4 then decode4 (byte_of c) cs
      else (rune_error, 1))"
  by (simp add: decode_rune.simps(2) is_ascii_def Let_def)

lemma decode_parts_error:
  "snd (decode2 b cs) = 1 \<Longrightarrow> fst (decode2 b cs) = rune_error"
  "snd (decode3 b cs) = 1 \<Longrightarrow> fst (decode3 b cs) = rune_error"
  "snd (decode4 b cs) = 1 \<Longrightarrow> fst (decode4 b cs) = rune_error"
  by (auto simp: decode2_def decode3_def decode4_def split: list.splits if_splits)

lemma decode_rune_prefix:
  assumes "\<not> is_ascii c" and "decode_rune (c # cs) = (r, w)" and "w \<noteq> 1"
  shows "2 \<le> w \<and> w \<le> Suc (length cs) \<and> decode_rune ((c # take (w - 1) cs) @ t) = (r, w)"
  using assms(2,3) decode2_prefix [of "byte_of c" cs r w t] decode3_prefix [of "byte_of c" cs r w t]
    decode4_prefix [of "byte_of c" cs r w t]
  by (auto simp: decode_rune_Cons [OF assms(1)] split: if_splits)

lemma decode_rune_error:
  "\<not> is_ascii c \<Longrightarrow> decode_rune (c # cs) = (r, 1) \<Longrightarrow> r = rune_error"
  using decode_parts_error [of "byte_of c" cs]
  by (auto simp: decode_rune_Cons split: if_splits)

lemma first_piece_good:
  assumes "decode_rune (c # cs) = (r, w)"
  shows "good_piece (r, take w (c # cs))"
proof (cases "is_ascii c")
  case True
  with assms show ?thesis by (auto simp: good_piece_def decode_rune_ascii)
next
  case False
  show ?thesis
  proof (cases "w = 1")
    case True
    with False assms decode_rune_error [OF False] show ?thesis by (auto simp: good_piece_def)
  next
    case w: False
    note pre = decode_rune_prefix [OF False assms w]
    obtain v where v: "w = Suc (Suc v)" using pre [of "[]"] by (metis Suc_le_D numeral_2_eq_2 Suc_le_mono)
    have "128 \<le> r" using decode_rune_nonascii [OF False, of cs] assms by simp
    moreover have "length (take (Suc v) cs) = Suc v" using pre [of "[]"] v by simp
    moreover from this have "take (Suc v) cs \<noteq> []" by auto
    ultimately show ?thesis using pre False v unfolding good_piece_def
      by (intro disjI2 exI [of _ c] exI [of _ "take (Suc v) cs"]) simp
  qed
qed

lemma pieces_good: "list_all good_piece (split_runes s)"
proof (induction s rule: split_runes.induct)
  case (1 s)
  show ?case
  proof (cases s)
    case Nil
    then show ?thesis by simp
  next
    case (Cons c cs)
    obtain r w where rw: "decode_rune s = (r, w)" by fastforce
    with "1" [OF Cons, of "(r, w)" r w] first_piece_good [of c cs r w] Cons
    show ?thesis by (simp add: split_runes_Cons [of c cs r w])
  qed
qed

subsection \<open>Escapes\<close>

lemma hex_val_lower: "d < 16 \<Longrightarrow> hex_val (hex_lower d) = Some d"
  by (simp add: hex_val_def hex_lower_def Let_def)

lemma hex_digits_4:
  "hex_digits 4 v =
     [hex_lower (v div 4096 mod 16), hex_lower (v div 256 mod 16), hex_lower (v div 16 mod 16), hex_lower (v mod 16)]"
proof -
  have four: "4 = Suc (Suc (Suc (Suc 0)))" by simp
  show ?thesis unfolding four hex_digits.simps by simp
qed

lemma hex4_digits:
  assumes "v < 65536"
  shows "hex4 (hex_digits 4 v @ t) = Some (v, t)"
proof -
  define a b c where "a = v div 16" and "b = a div 16" and "c = b div 16"
  have parts: "v div 16 = a" "v div 256 = b" "v div 4096 = c"
    by (simp_all add: a_def b_def c_def div_mult2_eq [symmetric])
  have "v = a * 16 + v mod 16" "a = b * 16 + a mod 16" "b = c * 16 + b mod 16"
    by (simp_all only: a_def b_def c_def div_mult_mod_eq)
  moreover have "c mod 16 = c" using assms parts(3) by simp
  ultimately have "c mod 16 * 4096 + b mod 16 * 256 + a mod 16 * 16 + v mod 16 = v" by linarith
  then show ?thesis unfolding hex_digits_4 parts by (simp add: hex_val_lower)
qed

lemma lex_string_hex:
  assumes "v < 65536" and "\<not> is_surrogate v"
  shows "lex_string (CHR 0x5C # CHR ''u'' # hex_digits 4 v @ t) =
    map_option (map_prod ((@) (encode_rune v)) id) (lex_string t)"
  using assms by (simp add: lex_string_escape lex_escape_def hex4_digits)

lemma encode_rune_ascii: "is_ascii c \<Longrightarrow> encode_rune (byte_of c) = [c]"
  by (simp add: encode_rune_def is_ascii_def)

lemma lex_string_char:
  assumes "is_ascii c"
  shows "lex_string (json_escape_char c @ t) = map_option (map_prod ((@) [c]) id) (lex_string t)"
proof -
  have simple: "lex_string (CHR 0x5C # e # t) = map_option (map_prod ((@) [x]) id) (lex_string t)"
    if "e \<noteq> CHR ''u''" "simple_escape e = Some x" for e x
    using that by (simp add: lex_string_escape lex_escape_def)
  consider (q) "c = CHR 0x22 \<or> c = CHR 0x5C" | (b) "c = CHR 0x08" | (f) "c = CHR 0x0C" | (n) "c = CHR 0x0A"
    | (r) "c = CHR 0x0D" | (t) "c = CHR 0x09"
    | (hex) "c \<noteq> CHR 0x22" "c \<noteq> CHR 0x5C" "c \<notin> {CHR 0x08, CHR 0x0C, CHR 0x0A, CHR 0x0D, CHR 0x09}"
        "byte_of c < 32 \<or> c = CHR ''<'' \<or> c = CHR ''>'' \<or> c = CHR ''&''"
    | (plain) "c \<noteq> CHR 0x22" "c \<noteq> CHR 0x5C" "c \<notin> {CHR 0x08, CHR 0x0C, CHR 0x0A, CHR 0x0D, CHR 0x09}"
        "\<not> byte_of c < 32" "c \<noteq> CHR ''<''" "c \<noteq> CHR ''>''" "c \<noteq> CHR ''&''"
    by blast
  then show ?thesis
  proof cases
    case hex
    have "byte_of c < 65536" "\<not> is_surrogate (byte_of c)" using assms by (simp_all add: is_ascii_def is_surrogate_def)
    from lex_string_hex [OF this, of t] hex show ?thesis
      by (simp add: json_escape_char_def encode_rune_ascii [OF assms])
  next
    case plain
    then show ?thesis using assms
      by (simp add: json_escape_char_def lex_string_plain) (cases "lex_string t"; auto)
  qed (auto simp: json_escape_char_def simple simple_escape_def)
qed

lemma lex_string_piece:
  assumes "good_piece p"
  shows "lex_string (json_escape_rune p @ t) =
    map_option (map_prod ((@) (encode_rune (fst p))) id) (lex_string t)"
  using assms unfolding good_piece_def
proof (elim disjE exE conjE)
  fix c assume "is_ascii c" "p = (byte_of c, [c])"
  then show ?thesis using lex_string_char [of c t]
    by (simp add: json_escape_rune_def encode_rune_ascii) (simp add: is_ascii_def)
next
  fix c assume "p = (rune_error, [c])"
  moreover have "''fffd'' = hex_digits 4 rune_error"
    unfolding hex_digits_4 by (simp add: rune_error_def hex_lower_def char_of_def bit_0)
  ultimately show ?thesis using lex_string_hex [of rune_error t]
    by (simp add: json_escape_rune_def rune_error_def is_surrogate_def)
next
  fix c cs
  assume c: "\<not> is_ascii c" "cs \<noteq> []" "snd p = c # cs" "128 \<le> fst p"
    and dec: "\<forall>t. decode_rune ((c # cs) @ t) = (fst p, Suc (length cs))"
  have nq: "c \<noteq> CHR 0x22" "c \<noteq> CHR 0x5C" using c(1) by (auto simp: is_ascii_def)
  show ?thesis
  proof (cases "fst p = 0x2028 \<or> fst p = 0x2029")
    case True
    then have "json_escape_rune p = [CHR 0x5C, CHR ''u''] @ hex_digits 4 (fst p)"
      using c by (cases p) (auto simp: json_escape_rune_def rune_error_def)
    then show ?thesis using lex_string_hex [of "fst p" t] True by (auto simp: is_surrogate_def)
  next
    case False
    then have "json_escape_rune p = c # cs"
      using c by (cases p) (auto simp: json_escape_rune_def)
    then show ?thesis using lex_string_utf8 [OF nq c(1) dec [rule_format, of t, simplified]] by simp
  qed
qed

subsection \<open>Strings\<close>

text \<open>The string with every invalid byte replaced; a valid string is left as it is.\<close>

definition to_valid :: "string \<Rightarrow> string" where
  "to_valid s = concat (map encode_rune (runes s))"

lemma to_valid_ascii: "list_all is_ascii s \<Longrightarrow> to_valid s = s"
  by (induction s) (simp_all add: to_valid_def runes_def split_runes_ascii_Cons encode_rune_ascii)

lemma lex_string_quoted:
  "lex_string (concat (map json_escape_rune (split_runes s)) @ CHR 0x22 # t) = Some (to_valid s, t)"
proof -
  have "lex_string (concat (map json_escape_rune ps) @ CHR 0x22 # t) =
      Some (concat (map (encode_rune \<circ> fst) ps), t)" if "list_all good_piece ps" for ps
    using that by (induction ps) (simp_all add: lex_string_quote lex_string_piece)
  from this [OF pieces_good [of s]] show ?thesis by (simp add: to_valid_def runes_def)
qed

subsection \<open>Texts that read back\<close>

text \<open>A text that is read as a value whatever follows it, with brackets to spare.\<close>

definition reads_as :: "nat \<Rightarrow> string \<Rightarrow> json \<Rightarrow> bool" where
  "reads_as d txt v \<longleftrightarrow> (\<forall>t. parse_value d (txt @ t) = Some (v, t))"

text \<open>What may follow a value, and a text that is read as a value if that follows it.\<close>

definition closes :: "string \<Rightarrow> bool" where
  "closes u \<longleftrightarrow> u = [] \<or> hd u = CHR '','' \<or> hd u = CHR '']'' \<or> hd u = CHR ''}''"

lemma closes_Cons [simp]: "closes (CHR '','' # u)" "closes (CHR '']'' # u)" "closes (CHR ''}'' # u)"
  by (simp_all add: closes_def)

definition reads_before :: "nat \<Rightarrow> string \<Rightarrow> json \<Rightarrow> bool" where
  "reads_before d txt v \<longleftrightarrow> (\<forall>u. closes u \<longrightarrow> parse_value d (txt @ u) = Some (v, u))"

lemma reads_as_before: "reads_as d txt v \<Longrightarrow> reads_before d txt v"
  by (simp add: reads_as_def reads_before_def)

lemma skip_ws_Cons: "\<not> is_ws c \<Longrightarrow> skip_ws (c # s) = c # s"
  by (simp add: skip_ws_def)

lemma not_ws: "\<not> is_ws (CHR 0x22)" "\<not> is_ws (CHR ''['')" "\<not> is_ws (CHR '']'')" "\<not> is_ws (CHR ''{'')"
  "\<not> is_ws (CHR ''}'')" "\<not> is_ws (CHR '','')" "\<not> is_ws (CHR '':'')" "\<not> is_ws (CHR ''t'')"
  by (simp_all add: is_ws_def)

lemma quote_reads: "reads_as d (json_quote s) (JStr (to_valid s))"
  by (simp add: reads_as_def json_quote_def parse_value.simps skip_ws_Cons not_ws lex_string_quoted)

lemma true_reads: "reads_as d ''true'' (JBool True)"
  by (simp add: reads_as_def parse_value.simps skip_ws_Cons not_ws has_prefix_def)

text \<open>A text that reads back is not empty and starts neither with white space nor a closing bracket.\<close>

lemma reads_as_parse: "reads_as d txt v \<Longrightarrow> parse_value d (txt @ t) = Some (v, t)"
  by (simp add: reads_as_def)

lemma reads_before_parse: "reads_before d txt v \<Longrightarrow> closes t \<Longrightarrow> parse_value d (txt @ t) = Some (v, t)"
  by (simp add: reads_before_def)

lemma parse_elems_reads:
  assumes "list_all2 (reads_before d) txts vs" and "txts \<noteq> []"
  shows "parse_elems d (join txts '','' @ CHR '']'' # t) = Some (vs, t)"
  using assms
proof (induction txts vs rule: list_all2_induct)
  case Nil
  then show ?case by simp
next
  case (Cons x txts v vs)
  note x = reads_before_parse [OF Cons.hyps(1)]
  show ?case
  proof (cases txts)
    case Nil
    with Cons show ?thesis by (simp add: parse_elems.simps [of d "x @ _"] x skip_ws_Cons not_ws)
  next
    case (Cons y ys)
    with Cons.IH show ?thesis
      by (simp add: parse_elems.simps [of d "x @ _"] x skip_ws_Cons not_ws)
  qed
qed

lemma parse_members_reads:
  assumes "list_all2 (\<lambda>p q. to_valid (fst p) = fst q \<and> reads_before d (snd p) (snd q)) kvs vs" and "kvs \<noteq> []"
  shows "parse_members d (join (map (\<lambda>p. json_quote (fst p) @ '':'' @ snd p) kvs) '','' @ CHR ''}'' # t) =
    Some (vs, t)"
  using assms
proof (induction kvs vs rule: list_all2_induct)
  case Nil
  then show ?case by simp
next
  case (Cons p kvs q vs)
  note x = reads_before_parse [OF Cons.hyps(1) [THEN conjunct2]]
  have one: "parse_members d (json_quote (fst p) @ CHR '':'' # snd p @ e # r) =
     (if e = CHR '','' then map_option (map_prod ((#) q) id) (parse_members d r)
      else if e = CHR ''}'' then Some ([q], r) else None)" if "\<not> is_ws e" "closes (e # r)" for e r
    using that Cons.hyps(1)
    by (cases q)
      (simp add: json_quote_def parse_members.simps [of d "_ # _"] skip_ws_Cons not_ws lex_string_quoted x)
  show ?case
  proof (cases kvs)
    case Nil
    with Cons one [of "CHR ''}''" t] show ?thesis by (simp add: not_ws)
  next
    case k: (Cons p' kvs')
    from k one [of "CHR '',''"] Cons.IH show ?thesis by (simp add: not_ws)
  qed
qed

lemma array_reads:
  assumes "list_all2 (reads_before d) txts vs" and "txts \<noteq> []"
    and "\<forall>t. skip_ws (hd txts @ t) \<noteq> [] \<and> hd (skip_ws (hd txts @ t)) \<noteq> CHR '']''"
  shows "reads_as (Suc d) (json_array txts) (JArr vs)"
proof -
  have "join txts '','' = hd txts @ drop (length (hd txts)) (join txts '','')"
    using assms(2) by (cases txts; cases "tl txts") simp_all
  then have "skip_ws (join txts '','' @ t) \<noteq> [] \<and> hd (skip_ws (join txts '','' @ t)) \<noteq> CHR '']''" for t
    using assms(3) by (metis append.assoc)
  then show ?thesis
    using parse_elems_reads [OF assms(1,2)]
    by (simp add: reads_as_def json_array_def parse_value.simps [of "Suc d" "_ # _"] skip_ws_Cons not_ws)
qed

lemma object_reads:
  assumes "list_all2 (\<lambda>p q. to_valid (fst p) = fst q \<and> reads_before d (snd p) (snd q)) kvs vs" and "kvs \<noteq> []"
  shows "reads_as (Suc d) (json_object kvs) (JObj vs)"
proof -
  let ?txt = "join (map (\<lambda>p. json_quote (fst p) @ '':'' @ snd p) kvs) '',''"
  have "\<exists>r. ?txt = CHR 0x22 # r"
    using assms(2) by (cases kvs rule: list.exhaust; cases "tl kvs") (simp_all add: json_quote_def)
  then obtain r where r: "?txt = CHR 0x22 # r" by blast
  then have "skip_ws (?txt @ t) = ?txt @ t" for t by (simp add: skip_ws_Cons not_ws)
  with r parse_members_reads [OF assms] show ?thesis
    by (simp add: reads_as_def json_object_def parse_value.simps [of "Suc d" "_ # _"] skip_ws_Cons not_ws)
qed

lemma parse_json_reads: "reads_as max_nesting_depth s v \<Longrightarrow> parse_json s = Some v"
  using reads_as_parse [of max_nesting_depth s v "[]"] by (simp add: parse_json_def skip_ws_def)

end
