(* ===== verification/Json_Compact.thy ===== *)
theory Json_Compact
  imports Json_Text
begin

section \<open>Compacted JSON has the same value\<close>

text \<open>
  \<open>json.Marshal\<close> of a \<open>RawMessage\<close> compacts it: white space between tokens goes, and some characters
  inside strings are escaped. Here it is shown that the parser reads the same value from the
  compacted text, also when it stands inside a larger text.
\<close>

subsection \<open>Continuation bytes are left alone\<close>

definition cont :: "char \<Rightarrow> bool" where
  "cont c \<longleftrightarrow> 128 \<le> byte_of c \<and> byte_of c \<le> 191"

definition escaped_html :: "char \<Rightarrow> bool" where
  "escaped_html c \<longleftrightarrow> c = CHR ''<'' \<or> c = CHR ''>'' \<or> c = CHR ''&''"

text \<open>The two code points that are escaped because JavaScript takes them for line ends.\<close>

definition separator :: "string \<Rightarrow> bool" where
  "separator s \<longleftrightarrow>
     take 1 s = [CHR 0xE2] \<and> take 1 (drop 1 s) = [CHR 0x80] \<and>
     (take 1 (drop 2 s) = [CHR 0xA8] \<or> take 1 (drop 2 s) = [CHR 0xA9])"

lemma compact_string_Cons:
  "compact True (c # cs) =
     (if escaped_html c then [CHR 0x5C, CHR ''u''] @ hex_digits 4 (byte_of c) @ compact True cs
      else if separator (c # cs)
      then [CHR 0x5C, CHR ''u''] @ ''202'' @ [hex_lower (byte_of (hd (drop 1 cs)) - 0xA0)] @
           compact True (drop 2 cs)
      else if c = CHR 0x5C then (case cs of [] \<Rightarrow> [c] | e # es \<Rightarrow> c # e # compact True es)
      else if c = CHR 0x22 then c # compact False cs
      else c # compact True cs)"
  by (simp add: escaped_html_def separator_def numeral_2_eq_2)

declare compact.simps(2) [simp del]

lemma cont_plain: "cont c \<Longrightarrow> \<not> escaped_html c \<and> c \<noteq> CHR 0xE2 \<and> c \<noteq> CHR 0x5C \<and> c \<noteq> CHR 0x22"
  by (auto simp: cont_def escaped_html_def)

lemma compact_cont: "cont c \<Longrightarrow> compact True (c # cs) = c # compact True cs"
  using cont_plain [of c] by (simp add: compact_string_Cons separator_def)

lemma compact_conts: "list_all cont xs \<Longrightarrow> compact True (xs @ s) = xs @ compact True s"
  by (induction xs) (simp_all add: compact_cont)

lemma hd_compact:
  assumes "compact True cs = a # rest" and "cont a"
  shows "\<exists>s. cs = a # s \<and> rest = compact True s"
  using assms cont_plain [OF assms(2)]
  by (cases cs) (auto simp: compact_string_Cons split: if_splits list.splits)

lemma conts_of_compact:
  "compact True cs = xs @ rest \<Longrightarrow> list_all cont xs \<Longrightarrow> \<exists>s. cs = xs @ s \<and> rest = compact True s"
proof (induction xs arbitrary: cs)
  case Nil
  then show ?case by simp
next
  case (Cons x xs)
  then obtain s where "cs = x # s" "xs @ rest = compact True s" using hd_compact [of cs x] by auto
  then show ?case using Cons.IH [of s] Cons.prems(2) by auto
qed

lemma is_cont_cont: "is_cont lo hi c \<Longrightarrow> 128 \<le> lo \<Longrightarrow> hi \<le> 191 \<Longrightarrow> cont c"
  by (simp add: is_cont_def cont_def)

lemma decode_parts_conts:
  "decode2 b cs = (r, w) \<Longrightarrow> w \<noteq> 1 \<Longrightarrow> list_all cont (take (w - 1) cs)"
  "decode3 b cs = (r, w) \<Longrightarrow> w \<noteq> 1 \<Longrightarrow> list_all cont (take (w - 1) cs)"
  "decode4 b cs = (r, w) \<Longrightarrow> w \<noteq> 1 \<Longrightarrow> list_all cont (take (w - 1) cs)"
  by (auto simp: decode2_def decode3_def decode4_def is_cont_def cont_def
      split: list.splits if_splits)

lemma decode_conts:
  assumes "\<not> is_ascii c" and "decode_rune (c # cs) = (r, w)" and "w \<noteq> 1"
  shows "list_all cont (take (w - 1) cs)"
  using assms(2,3) decode_parts_conts [of "byte_of c" cs r w]
  by (auto simp: decode_rune_Cons [OF assms(1)] split: if_splits)

text \<open>Decoding looks at a byte and its continuation bytes only.\<close>

lemma decode_same_conts:
  assumes c: "\<not> is_ascii c" and dec: "decode_rune (c # cs) = (r, w)"
    and same: "\<And>xs s. cs' = xs @ s \<Longrightarrow> list_all cont xs \<Longrightarrow> \<exists>s'. cs = xs @ s'"
    and same': "\<And>xs s. cs = xs @ s \<Longrightarrow> list_all cont xs \<Longrightarrow> \<exists>s'. cs' = xs @ s'"
  shows "decode_rune (c # cs') = (r, w)"
proof -
  have step: "decode_rune (c # bs) = (r, w)"
    if "decode_rune (c # as) = (r, w)" "w \<noteq> 1" and bs: "\<exists>s. bs = take (w - 1) as @ s" for as bs r w
    using decode_rune_prefix [OF c that(1,2)] bs by auto
  show ?thesis
  proof (cases "w = 1")
    case False
    have "cs = take (w - 1) cs @ drop (w - 1) cs" by simp
    from same' [OF this decode_conts [OF c dec False]] step [OF dec False] show ?thesis by blast
  next
    case True
    obtain r' w' where dec': "decode_rune (c # cs') = (r', w')" by fastforce
    have "w' = 1"
    proof (rule ccontr)
      assume "w' \<noteq> 1"
      have "cs' = take (w' - 1) cs' @ drop (w' - 1) cs'" by simp
      from same [OF this decode_conts [OF c dec' \<open>w' \<noteq> 1\<close>]] step [OF dec' \<open>w' \<noteq> 1\<close>]
      have "decode_rune (c # cs) = (r', w')" by blast
      with dec True \<open>w' \<noteq> 1\<close> show False by simp
    qed
    with dec' True dec decode_rune_error [OF c] show ?thesis by blast
  qed
qed

lemma decode_compact:
  assumes "\<not> is_ascii c" and "decode_rune (c # cs) = (r, w)"
  shows "decode_rune (c # compact True cs) = (r, w)"
    and "drop (w - 1) (compact True cs) = compact True (drop (w - 1) cs)"
proof -
  show "decode_rune (c # compact True cs) = (r, w)"
    using assms
  proof (rule decode_same_conts)
    show "\<exists>s'. cs = xs @ s'" if "compact True cs = xs @ s" "list_all cont xs" for xs s
      using conts_of_compact [OF that] by blast
    show "\<exists>s'. compact True cs = xs @ s'" if "cs = xs @ s" "list_all cont xs" for xs s
      using compact_conts [OF that(2), of s] that(1) by blast
  qed
  show "drop (w - 1) (compact True cs) = compact True (drop (w - 1) cs)"
  proof (cases "w = 1")
    case False
    have "compact True (take (w - 1) cs @ drop (w - 1) cs) = take (w - 1) cs @ compact True (drop (w - 1) cs)"
      by (rule compact_conts [OF decode_conts [OF assms False]])
    moreover have "w - 1 \<le> length cs" using decode_rune_prefix [OF assms False] by fastforce
    then have "length (take (w - 1) cs) = w - 1" by simp
    ultimately show ?thesis by (metis append_eq_conv_conj append_take_drop_id)
  qed simp
qed

subsection \<open>Strings\<close>

lemma hex_val_plain: "hex_val c = Some v \<Longrightarrow> compact True (c # cs) = c # compact True cs"
proof -
  assume "hex_val c = Some v"
  then have "48 \<le> byte_of c" "byte_of c \<le> 102" "byte_of c \<notin> {60, 62, 92}"
    by (auto simp: hex_val_def Let_def split: if_splits)
  then have "\<not> escaped_html c" "c \<noteq> CHR 0x5C" "c \<noteq> CHR 0x22" "c \<noteq> CHR 0xE2"
    by (auto simp: escaped_html_def)
  then show ?thesis by (simp add: compact_string_Cons separator_def)
qed

lemma hex4_parts:
  "hex4 s = Some (r, t) \<Longrightarrow>
   \<exists>a b c d w x y z. s = [a, b, c, d] @ t \<and> hex_val a = Some w \<and> hex_val b = Some x \<and>
     hex_val c = Some y \<and> hex_val d = Some z \<and> r = w * 4096 + x * 256 + y * 16 + z"
  by (cases s rule: hex4.cases) (auto split: option.splits)

lemma hex4_compact: "hex4 s = Some (r, t) \<Longrightarrow> hex4 (compact True s) = Some (r, compact True t)"
  by (drule hex4_parts) (auto simp: hex_val_plain)

lemma hex4_escape: "v < 0xDC00 \<Longrightarrow> low_surrogate r (CHR 0x5C # CHR ''u'' # hex_digits 4 v @ t) = None"
  by (simp add: hex4_digits)

text \<open>The escape written for a separator.\<close>

lemma separator_parts:
  assumes "separator s"
  shows "\<exists>v t. (v = 0x2028 \<or> v = 0x2029) \<and> decode_rune s = (v, 3) \<and> drop 3 s = t \<and>
     compact True s = CHR 0x5C # CHR ''u'' # hex_digits 4 v @ compact True t"
proof -
  from assms obtain x t where s: "s = CHR 0xE2 # CHR 0x80 # x # t" and x: "x = CHR 0xA8 \<or> x = CHR 0xA9"
    by (cases s; cases "tl s"; cases "tl (tl s)") (auto simp: separator_def numeral_2_eq_2)
  define v :: nat where "v = (if x = CHR 0xA8 then 0x2028 else 0x2029)"
  have na: "\<not> is_ascii (CHR 0xE2)" by (simp add: is_ascii_def)
  have "decode_rune s = (v, 3)"
    using x by (auto simp: s v_def decode_rune_Cons [OF na] decode3_def is_cont_def cont_bits_def)
  moreover have "''202'' @ [hex_lower (byte_of x - 0xA0)] = hex_digits 4 v"
    using x by (auto simp: v_def hex_digits_4 hex_lower_def char_of_def bit_0)
  then have "compact True s = CHR 0x5C # CHR ''u'' # hex_digits 4 v @ compact True t"
    using assms by (simp add: s compact_string_Cons escaped_html_def)
  moreover have "drop 3 s = t" by (simp add: s)
  ultimately show ?thesis by (intro exI [of _ v] exI [of _ t]) (auto simp: v_def)
qed

lemma low_surrogate_other: "a \<noteq> CHR 0x5C \<Longrightarrow> low_surrogate r (a # s) = None"
  by (cases s) simp_all

lemma compact_escape: "compact True (CHR 0x5C # e # es) = CHR 0x5C # e # compact True es"
  by (simp add: compact_string_Cons escaped_html_def separator_def)

lemma low_surrogate_some:
  assumes "low_surrogate r t = Some (v, u)"
  shows "low_surrogate r (compact True t) = Some (v, compact True u)"
proof -
  obtain s r2 where "t = CHR 0x5C # CHR ''u'' # s" "hex4 s = Some (r2, u)"
    "r < 0xDC00 \<and> 0xDC00 \<le> r2 \<and> r2 \<le> 0xDFFF" "v = (r - 0xD800) * 1024 + (r2 - 0xDC00) + 0x10000"
    using assms by (cases "(r, t)" rule: low_surrogate.cases) (auto split: if_splits option.splits)
  then show ?thesis by (simp add: compact_escape hex4_compact)
qed

text \<open>What begins no second half before compaction begins none after it.\<close>

lemma low_surrogate_none:
  assumes "lex_string t \<noteq> None" and "low_surrogate r t = None"
  shows "low_surrogate r (compact True t) = None"
proof -
  obtain a t' where t: "t = a # t'" using assms(1) by (cases t) (simp_all add: lex_string_Nil)
  consider "a = CHR 0x5C" | "escaped_html a" | "separator t" "a \<noteq> CHR 0x5C"
    | "a \<noteq> CHR 0x5C" "\<not> escaped_html a" "\<not> separator t" by blast
  then show ?thesis
  proof cases
    case 1
    with assms(1) t obtain b s' where s': "t = CHR 0x5C # b # s'"
      by (cases t') (auto simp: lex_string_escape lex_escape_def)
    show ?thesis
    proof (cases "b = CHR ''u''")
      case True
      with assms(1) s' obtain r2 u where "hex4 s' = Some (r2, u)"
        by (auto simp: lex_string_escape lex_escape_def split: option.splits)
      then show ?thesis using assms(2) s' True by (auto simp: compact_escape hex4_compact split: if_splits)
    next
      case False
      then show ?thesis by (simp add: s' compact_escape)
    qed
  next
    case 2
    then have "byte_of a < 0xDC00" by (auto simp: escaped_html_def)
    from hex4_escape [OF this] 2 show ?thesis by (simp add: t compact_string_Cons)
  next
    case 3
    then obtain v u where "v = 0x2028 \<or> v = 0x2029"
      and c: "compact True t = CHR 0x5C # CHR ''u'' # hex_digits 4 v @ compact True u"
      using separator_parts by blast
    then have "v < 0xDC00" by auto
    from hex4_escape [OF this] show ?thesis unfolding c .
  next
    case 4
    then show ?thesis by (simp add: t compact_string_Cons low_surrogate_other)
  qed
qed

lemma lex_escape_compact:
  assumes "lex_escape s = Some (x, t)" and "lex_string t \<noteq> None"
  shows "\<exists>e es. s = e # es \<and> lex_escape (e # compact True es) = Some (x, compact True t)"
proof -
  obtain e es where s: "s = e # es" using assms(1) by (cases s) (auto simp: lex_escape_def)
  show ?thesis
  proof (cases "e = CHR ''u''")
    case False
    with assms(1) s show ?thesis by (auto simp: lex_escape_def)
  next
    case True
    with assms(1) s obtain r t1 where h: "hex4 es = Some (r, t1)"
      by (auto simp: lex_escape_def split: option.splits)
    note hc = hex4_compact [OF h]
    show ?thesis
    proof (cases "is_surrogate r")
      case False
      with assms(1) s True h hc show ?thesis by (simp add: lex_escape_def)
    next
      case sur: True
      show ?thesis
      proof (cases "low_surrogate r t1")
        case None
        with assms s True h sur have "t1 = t" "x = encode_rune rune_error" by (simp_all add: lex_escape_def)
        with low_surrogate_none [OF assms(2)] None s True hc sur show ?thesis by (simp add: lex_escape_def)
      next
        case (Some p)
        obtain v u where p: "p = (v, u)" by (cases p)
        with Some low_surrogate_some [of r t1 v u] assms(1) s True h hc sur show ?thesis
          by (simp add: lex_escape_def)
      qed
    qed
  qed
qed

lemma lex_string_compact:
  "lex_string s = Some (x, t) \<Longrightarrow> lex_string (compact True s) = Some (x, compact False t)"
proof (induction "length s" arbitrary: s x t rule: less_induct)
  case less
  obtain c cs where s: "s = c # cs"
    using less.prems by (cases s) (simp_all add: lex_string_Nil)
  have IH: "lex_string (compact True s') = Some (x', compact False t')"
    if "lex_string s' = Some (x', t')" "length s' < length s" for s' x' t'
    using less.hyps that by blast
  consider (quote) "c = CHR 0x22" | (esc) "c = CHR 0x5C" | (html) "escaped_html c"
    | (control) "c \<noteq> CHR 0x22" "c \<noteq> CHR 0x5C" "byte_of c < 32"
    | (plain) "c \<noteq> CHR 0x22" "c \<noteq> CHR 0x5C" "\<not> escaped_html c" "\<not> byte_of c < 32" "is_ascii c"
    | (sep) "separator s"
    | (utf8) "c \<noteq> CHR 0x22" "c \<noteq> CHR 0x5C" "\<not> escaped_html c" "\<not> is_ascii c" "\<not> separator s"
    by blast
  then show ?case
  proof cases
    case quote
    with less.prems s show ?thesis
      by (simp add: lex_string_quote compact_string_Cons escaped_html_def separator_def)
  next
    case esc
    with less.prems s obtain y u z where u: "lex_escape cs = Some (y, u)" "lex_string u = Some (z, t)" "x = y @ z"
      by (auto simp: lex_string_escape split: option.splits prod.splits)
    then obtain e es where e: "cs = e # es" "lex_escape (e # compact True es) = Some (y, compact True u)"
      using lex_escape_compact [OF u(1)] by auto
    have "compact True s = CHR 0x5C # e # compact True es"
      by (simp add: s esc e compact_string_Cons escaped_html_def separator_def)
    then show ?thesis
      using IH [OF u(2)] length_lex_escape [OF u(1)] e(2) s u(3) by (simp add: lex_string_escape)
  next
    case html
    then have "\<not> byte_of c < 32" "is_ascii c" "c \<noteq> CHR 0x22" "c \<noteq> CHR 0x5C" "\<not> is_surrogate (byte_of c)"
      by (auto simp: escaped_html_def is_ascii_def is_surrogate_def)
    moreover from this less.prems s obtain z where z: "lex_string cs = Some (z, t)" "x = c # z"
      by (auto simp: lex_string_plain)
    ultimately show ?thesis
      using IH [OF z(1)] html s lex_string_hex [of "byte_of c" "compact True cs"]
      by (simp add: compact_string_Cons encode_rune_ascii is_ascii_def)
  next
    case control
    with less.prems s show ?thesis by (simp add: lex_string_control)
  next
    case plain
    with less.prems s obtain z where z: "lex_string cs = Some (z, t)" "x = c # z"
      by (auto simp: lex_string_plain)
    have "c \<noteq> CHR 0xE2" using plain(5) by (auto simp: is_ascii_def)
    with plain have "compact True s = c # compact True cs"
      by (simp add: s compact_string_Cons separator_def)
    then show ?thesis using IH [OF z(1)] s z(2) plain by (simp add: lex_string_plain)
  next
    case sep
    then obtain v u where v: "v = 0x2028 \<or> v = 0x2029" "decode_rune s = (v, 3)" "drop 3 s = u"
      "compact True s = CHR 0x5C # CHR ''u'' # hex_digits 4 v @ compact True u"
      using separator_parts by blast
    have c: "c = CHR 0xE2" using sep s by (simp add: separator_def)
    then have "\<not> is_ascii c" by (simp add: is_ascii_def)
    then obtain z where z: "lex_string u = Some (z, t)" "x = encode_rune v @ z"
      using less.prems v(2,3) s c by (auto simp: lex_string_utf8)
    have "v < 65536" "\<not> is_surrogate v" using v(1) by (auto simp: is_surrogate_def)
    moreover have "length u < length s" using v(3) s by auto
    ultimately show ?thesis using IH [OF z(1)] z(2)
      by (subst v(4)) (simp add: lex_string_hex)
  next
    case utf8
    obtain r w where rw: "decode_rune (c # cs) = (r, w)" by fastforce
    then have w: "1 \<le> w" using decode_rune_width [of "c # cs"] by simp
    then have drop: "drop w (c # as) = drop (w - 1) as" for as :: string by (cases w) simp_all
    obtain z where z: "lex_string (drop (w - 1) cs) = Some (z, t)" "x = encode_rune r @ z"
      using less.prems utf8 s by (auto simp: lex_string_utf8 [OF utf8(1,2,4) rw] drop)
    have comp: "compact True s = c # compact True cs" using utf8 by (simp add: s compact_string_Cons)
    show ?thesis
      using IH [OF z(1)] z(2) s
      by (subst comp) (simp add: lex_string_utf8 [OF utf8(1,2,4) decode_compact(1) [OF utf8(4) rw]] drop
          decode_compact(2) [OF utf8(4) rw, simplified])
  qed
qed

subsection \<open>A closed string does not see what follows\<close>

lemma unterminated: "list_all cont s \<Longrightarrow> lex_string s = None"
proof (induction "length s" arbitrary: s rule: less_induct)
  case less
  show ?case
  proof (cases s)
    case Nil
    then show ?thesis by (simp add: lex_string_Nil)
  next
    case (Cons c cs)
    with less.prems have c: "\<not> is_ascii c" "c \<noteq> CHR 0x22" "c \<noteq> CHR 0x5C"
      using cont_plain [of c] by (auto simp: cont_def is_ascii_def)
    obtain r w where rw: "decode_rune (c # cs) = (r, w)" by fastforce
    then have "1 \<le> w" using decode_rune_width [of "c # cs"] by simp
    then have "length (drop w s) < length s" using Cons by simp
    moreover have "list_all cont (drop w s)"
      using less.prems by (auto simp: list_all_iff dest: in_set_dropD)
    ultimately have "lex_string (drop w s) = None" by (rule less.hyps)
    then show ?thesis using Cons by (simp add: lex_string_utf8 [OF c(2,3,1) rw])
  qed
qed

lemma decode_append:
  assumes "\<not> is_ascii c" and "decode_rune (c # cs) = (r, w)" and "lex_string (drop (w - 1) cs) \<noteq> None"
  shows "decode_rune (c # cs @ u) = (r, w)"
  using assms(1,2)
proof (rule decode_same_conts)
  fix xs s assume eq: "cs @ u = xs @ s" and xs: "list_all cont xs"
  show "\<exists>s'. cs = xs @ s'"
  proof (rule ccontr)
    assume "\<not> (\<exists>s'. cs = xs @ s')"
    with eq obtain us where "xs = cs @ us" by (auto simp: append_eq_append_conv2)
    with xs have "list_all cont (drop (w - 1) cs)" by (auto simp: list_all_iff dest: in_set_dropD)
    from unterminated [OF this] assms(3) show False by simp
  qed
qed auto

lemma hex4_append: "hex4 s = Some (r, t) \<Longrightarrow> hex4 (s @ u) = Some (r, t @ u)"
  by (cases s rule: hex4.cases) (auto split: option.splits)

lemma low_surrogate_append_some:
  "low_surrogate r t = Some (v, y) \<Longrightarrow> low_surrogate r (t @ u) = Some (v, y @ u)"
  by (cases "(r, t)" rule: low_surrogate.cases) (auto split: if_splits option.splits simp: hex4_append)

lemma low_surrogate_append_none:
  assumes "lex_string t \<noteq> None" and "low_surrogate r t = None"
  shows "low_surrogate r (t @ u) = None"
proof -
  obtain a t' where t: "t = a # t'" using assms(1) by (cases t) (simp_all add: lex_string_Nil)
  show ?thesis
  proof (cases "a = CHR 0x5C")
    case False
    then show ?thesis by (simp add: t low_surrogate_other)
  next
    case True
    with assms(1) t obtain b s' where s': "t = CHR 0x5C # b # s'"
      by (cases t') (auto simp: lex_string_escape lex_escape_def)
    show ?thesis
    proof (cases "b = CHR ''u''")
      case True
      with assms(1) s' obtain r2 y where "hex4 s' = Some (r2, y)"
        by (auto simp: lex_string_escape lex_escape_def split: option.splits)
      then show ?thesis using assms(2) s' True hex4_append [of s' r2 y u] by (auto split: if_splits)
    next
      case False
      then show ?thesis by (simp add: s')
    qed
  qed
qed

lemma lex_escape_append:
  assumes "lex_escape s = Some (x, t)" and "lex_string t \<noteq> None"
  shows "lex_escape (s @ u) = Some (x, t @ u)"
proof -
  obtain e es where s: "s = e # es" using assms(1) by (cases s) (auto simp: lex_escape_def)
  show ?thesis
  proof (cases "e = CHR ''u''")
    case False
    with assms(1) s show ?thesis by (auto simp: lex_escape_def)
  next
    case True
    with assms(1) s obtain r t1 where h: "hex4 es = Some (r, t1)"
      by (auto simp: lex_escape_def split: option.splits)
    note ha = hex4_append [OF h, of u]
    show ?thesis
    proof (cases "low_surrogate r t1")
      case None
      then show ?thesis using assms s True h ha low_surrogate_append_none [OF assms(2), of r u]
        by (auto simp: lex_escape_def split: if_splits)
    next
      case (Some p)
      then show ?thesis using assms s True h ha low_surrogate_append_some [of r t1 "fst p" "snd p" u]
        by (cases p) (auto simp: lex_escape_def split: if_splits)
    qed
  qed
qed

lemma lex_string_append: "lex_string s = Some (x, t) \<Longrightarrow> lex_string (s @ u) = Some (x, t @ u)"
proof (induction "length s" arbitrary: s x t rule: less_induct)
  case less
  obtain c cs where s: "s = c # cs"
    using less.prems by (cases s) (simp_all add: lex_string_Nil)
  have IH: "lex_string (s' @ u) = Some (x', t' @ u)"
    if "lex_string s' = Some (x', t')" "length s' < length s" for s' x' t'
    using less.hyps that by blast
  consider "c = CHR 0x22" | "c = CHR 0x5C" | "c \<noteq> CHR 0x22" "c \<noteq> CHR 0x5C" "byte_of c < 32"
    | "c \<noteq> CHR 0x22" "c \<noteq> CHR 0x5C" "\<not> byte_of c < 32" "is_ascii c"
    | "c \<noteq> CHR 0x22" "c \<noteq> CHR 0x5C" "\<not> is_ascii c"
    by blast
  then show ?case
  proof cases
    case 1
    with less.prems s show ?thesis by (simp add: lex_string_quote)
  next
    case 2
    with less.prems s obtain y v z where v: "lex_escape cs = Some (y, v)" "lex_string v = Some (z, t)" "x = y @ z"
      by (auto simp: lex_string_escape split: option.splits prod.splits)
    then show ?thesis
      using IH [OF v(2)] length_lex_escape [OF v(1)] lex_escape_append [OF v(1), of u] 2 s
      by (simp add: lex_string_escape)
  next
    case 3
    with less.prems s show ?thesis by (simp add: lex_string_control)
  next
    case 4
    with less.prems s obtain z where "lex_string cs = Some (z, t)" "x = c # z"
      by (auto simp: lex_string_plain)
    then show ?thesis using IH [of cs z t] s 4 by (simp add: lex_string_plain)
  next
    case 5
    obtain r w where rw: "decode_rune (c # cs) = (r, w)" by fastforce
    then have "1 \<le> w" using decode_rune_width [of "c # cs"] by simp
    then have drop: "drop w (c # as) = drop (w - 1) as" for as :: string by (cases w) simp_all
    obtain z where z: "lex_string (drop (w - 1) cs) = Some (z, t)" "x = encode_rune r @ z"
      using less.prems 5 s by (auto simp: lex_string_utf8 [OF 5 rw] drop)
    have "drop (w - 1) cs \<noteq> []" using z(1) by (auto simp: lex_string_Nil)
    then have "drop (w - 1) (cs @ u) = drop (w - 1) cs @ u" by simp
    then show ?thesis
      using IH [OF z(1)] z s decode_append [OF 5(3) rw, of u]
      by (simp add: lex_string_utf8 [OF 5] drop del: drop_append)
  qed
qed

text \<open>Both together.\<close>

lemma lex_string_compact_append:
  "lex_string s = Some (x, t) \<Longrightarrow> lex_string (compact True s @ u) = Some (x, compact False t @ u)"
  by (rule lex_string_append [OF lex_string_compact])

subsection \<open>Numbers\<close>

definition num_char :: "char \<Rightarrow> bool" where
  "num_char c \<longleftrightarrow> is_digit c \<or> c = CHR ''-'' \<or> c = CHR ''+'' \<or> c = CHR ''.'' \<or> c = CHR ''e'' \<or> c = CHR ''E''"

lemma closes_not_num: "closes u \<Longrightarrow> u = c # cs \<Longrightarrow> \<not> num_char c"
  by (auto simp: closes_def num_char_def is_digit_def)

lemma num_char_facts:
  assumes "num_char c"
  shows "\<not> is_ws c" "\<not> escaped_html c" "c \<noteq> CHR 0xE2" "c \<noteq> CHR 0x22" "c \<noteq> CHR ''[''" "c \<noteq> CHR ''{''"
    "c \<noteq> CHR ''t''" "c \<noteq> CHR ''f''" "c \<noteq> CHR ''n''"
  using assms by (auto simp: num_char_def is_digit_def is_ws_def escaped_html_def)

definition no_digit :: "string \<Rightarrow> bool" where
  "no_digit s \<longleftrightarrow> s = [] \<or> \<not> is_digit (hd s)"

lemma lex_digits_Some:
  assumes "lex_digits s = Some (ds, t)"
  shows "s = ds @ t" "ds \<noteq> []" "list_all is_digit ds"
    "no_digit t' \<Longrightarrow> lex_digits (ds @ t') = Some (ds, t')"
proof -
  from assms have ds: "ds = takeWhile is_digit s" "t = dropWhile is_digit s" "ds \<noteq> []"
    by (auto simp: lex_digits_def Let_def split: if_splits)
  then show "s = ds @ t" "ds \<noteq> []" by simp_all
  show all: "list_all is_digit ds" by (auto simp: ds(1) list_all_iff dest: set_takeWhileD)
  show "lex_digits (ds @ t') = Some (ds, t')" if "no_digit t'"
  proof -
    have "takeWhile is_digit (ds @ t') = ds @ takeWhile is_digit t'"
      "dropWhile is_digit (ds @ t') = dropWhile is_digit t'"
      using all by (simp_all add: list_all_iff)
    moreover have "takeWhile is_digit t' = []" "dropWhile is_digit t' = t'"
      using that by (cases t'; simp add: no_digit_def)+
    ultimately show ?thesis using ds(3) by (simp add: lex_digits_def)
  qed
qed

lemma lex_int_Some:
  assumes "lex_int s = Some (i, t)"
  shows "s = i @ t" "i \<noteq> []" "list_all num_char i" "no_digit t' \<Longrightarrow> lex_int (i @ t') = Some (i, t')"
proof -
  have "s = i @ t \<and> i \<noteq> [] \<and> list_all num_char i \<and> (no_digit t' \<longrightarrow> lex_int (i @ t') = Some (i, t'))"
  proof (cases "\<exists>cs. s = CHR ''0'' # cs")
    case True
    with assms show ?thesis by (auto simp: lex_int_def num_char_def is_digit_def)
  next
    case False
    with assms have d: "lex_digits s = Some (i, t)" by (auto simp: lex_int_def split: list.splits if_splits)
    note f = lex_digits_Some [OF d]
    have "hd i \<noteq> CHR ''0''" using False f(1,2) by (cases i) auto
    then have "lex_int (i @ t') = lex_digits (i @ t')" using f(2) by (cases i) (simp_all add: lex_int_def)
    then show ?thesis using f by (auto simp: list_all_iff num_char_def)
  qed
  then show "s = i @ t" "i \<noteq> []" "list_all num_char i" "no_digit t' \<Longrightarrow> lex_int (i @ t') = Some (i, t')"
    by blast+
qed

lemma lex_frac_Some:
  assumes "lex_frac s = Some (f, t)"
  shows "s = f @ t" "list_all num_char f" "f = [] \<or> hd f = CHR ''.''"
    "no_digit t' \<Longrightarrow> (f = [] \<Longrightarrow> t' = [] \<or> hd t' \<noteq> CHR ''.'') \<Longrightarrow> lex_frac (f @ t') = Some (f, t')"
proof -
  have "s = f @ t \<and> list_all num_char f \<and> (f = [] \<or> hd f = CHR ''.'') \<and>
      (no_digit t' \<longrightarrow> (f = [] \<longrightarrow> t' = [] \<or> hd t' \<noteq> CHR ''.'') \<longrightarrow> lex_frac (f @ t') = Some (f, t'))"
  proof (cases "\<exists>cs. s = CHR ''.'' # cs")
    case True
    then obtain cs ds where cs: "s = CHR ''.'' # cs" "lex_digits cs = Some (ds, t)" "f = CHR ''.'' # ds"
      using assms by (auto simp: lex_frac_def)
    note d = lex_digits_Some [OF cs(2)]
    show ?thesis using cs d by (auto simp: lex_frac_def list_all_iff num_char_def)
  next
    case False
    with assms have "f = []" "t = s" by (auto simp: lex_frac_def split: list.splits if_splits)
    then show ?thesis by (auto simp: lex_frac_def split: list.splits)
  qed
  then show "s = f @ t" "list_all num_char f" "f = [] \<or> hd f = CHR ''.''"
    "no_digit t' \<Longrightarrow> (f = [] \<Longrightarrow> t' = [] \<or> hd t' \<noteq> CHR ''.'') \<Longrightarrow> lex_frac (f @ t') = Some (f, t')"
    by blast+
qed

lemma lex_exp_Some:
  assumes "lex_exp s = Some (e, t)"
  shows "s = e @ t" "list_all num_char e" "e = [] \<or> hd e = CHR ''e'' \<or> hd e = CHR ''E''"
    "closes t' \<Longrightarrow> lex_exp (e @ t') = Some (e, t')"
proof -
  have nd: "no_digit t'" if "closes t'"
    using closes_not_num [OF that] by (cases t') (auto simp: no_digit_def num_char_def)
  have "s = e @ t \<and> list_all num_char e \<and> (e = [] \<or> hd e = CHR ''e'' \<or> hd e = CHR ''E'') \<and>
      (closes t' \<longrightarrow> lex_exp (e @ t') = Some (e, t'))"
  proof (cases "\<exists>c cs. s = c # cs \<and> (c = CHR ''e'' \<or> c = CHR ''E'')")
    case True
    then obtain c d ds where c: "s = c # d # ds" "c = CHR ''e'' \<or> c = CHR ''E''"
      using assms by (auto simp: lex_exp_def split: list.splits)
    show ?thesis
    proof (cases "d = CHR ''+'' \<or> d = CHR ''-''")
      case True
      with assms c obtain q where q: "lex_digits ds = Some (q, t)" "e = c # d # q"
        by (auto simp: lex_exp_def)
      with lex_digits_Some [OF q(1)] c True nd show ?thesis
        by (auto simp: lex_exp_def list_all_iff num_char_def)
    next
      case False
      with assms c obtain q where q: "lex_digits (d # ds) = Some (q, t)" "e = c # q"
        by (auto simp: lex_exp_def)
      note f = lex_digits_Some [OF q(1)]
      then obtain d' q' where dq: "q = d' # q'" "d' = d" by (cases q) auto
      with f c False nd q show ?thesis
        by (auto simp: lex_exp_def list_all_iff num_char_def)
    qed
  next
    case False
    with assms have "e = []" "t = s" by (auto simp: lex_exp_def split: list.splits if_splits)
    then show ?thesis
      using closes_not_num [of t'] by (auto simp: lex_exp_def num_char_def split: list.splits)
  qed
  then show "s = e @ t" "list_all num_char e" "e = [] \<or> hd e = CHR ''e'' \<or> hd e = CHR ''E''"
    "closes t' \<Longrightarrow> lex_exp (e @ t') = Some (e, t')"
    by blast+
qed

lemma lex_number_Some:
  assumes "lex_number s = Some (n, t)"
  shows "s = n @ t" "n \<noteq> []" "list_all num_char n" "closes t' \<Longrightarrow> lex_number (n @ t') = Some (n, t')"
proof -
  define sign s1 where "sign = (if s \<noteq> [] \<and> hd s = CHR ''-'' then ''-'' else [])"
    and "s1 = (if s \<noteq> [] \<and> hd s = CHR ''-'' then tl s else s)"
  have split: "(case s of c # cs \<Rightarrow> if c = CHR ''-'' then ([c], cs) else ([], s) | [] \<Rightarrow> ([], s)) = (sign, s1)"
    by (cases s) (simp_all add: sign_def s1_def)
  have s: "s = sign @ s1" by (cases s) (simp_all add: sign_def s1_def)
  from assms obtain i s2 f s3 e where
    i: "lex_int s1 = Some (i, s2)" and f: "lex_frac s2 = Some (f, s3)" and e: "lex_exp s3 = Some (e, t)"
    and n: "n = sign @ i @ f @ e"
    unfolding lex_number_def split by (auto split: option.splits)
  note i' = lex_int_Some [OF i] and f' = lex_frac_Some [OF f] and e' = lex_exp_Some [OF e]
  show "s = n @ t" using s n i'(1) f'(1) e'(1) by simp
  show "n \<noteq> []" using n i'(2) by simp
  show "list_all num_char n" using n i'(3) f'(2) e'(2) by (simp add: sign_def num_char_def)
  show "lex_number (n @ t') = Some (n, t')" if cl: "closes t'"
  proof -
    have nd: "no_digit t'" "t' = [] \<or> hd t' \<noteq> CHR ''.''"
      using closes_not_num [OF cl] by (cases t'; auto simp: no_digit_def num_char_def)+
    have e3: "lex_exp (e @ t') = Some (e, t')" using e'(4) cl by blast
    have ne: "no_digit (e @ t')" "e @ t' = [] \<or> hd (e @ t') \<noteq> CHR ''.''"
      using e'(3) nd by (cases e; auto simp: no_digit_def is_digit_def)+
    have f3: "lex_frac (f @ e @ t') = Some (f, e @ t')" using f'(4) ne by blast
    have "no_digit (f @ e @ t')" using f'(3) ne by (cases f) (auto simp: no_digit_def is_digit_def)
    then have i3: "lex_int (i @ f @ e @ t') = Some (i, f @ e @ t')" using i'(4) by blast
    have "i @ f @ e @ t' \<noteq> []" "sign = [] \<Longrightarrow> hd (i @ f @ e @ t') \<noteq> CHR ''-''"
      using i'(1,2) by (cases i; auto simp: s1_def sign_def split: if_splits)+
    then have "(case n @ t' of c # cs \<Rightarrow> if c = CHR ''-'' then ([c], cs) else ([], n @ t') | [] \<Rightarrow> ([], n @ t')) =
        (sign, i @ f @ e @ t')"
      using n by (cases "i @ f @ e @ t'") (auto simp: sign_def split: if_splits)
    then show ?thesis unfolding lex_number_def by (simp add: i3 f3 e3 n)
  qed
qed

subsection \<open>Tokens outside strings\<close>

lemma compact_skip_ws: "compact False (skip_ws s) = compact False s"
  by (induction s) (auto simp: skip_ws_def compact.simps(2))

lemma compact_token:
  assumes "\<not> is_ws c" and "\<not> escaped_html c" and "c \<noteq> CHR 0xE2"
  shows "compact False (c # cs) = c # compact (c = CHR 0x22) cs"
  using assms by (simp add: compact.simps(2) escaped_html_def)

lemma compact_tokens:
  assumes "list_all (\<lambda>c. \<not> is_ws c \<and> \<not> escaped_html c \<and> c \<noteq> CHR 0xE2 \<and> c \<noteq> CHR 0x22) n"
  shows "compact False (n @ t) = n @ compact False t"
  using assms by (induction n) (simp_all add: compact_token)

lemma compact_number: "list_all num_char n \<Longrightarrow> compact False (n @ t) = n @ compact False t"
  by (rule compact_tokens) (auto simp: list_all_iff num_char_facts)

text \<open>A mark: white space before it goes, the mark stays.\<close>

definition mark :: "char \<Rightarrow> bool" where
  "mark c \<longleftrightarrow> c \<in> {CHR '','', CHR '':'', CHR ''['', CHR '']'', CHR ''{'', CHR ''}''}"

lemma mark_facts: "mark c \<Longrightarrow> \<not> is_ws c \<and> \<not> escaped_html c \<and> c \<noteq> CHR 0xE2 \<and> c \<noteq> CHR 0x22"
  by (auto simp: mark_def is_ws_def escaped_html_def)

lemma skip_compact_mark:
  assumes "skip_ws r = e # r'" and "mark e"
  shows "skip_ws (compact False r @ u) = e # compact False r' @ u"
  using mark_facts [OF assms(2)] by (subst compact_skip_ws [symmetric]) (simp add: assms(1) compact_token skip_ws_Cons)

lemma skip_compact_quote:
  assumes "skip_ws r = CHR 0x22 # r'"
  shows "skip_ws (compact False r @ u) = CHR 0x22 # compact True r' @ u"
  by (subst compact_skip_ws [symmetric])
    (simp add: assms compact_token skip_ws_Cons not_ws escaped_html_def)

text \<open>After a value, the rest and what is put behind it fit if together they close the value.\<close>

definition fits :: "string \<Rightarrow> string \<Rightarrow> bool" where
  "fits t u \<longleftrightarrow> closes (skip_ws t) \<and> (skip_ws t = [] \<longrightarrow> closes u)"

lemma fits_closes:
  assumes "fits t u"
  shows "closes (compact False t @ u)"
proof (cases "skip_ws t")
  case Nil
  then show ?thesis
    using assms compact_skip_ws [of t] by (simp add: fits_def)
next
  case (Cons e r)
  with assms have "mark e" by (auto simp: fits_def closes_def mark_def)
  moreover have "closes (e # x)" for x using assms Cons by (simp add: fits_def closes_def)
  ultimately show ?thesis
    using Cons compact_token [of e r] mark_facts [of e] by (subst compact_skip_ws [symmetric]) simp
qed

lemma fits_mark: "skip_ws r = e # r' \<Longrightarrow> e = CHR '','' \<or> e = CHR '']'' \<or> e = CHR ''}'' \<Longrightarrow> fits r u"
  by (auto simp: fits_def closes_def)

subsection \<open>Parsing consumes\<close>

lemma skip_length: "skip_ws s = c # cs \<Longrightarrow> length cs < length s"
  using length_skip_ws [of s] by simp

lemma parse_length:
  "parse_value d s = Some (v, t) \<Longrightarrow> length t < length s"
  "parse_elems d s = Some (vs, t) \<Longrightarrow> length t < length s"
  "parse_members d s = Some (kvs, t) \<Longrightarrow> length t < length s"
proof (induction d s and d s and d s arbitrary: v t and vs t and kvs t
    rule: parse_value_parse_elems_parse_members.induct)
  case (1 d s)
  from "1.prems" obtain c cs where c: "skip_ws s = c # cs"
    by (cases "skip_ws s") (simp_all add: parse_value.simps)
  note len = skip_length [OF c]
  consider "c = CHR 0x22" | "c = CHR ''[''" | "c = CHR ''{''" | "c \<notin> {CHR 0x22, CHR ''['', CHR ''{''}" by blast
  then show ?case
  proof cases
    case 1
    with "1.prems" c have "\<exists>x. lex_string cs = Some (x, t)" by (auto simp: parse_value.simps)
    then show ?thesis using length_lex_string len by fastforce
  next
    case 2
    then show ?thesis
      using "1.prems" "1.IH"(1) [OF c] c len length_skip_ws [of cs]
      by (auto simp: parse_value.simps [of d s] split: if_splits)
  next
    case 3
    then show ?thesis
      using "1.prems" "1.IH"(2) [OF c] c len length_skip_ws [of cs]
      by (auto simp: parse_value.simps [of d s] split: if_splits)
  next
    case 4
    with "1.prems" c consider "t = drop 4 (c # cs)" | "t = drop 5 (c # cs)" | n where "lex_number (c # cs) = Some (n, t)"
      by (auto simp: parse_value.simps split: if_splits)
    then show ?thesis
    proof cases
      case 3
      from lex_number_Some(1,2) [OF 3] have "length t < length (c # cs)" by simp
      then show ?thesis using c length_skip_ws [of s] by simp
    qed (use len in auto)
  qed
next
  case (2 d s)
  from "2.prems" obtain v r e r' where v: "parse_value d s = Some (v, r)" "skip_ws r = e # r'"
    by (auto simp: parse_elems.simps split: option.splits list.splits)
  have "length r' < length s" using "2.IH"(1) [OF v(1)] skip_length [OF v(2)] by simp
  then show ?case
    using "2.prems" v "2.IH"(2) [OF v(1) refl v(2)]
    by (auto simp: parse_elems.simps [of d s] split: if_splits)
next
  case (3 d s)
  from "3.prems" obtain s1 k s2 s3 v r e r' where
    q: "skip_ws s = CHR 0x22 # s1" "lex_string s1 = Some (k, s2)" "skip_ws s2 = CHR '':'' # s3"
      "parse_value d s3 = Some (v, r)" "skip_ws r = e # r'"
    by (auto simp: parse_members.simps split: option.splits list.splits if_splits)
  have "length s3 < length s"
    using skip_length [OF q(1)] length_lex_string [OF q(2)] skip_length [OF q(3)] by simp
  moreover from this have "length r < length s3"
    using "3.IH"(1) [OF q(1) _ q(2) refl q(3) _ _ q(4)] by simp
  ultimately have "length r' < length s" using skip_length [OF q(5)] by simp
  then show ?case
    using "3.prems" q "3.IH"(2) [OF q(1) _ q(2) refl q(3) _ _ q(4) refl q(5)] \<open>length s3 < length s\<close>
    by (auto simp: parse_members.simps [of d s] split: if_splits)
qed

subsection \<open>Depth to spare\<close>

lemma parse_deeper:
  "parse_value d s = Some (v, t) \<Longrightarrow> d \<le> d' \<Longrightarrow> parse_value d' s = Some (v, t)"
  "parse_elems d s = Some (vs, t) \<Longrightarrow> d \<le> d' \<Longrightarrow> parse_elems d' s = Some (vs, t)"
  "parse_members d s = Some (kvs, t) \<Longrightarrow> d \<le> d' \<Longrightarrow> parse_members d' s = Some (kvs, t)"
proof (induction d s and d s and d s arbitrary: d' v t and d' vs t and d' kvs t
    rule: parse_value_parse_elems_parse_members.induct)
  case (1 d s)
  from "1.prems" obtain c cs where c: "skip_ws s = c # cs"
    by (cases "skip_ws s") (simp_all add: parse_value.simps)
  consider "c \<noteq> CHR ''[''" "c \<noteq> CHR ''{''" | "c = CHR ''[''" | "c = CHR ''{''" by blast
  then show ?case
  proof cases
    case 1
    then have "parse_value d' s = parse_value d s"
      by (simp add: parse_value.simps [of _ s] c cong: if_cong)
    then show ?thesis using "1.prems"(1) by simp
  next
    case 2
    with "1.prems"(1) c have d: "d \<noteq> 0" by (cases d) (simp_all add: parse_value.simps)
    with "1.prems"(2) have d': "d' \<noteq> 0" by simp
    show ?thesis
    proof (cases "skip_ws cs \<noteq> [] \<and> hd (skip_ws cs) = CHR '']''")
      case True
      with "1.prems"(1) c 2 d d' show ?thesis by (simp add: parse_value.simps)
    next
      case False
      with "1.prems"(1) c 2 d obtain vs where vs: "parse_elems (d - 1) cs = Some (vs, t)" "v = JArr vs"
        by (auto simp: parse_value.simps)
      have "parse_elems (d' - 1) cs = Some (vs, t)"
        by (rule "1.IH"(1) [OF c _ 2 d False vs(1)]) (use 2 "1.prems"(2) in auto)
      with vs(2) c 2 d' False show ?thesis by (auto simp: parse_value.simps)
    qed
  next
    case 3
    with "1.prems"(1) c have d: "d \<noteq> 0" by (cases d) (simp_all add: parse_value.simps)
    with "1.prems"(2) have d': "d' \<noteq> 0" by simp
    show ?thesis
    proof (cases "skip_ws cs \<noteq> [] \<and> hd (skip_ws cs) = CHR ''}''")
      case True
      with "1.prems"(1) c 3 d d' show ?thesis by (simp add: parse_value.simps)
    next
      case False
      with "1.prems"(1) c 3 d obtain kvs where kvs: "parse_members (d - 1) cs = Some (kvs, t)" "v = JObj kvs"
        by (auto simp: parse_value.simps)
      have "parse_members (d' - 1) cs = Some (kvs, t)"
        by (rule "1.IH"(2) [OF c _ _ 3 d False kvs(1)]) (use 3 "1.prems"(2) in auto)
      with kvs(2) c 3 d' False show ?thesis by (auto simp: parse_value.simps)
    qed
  qed
next
  case (2 d s)
  from "2.prems"(1) obtain v r e r' where v: "parse_value d s = Some (v, r)" "skip_ws r = e # r'"
    by (auto simp: parse_elems.simps split: option.splits list.splits)
  note v' = "2.IH"(1) [OF v(1) "2.prems"(2)]
  show ?case
  proof (cases "e = CHR '',''")
    case True
    with "2.prems"(1) v have len: "length r' < length s" and "\<exists>ws. parse_elems d r' = Some (ws, t) \<and> vs = v # ws"
      by (auto simp: parse_elems.simps [of d s] split: if_splits)
    then obtain ws where ws: "parse_elems d r' = Some (ws, t)" "vs = v # ws" by blast
    from "2.IH"(2) [OF v(1) refl v(2) True len ws(1) "2.prems"(2)] v' v(2) True len ws(2)
    show ?thesis by (simp add: parse_elems.simps [of d' s])
  next
    case False
    with "2.prems"(1) v v' show ?thesis by (simp add: parse_elems.simps [of _ s])
  qed
next
  case (3 d s)
  from "3.prems"(1) obtain s1 k s2 s3 v r e r' where
    q: "skip_ws s = CHR 0x22 # s1" "lex_string s1 = Some (k, s2)" "skip_ws s2 = CHR '':'' # s3"
      "parse_value d s3 = Some (v, r)" "skip_ws r = e # r'" and len: "length s3 < length s"
    by (auto simp: parse_members.simps split: option.splits list.splits if_splits)
  have v': "parse_value d' s3 = Some (v, r)"
    by (rule "3.IH"(1) [OF q(1) _ q(2) refl q(3) _ len q(4) "3.prems"(2)]) simp_all
  show ?case
  proof (cases "e = CHR '',''")
    case True
    with "3.prems"(1) q len have l: "length r' < length s" and
      "\<exists>ws. parse_members d r' = Some (ws, t) \<and> kvs = (k, v) # ws"
      by (auto simp: parse_members.simps [of d s] split: if_splits)
    then obtain ws where ws: "parse_members d r' = Some (ws, t)" "kvs = (k, v) # ws" by blast
    have "parse_members d' r' = Some (ws, t)"
      by (rule "3.IH"(2) [OF q(1) _ q(2) refl q(3) _ len q(4) refl q(5) True l ws(1) "3.prems"(2)]) simp_all
    with v' q len l True ws(2) show ?thesis by (simp add: parse_members.simps [of d' s])
  next
    case False
    with "3.prems"(1) q len v' show ?thesis by (simp add: parse_members.simps [of _ s])
  qed
qed

subsection \<open>The value is the same\<close>

lemma word_token: "list_all (\<lambda>c. \<not> is_ws c \<and> \<not> escaped_html c \<and> c \<noteq> CHR 0xE2 \<and> c \<noteq> CHR 0x22) w \<Longrightarrow>
    has_prefix s w \<Longrightarrow> compact False s = w @ compact False (drop (length w) s)"
  using compact_tokens [of w "drop (length w) s"] by (auto simp: has_prefix_iff)

lemma parse_number_at:
  assumes "lex_number (c # cs) = Some (n, t)" and "closes t'"
  shows "parse_value d (n @ t') = Some (JNum n, t')"
proof -
  note f = lex_number_Some [OF assms(1)]
  obtain a n' where n: "n = a # n'" using f(2) by (cases n) auto
  with f(3) have "num_char a" by simp
  note a = num_char_facts [OF this]
  have "lex_number (n @ t') = Some (n, t')" using f(4) assms(2) by blast
  then show ?thesis
    using a by (simp add: parse_value.simps n skip_ws_Cons has_prefix_def)
qed

lemma no_element: "skip_ws s = CHR '']'' # r \<Longrightarrow> parse_elems d s = None"
  by (simp add: parse_elems.simps parse_value.simps has_prefix_def lex_number_def lex_int_def
      lex_digits_def is_digit_def)

lemma compact_same_value:
  "parse_value d s = Some (v, t) \<Longrightarrow> fits t u \<Longrightarrow>
     parse_value d (compact False s @ u) = Some (v, compact False t @ u)"
  "parse_elems d s = Some (vs, t) \<Longrightarrow>
     parse_elems d (compact False s @ u) = Some (vs, compact False t @ u)"
  "parse_members d s = Some (kvs, t) \<Longrightarrow>
     parse_members d (compact False s @ u) = Some (kvs, compact False t @ u)"
proof (induction d s and d s and d s arbitrary: v t and vs t and kvs t
    rule: parse_value_parse_elems_parse_members.induct)
  case (1 d s)
  from "1.prems" obtain c cs where c: "skip_ws s = c # cs"
    by (cases "skip_ws s") (simp_all add: parse_value.simps)
  have s: "compact False s = compact False (c # cs)" using compact_skip_ws [of s] c by simp
  consider (str) "c = CHR 0x22" | (arr) "c = CHR ''[''" | (obj) "c = CHR ''{''"
    | (word) w x where "c \<notin> {CHR 0x22, CHR ''['', CHR ''{''}" "has_prefix (c # cs) w"
        "(w, x) \<in> {(''true'', JBool True), (''false'', JBool False), (''null'', JNull)}"
    | (num) "c \<notin> {CHR 0x22, CHR ''['', CHR ''{''}" "\<not> has_prefix (c # cs) ''true''"
        "\<not> has_prefix (c # cs) ''false''" "\<not> has_prefix (c # cs) ''null''"
    by blast
  then show ?case
  proof cases
    case str
    with "1.prems" c obtain x where x: "lex_string cs = Some (x, t)" "v = JStr x"
      by (auto simp: parse_value.simps)
    show ?thesis
      using skip_compact_quote [of s cs u] c str lex_string_compact_append [OF x(1), of u] x(2)
      by (simp add: parse_value.simps)
  next
    case arr
    have skip: "skip_ws (compact False s @ u) = CHR ''['' # compact False cs @ u"
      using c arr by (intro skip_compact_mark) (simp_all add: mark_def)
    from "1.prems"(1) c arr have d: "d \<noteq> 0" by (cases d) (simp_all add: parse_value.simps)
    show ?thesis
    proof (cases "\<exists>r. skip_ws cs = CHR '']'' # r")
      case True
      then obtain r where r: "skip_ws cs = CHR '']'' # r" by blast
      from skip_compact_mark [OF r, of u] r "1.prems"(1) c arr d skip show ?thesis
        by (simp add: parse_value.simps mark_def)
    next
      case False
      then have ne: "\<not> (skip_ws cs \<noteq> [] \<and> hd (skip_ws cs) = CHR '']'')" by (cases "skip_ws cs") auto
      with "1.prems"(1) c arr d obtain vs where vs: "parse_elems (d - 1) cs = Some (vs, t)" "v = JArr vs"
        by (auto simp: parse_value.simps)
      have el: "parse_elems (d - 1) (compact False cs @ u) = Some (vs, compact False t @ u)"
        by (rule "1.IH"(1) [OF c _ arr d ne vs(1)]) (use arr in simp)
      then have "\<not> (skip_ws (compact False cs @ u) \<noteq> [] \<and> hd (skip_ws (compact False cs @ u)) = CHR '']'')"
        using no_element [of "compact False cs @ u"] by (cases "skip_ws (compact False cs @ u)") auto
      with el skip d vs(2) show ?thesis by (auto simp: parse_value.simps)
    qed
  next
    case obj
    have skip: "skip_ws (compact False s @ u) = CHR ''{'' # compact False cs @ u"
      using c obj by (intro skip_compact_mark) (simp_all add: mark_def)
    from "1.prems"(1) c obj have d: "d \<noteq> 0" by (cases d) (simp_all add: parse_value.simps)
    show ?thesis
    proof (cases "\<exists>r. skip_ws cs = CHR ''}'' # r")
      case True
      then obtain r where r: "skip_ws cs = CHR ''}'' # r" by blast
      from skip_compact_mark [OF r, of u] r "1.prems"(1) c obj d skip show ?thesis
        by (simp add: parse_value.simps mark_def)
    next
      case False
      then have ne: "\<not> (skip_ws cs \<noteq> [] \<and> hd (skip_ws cs) = CHR ''}'')" by (cases "skip_ws cs") auto
      with "1.prems"(1) c obj d obtain kvs where kvs: "parse_members (d - 1) cs = Some (kvs, t)" "v = JObj kvs"
        by (auto simp: parse_value.simps)
      have el: "parse_members (d - 1) (compact False cs @ u) = Some (kvs, compact False t @ u)"
        by (rule "1.IH"(2) [OF c _ _ obj d ne kvs(1)]) (use obj in simp_all)
      then have "\<not> (skip_ws (compact False cs @ u) \<noteq> [] \<and> hd (skip_ws (compact False cs @ u)) = CHR ''}'')"
        by (cases "skip_ws (compact False cs @ u)") (auto simp: parse_members.simps)
      with el skip d kvs(2) show ?thesis by (auto simp: parse_value.simps)
    qed
  next
    case (word w x)
    then have plain: "list_all (\<lambda>c. \<not> is_ws c \<and> \<not> escaped_html c \<and> c \<noteq> CHR 0xE2 \<and> c \<noteq> CHR 0x22) w"
      by (auto simp: is_ws_def escaped_html_def)
    have vt: "v = x" "t = drop (length w) (c # cs)"
      using "1.prems"(1) word c
      by (auto simp: parse_value.simps has_prefix_def eval_nat_numeral split: if_splits)
    have "compact False s @ u = w @ compact False t @ u"
      using word_token [OF plain word(2)] by (simp add: s vt)
    moreover have "parse_value d (w @ y) = Some (x, y)" for y
      using word(3) by (auto simp: parse_value.simps skip_ws_def is_ws_def has_prefix_def)
    ultimately show ?thesis using vt by simp
  next
    case num
    with "1.prems" c obtain n where n: "lex_number (c # cs) = Some (n, t)" "v = JNum n"
      by (auto simp: parse_value.simps)
    have "compact False s = n @ compact False t"
      using lex_number_Some(1,3) [OF n(1)] s compact_number by simp
    then show ?thesis
      using parse_number_at [OF n(1) fits_closes [OF "1.prems"(2)]] n(2) by simp
  qed
next
  case (2 d s)
  from "2.prems" obtain v r e r' where v: "parse_value d s = Some (v, r)" "skip_ws r = e # r'"
    and e: "e = CHR '','' \<or> e = CHR '']''"
    by (auto simp: parse_elems.simps split: option.splits list.splits if_splits)
  have "parse_value d (compact False s @ u) = Some (v, compact False r @ u)"
    using e by (intro "2.IH"(1) [OF v(1)] fits_mark [OF v(2)]) blast
  moreover have skip: "skip_ws (compact False r @ u) = e # compact False r' @ u"
    using e by (intro skip_compact_mark [OF v(2)]) (auto simp: mark_def)
  moreover have "length (compact False r' @ u) < length (compact False s @ u)"
    using parse_length(1) [OF calculation(1)] skip_length [OF skip] by simp
  moreover have "length r' < length s" using parse_length(1) [OF v(1)] skip_length [OF v(2)] by simp
  ultimately show ?case
    using "2.prems" v e "2.IH"(2) [OF v(1) refl v(2)]
    by (auto simp: parse_elems.simps [of d s] parse_elems.simps [of d "compact False s @ u"])
next
  case (3 d s)
  from "3.prems" obtain s1 k s2 s3 v r e r' where
    q: "skip_ws s = CHR 0x22 # s1" "lex_string s1 = Some (k, s2)" "skip_ws s2 = CHR '':'' # s3"
      "parse_value d s3 = Some (v, r)" "skip_ws r = e # r'"
    and e: "e = CHR '','' \<or> e = CHR ''}''" and len: "length s3 < length s"
    by (auto simp: parse_members.simps split: option.splits list.splits if_splits)
  have 1: "skip_ws (compact False s @ u) = CHR 0x22 # compact True s1 @ u"
    by (rule skip_compact_quote [OF q(1)])
  note 2 = lex_string_compact_append [OF q(2), of u]
  have 3: "skip_ws (compact False s2 @ u) = CHR '':'' # compact False s3 @ u"
    by (rule skip_compact_mark [OF q(3)]) (simp add: mark_def)
  have 4: "parse_value d (compact False s3 @ u) = Some (v, compact False r @ u)"
    using e len by (intro "3.IH"(1) [OF q(1) _ q(2) refl q(3) _ _ q(4)] fits_mark [OF q(5)]) auto
  have 5: "skip_ws (compact False r @ u) = e # compact False r' @ u"
    using e by (intro skip_compact_mark [OF q(5)]) (auto simp: mark_def)
  have l1: "length (compact False s3 @ u) < length (compact False s @ u)"
    using skip_length [OF 1] length_lex_string [OF 2] skip_length [OF 3] by simp
  then have l2: "length (compact False r' @ u) < length (compact False s @ u)"
    using parse_length(1) [OF 4] skip_length [OF 5] by simp
  have l3: "length r' < length s" using len parse_length(1) [OF q(4)] skip_length [OF q(5)] by simp
  show ?case
    using "3.prems" q e len l1 l2 l3 1 2 3 4 5 "3.IH"(2) [OF q(1) _ q(2) refl q(3) _ _ q(4) refl q(5)]
    by (auto simp: parse_members.simps [of d s] parse_members.simps [of d "compact False s @ u"])
qed

text \<open>A whole text: alone, and in front of what closes it.\<close>

lemma compact_reads_before:
  assumes "parse_value d s = Some (v, t)" and "skip_ws t = []"
  shows "reads_before d (compact False s) v"
proof -
  have "compact False t = []" using compact_skip_ws [of t] assms(2) by simp
  then show ?thesis
    using compact_same_value(1) [OF assms(1)] assms(2)
    by (simp add: reads_before_def fits_def closes_def)
qed

end
