(* ===== verification/Result_Text.thy ===== *)
theory Result_Text
  imports Mcp_Handler Json_Compact
begin

section \<open>Tool results read back\<close>

text \<open>
  The encoded tool result, parsed again as a client does: the text block, the structured content as
  the JSON value of the upstream's body, the error flag, and the members of the era in front.
\<close>

definition member_reads :: "nat \<Rightarrow> string \<times> bytes \<Rightarrow> string \<times> json \<Rightarrow> bool" where
  "member_reads d p q \<longleftrightarrow> to_valid (fst p) = fst q \<and> reads_before d (snd p) (snd q)"

text \<open>The members a client finds; \<open>sj\<close> is the structured content.\<close>

definition outcome_members :: "string \<Rightarrow> json option \<Rightarrow> bool \<Rightarrow> (string \<times> json) list" where
  "outcome_members msg sj isErr =
     [(''content'', JArr [JObj [(''type'', JStr ''text''), (''text'', JStr (to_valid msg))]])] @
     (case sj of None \<Rightarrow> [] | Some v \<Rightarrow> [(''structuredContent'', v)]) @
     (if isErr then [(''isError'', JBool True)] else [])"

text \<open>\<open>impl\<close> is the JSON value of the SDK's \<open>Implementation\<close>.\<close>

definition era_members :: "protocol_era \<Rightarrow> json \<Rightarrow> (string \<times> json) list" where
  "era_members e impl =
     (case e of
        LegacyEra \<Rightarrow> []
      | ModernEra si \<Rightarrow>
          [(''_meta'', JObj [(MetaKeyServerInfo, impl)]), (''resultType'', JStr resultTypeComplete)])"

text \<open>The SDK encodes the identity of the server as JSON with the value \<open>impl\<close>.\<close>

definition identity_reads :: "sdk \<Rightarrow> protocol_era \<Rightarrow> json \<Rightarrow> bool" where
  "identity_reads S e impl \<longleftrightarrow>
     (\<forall>si. e = ModernEra si \<longrightarrow>
        (\<exists>enc. marshalImplementation S (si_Name si) (si_Version si) = Some enc \<and>
           reads_before (max_nesting_depth - 2) enc impl))"

lemma ascii_keys:
  "to_valid ''type'' = ''type''" "to_valid ''text'' = ''text''" "to_valid ''content'' = ''content''"
  "to_valid ''isError'' = ''isError''" "to_valid ''structuredContent'' = ''structuredContent''"
  "to_valid ''_meta'' = ''_meta''" "to_valid ''resultType'' = ''resultType''"
  "to_valid resultTypeComplete = resultTypeComplete" "to_valid MetaKeyServerInfo = MetaKeyServerInfo"
  by (simp_all add: to_valid_ascii is_ascii_def resultTypeComplete_def MetaKeyServerInfo_def)

lemma content_reads:
  "reads_as (Suc (Suc d)) (json_array (map marshal_textContent (newTextContent msg)))
     (JArr [JObj [(''type'', JStr ''text''), (''text'', JStr (to_valid msg))]])"
proof -
  let ?block = "marshal_textContent (hd (newTextContent msg))"
  have "reads_as (Suc d) ?block (JObj [(''type'', JStr ''text''), (''text'', JStr (to_valid msg))])"
    unfolding marshal_textContent_def
    by (rule object_reads)
      (use quote_reads [of d "''text''"] in
        \<open>simp_all add: ascii_keys quote_reads newTextContent_def reads_as_before\<close>)
  then have block: "list_all2 (reads_before (Suc d)) [?block]
      [JObj [(''type'', JStr ''text''), (''text'', JStr (to_valid msg))]]"
    by (simp add: reads_as_before)
  have "reads_as (Suc (Suc d)) (json_array [?block])
      (JArr [JObj [(''type'', JStr ''text''), (''text'', JStr (to_valid msg))]])"
    by (rule array_reads [OF block])
      (simp_all add: marshal_textContent_def json_object_def skip_ws_Cons not_ws)
  then show ?thesis by (simp add: newTextContent_def)
qed

lemma call_members_read:
  assumes "case sj of None \<Rightarrow> structured = [] | Some v \<Rightarrow>
      json_valid structured \<and> reads_before (Suc (Suc d)) (compact False structured) v"
  shows "\<exists>cs. call_members (call_result msg structured isErr) = Some cs \<and>
     list_all2 (member_reads (Suc (Suc d))) cs (outcome_members msg sj isErr)"
proof -
  have "structured = [] \<longleftrightarrow> sj = None"
    using assms by (cases sj) (auto simp: json_valid_def parse_json_def parse_value.simps skip_ws_def)
  then show ?thesis
    using assms reads_as_before [OF content_reads [of d msg]] reads_as_before [OF true_reads]
    by (cases sj)
      (auto simp: call_members_def call_result_def outcome_members_def member_reads_def ascii_keys)
qed

lemma meta_members_read:
  assumes "identity_reads S e impl"
  shows "\<exists>ms. meta_members S (stamp_of e no_meta) = Some ms \<and>
     list_all2 (member_reads (max_nesting_depth - 1)) ms (era_members e impl)"
proof (cases e)
  case LegacyEra
  then show ?thesis by (simp add: meta_members_def no_meta_def era_members_def)
next
  case (ModernEra si)
  then obtain enc where enc: "marshalImplementation S (si_Name si) (si_Version si) = Some enc"
    "reads_before (max_nesting_depth - 2) enc impl"
    using assms by (auto simp: identity_reads_def)
  have depth: "max_nesting_depth - 1 = Suc (max_nesting_depth - 2)" by (simp add: max_nesting_depth_def)
  have "reads_as (max_nesting_depth - 1) (json_object [(MetaKeyServerInfo, enc)])
      (JObj [(MetaKeyServerInfo, impl)])"
    unfolding depth by (rule object_reads) (simp_all add: ascii_keys enc(2))
  moreover have complete: "resultTypeComplete \<noteq> []" by (simp add: resultTypeComplete_def)
  ultimately show ?thesis
    using enc(1) quote_reads [of "max_nesting_depth - 1" resultTypeComplete]
    by (simp add: ModernEra meta_members_def no_meta_def era_members_def stampEnvelope_def
        metaWithServerInfo_def member_reads_def ascii_keys reads_as_before complete)
qed

lemma result_reads:
  assumes "identity_reads S e impl"
    and "case sj of None \<Rightarrow> structured = [] | Some v \<Rightarrow>
      json_valid structured \<and> reads_before (max_nesting_depth - 1) (compact False structured) v"
  shows "\<exists>mj. encodeResult S e (CallToolResult (Some (call_result msg structured isErr))) = Some mj \<and>
     parse_json mj = Some (JObj (era_members e impl @ outcome_members msg sj isErr))"
proof -
  have depth: "max_nesting_depth - 1 = Suc (Suc (max_nesting_depth - 3))"
    and top: "max_nesting_depth = Suc (max_nesting_depth - 1)"
    by (simp_all add: max_nesting_depth_def)
  obtain ms where ms: "meta_members S (stamp_of e no_meta) = Some ms"
    "list_all2 (member_reads (max_nesting_depth - 1)) ms (era_members e impl)"
    using meta_members_read [OF assms(1)] by blast
  obtain cs where cs: "call_members (call_result msg structured isErr) = Some cs"
    "list_all2 (member_reads (max_nesting_depth - 1)) cs (outcome_members msg sj isErr)"
    using call_members_read [where sj = sj and structured = structured and d = "max_nesting_depth - 3" and msg = msg and isErr = isErr] assms(2)
    unfolding depth by blast
  have "list_all2 (member_reads (max_nesting_depth - 1)) (ms @ cs)
      (era_members e impl @ outcome_members msg sj isErr)"
    using ms(2) cs(2) by (rule list_all2_appendI)
  moreover have "ms @ cs \<noteq> []" using cs(2) by (auto simp: outcome_members_def)
  ultimately have "reads_as (Suc (max_nesting_depth - 1)) (json_object (ms @ cs))
      (JObj (era_members e impl @ outcome_members msg sj isErr))"
    by (intro object_reads) (simp_all add: member_reads_def [abs_def])
  then have "parse_json (json_object (ms @ cs)) = Some (JObj (era_members e impl @ outcome_members msg sj isErr))"
    using parse_json_reads top by metis
  moreover have "ct_meta (call_result msg structured isErr) = no_meta" by (simp add: call_result_def)
  ultimately show ?thesis using ms(1) cs(1) by (auto simp: era.call_result_members)
qed

text \<open>The structured content of a successful call is the JSON value of the upstream's body.\<close>

lemma structured_reads:
  assumes "UseStructuredOutput config" and "\<not> isHTTPErrorStatus st"
    and v: "parse_value (max_nesting_depth - 1) body = Some (v, r)" "skip_ws r = []"
    and "identity_reads S e impl"
  shows "\<exists>mj. encodeResult S e (CallToolResult (Some (tool_outcome config st body))) = Some mj \<and>
     parse_json mj = Some (JObj (era_members e impl @ outcome_members body (Some v) False))"
proof -
  have "parse_value max_nesting_depth body = Some (v, r)"
    by (rule parse_deeper(1) [OF v(1)]) simp
  then have valid: "json_valid body" using v(2) by (simp add: json_valid_def parse_json_def)
  then have "tool_outcome config st body = call_result body body False"
    using assms(1,2) by (simp add: tool_outcome_def)
  moreover have "\<exists>mj. encodeResult S e (CallToolResult (Some (call_result body body False))) = Some mj \<and>
      parse_json mj = Some (JObj (era_members e impl @ outcome_members body (Some v) False))"
    by (rule result_reads [OF assms(5)]) (simp only: option.case valid compact_reads_before [OF v] simp_thms)
  ultimately show ?thesis by simp
qed

end
