(* ===== verification/Float_Integers.thy ===== *)
theory Float_Integers
  imports Go_Float
begin

section \<open>Integers as floating-point text\<close>

text \<open>
  Integers below 2 to the 53 are exact as \<open>float64\<close>. What \<open>%v\<close> makes of them depends on their size:
  below a million the text is the number again, from a million on it has an exponent. The lemmas compute the mantissa, the binary exponent
  and the decimal point of such a number.
\<close>

subsection \<open>The float of an integer\<close>

lemma bit_length_bounds: "0 < n \<Longrightarrow> 2 ^ (bit_length n - 1) \<le> n \<and> n < 2 ^ bit_length n"
proof (induction n rule: bit_length.induct)
  case (1 n)
  show ?case
  proof (cases "n div 2 = 0")
    case True
    with "1.prems" have "n = 1" by auto
    then show ?thesis by (simp add: bit_length_eval)
  next
    case False
    then obtain l where l: "bit_length (n div 2) = Suc l"
      by (auto simp: bit_length.simps [of "n div 2"])
    have "2 ^ l \<le> n div 2" "n div 2 < 2 ^ Suc l" using "1.IH" "1.prems" False l by auto
    then have "2 * 2 ^ l \<le> n" "n < 2 * 2 ^ Suc l" by linarith+
    then show ?thesis using "1.prems" l by (simp add: bit_length.simps [of n])
  qed
qed

lemma bit_length_unique:
  assumes "2 ^ l \<le> n" and "n < 2 ^ Suc l"
  shows "bit_length n = Suc l"
proof -
  have n: "0 < n" using assms(1) by (cases n) auto
  then obtain k where k: "bit_length n = Suc k" by (auto simp: bit_length.simps [of n])
  with bit_length_bounds [OF n] have "2 ^ k \<le> n" "n < 2 ^ Suc k" by simp_all
  with assms have "(2 :: nat) ^ l < 2 ^ Suc k" "(2 :: nat) ^ k < 2 ^ Suc l" by linarith+
  then have "l < Suc k" "k < Suc l" by (simp_all only: power_strict_increasing_iff)
  with k show ?thesis by simp
qed

text \<open>The mantissa is shifted up to 53 bits.\<close>

definition mantissa_of :: "nat \<Rightarrow> nat" where
  "mantissa_of n = n * 2 ^ (53 - bit_length n)"

definition float_of_nat :: "nat \<Rightarrow> float64" where
  "float_of_nat n = F64 False (mantissa_of n) (int (bit_length n) - 53)"

lemma bit_length_le:
  assumes "0 < n" and "n < 2 ^ 53"
  shows "bit_length n \<le> 53"
proof -
  have "(2 :: nat) ^ (bit_length n - 1) < 2 ^ 53" using bit_length_bounds [OF assms(1)] assms(2) by linarith
  then have "bit_length n - 1 < 53" by (simp only: power_strict_increasing_iff)
  then show ?thesis by simp
qed

lemma mantissa_bounds:
  assumes "0 < n" and "n < 2 ^ 53"
  shows "2 ^ 52 \<le> mantissa_of n" and "mantissa_of n < 2 ^ 53"
proof -
  define l where "l = bit_length n"
  have l: "1 \<le> l" "l \<le> 53" "2 ^ (l - 1) \<le> n" "n < 2 ^ l"
    using bit_length_bounds [OF assms(1)] bit_length_le [OF assms] assms(1)
    by (auto simp: l_def bit_length.simps [of n])
  have "(2 :: nat) ^ 52 = 2 ^ (l - 1) * 2 ^ (53 - l)" using l by (simp flip: power_add)
  also have "\<dots> \<le> mantissa_of n" using l(3) by (simp add: mantissa_of_def l_def)
  finally show "2 ^ 52 \<le> mantissa_of n" .
  have "mantissa_of n < 2 ^ l * 2 ^ (53 - l)" using l(4) by (simp add: mantissa_of_def l_def)
  also have "\<dots> = 2 ^ 53" using l by (simp flip: power_add)
  finally show "mantissa_of n < 2 ^ 53" .
qed

lemma nearest_float_nat:
  assumes "0 < n" and "n < 2 ^ 53"
  shows "nearest_float False n 1 = Some (float_of_nat n)"
proof -
  define l where "l = bit_length n"
  have l: "1 \<le> l" "l \<le> 53" "2 ^ (l - 1) \<le> n"
    using bit_length_bounds [OF assms(1)] bit_length_le [OF assms] assms(1)
    by (auto simp: l_def bit_length.simps [of n])
  have "(2 :: nat) ^ 53 = 2 ^ (l - 1) * 2 ^ (54 - l)" using l by (simp flip: power_add)
  also have "\<dots> \<le> n * 2 ^ (54 - l)" using l(3) by simp
  finally have big: "2 ^ 53 \<le> n * 2 ^ (54 - l)" .
  have e0: "int l - int (bit_length 1) - 53 = - int (54 - l)" using l by (simp add: bit_length_eval)
  have "nat (54 - int l) = 54 - l" using l by simp
  then have "float_exp_from n 1 (- int (54 - l)) = int l - 53"
    using big l by (simp add: float_exp_from_def scaled_quotient_def scale_up_def)
  then have exp: "float_exp n 1 = int l - 53"
    unfolding float_exp_def e0 [unfolded l_def, folded l_def] l_def [symmetric] e0 .
  have "nat (- (int l - 53)) = 53 - l" using l by simp
  then have quot: "scaled_quotient round_half_even n 1 (int l - 53) = mantissa_of n"
    using l by (cases "l = 53")
      (simp_all add: scaled_quotient_def scale_up_def round_half_even_def mantissa_of_def l_def [symmetric])
  show ?thesis
    unfolding nearest_float_def float_at_def exp quot
    using mantissa_bounds [OF assms] assms(1) l by (simp add: pack_float_def float_of_nat_def l_def [symmetric])
qed

lemma decimal_of_nat: "decimal_of_literal (nat_to_string n) = (False, n, 0)"
proof -
  obtain c cs where s: "nat_to_string n = c # cs" "is_digit c" using nat_to_string_hd by blast
  then have "c \<noteq> CHR ''-''" using is_digit_not_sign by blast
  moreover have "takeWhile is_digit (nat_to_string n) = nat_to_string n"
    "dropWhile is_digit (nat_to_string n) = []"
    using nat_to_string_digits [of n] by (simp_all add: takeWhile_eq_all_conv dropWhile_eq_Nil_conv list_all_iff)
  moreover have "digits_value (c # cs) = n" using digits_value_nat_to_string [of n] s(1) by simp
  ultimately show ?thesis
    using s(1) unfolding decimal_of_literal_def Let_def by simp
qed

lemma parse_float_nat:
  assumes "0 < n" and "n < 2 ^ 53"
  shows "parse_float (nat_to_string n) = Some (float_of_nat n)"
  using nearest_float_nat [OF assms] by (simp add: parse_float_def decimal_of_nat scale_up_def)

subsection \<open>The decimal point\<close>

text \<open>A candidate is taken exactly when its power of ten exceeds the number.\<close>

lemma point_test:
  assumes "0 < n" and "n < 2 ^ 53"
  shows "bin_side (4 * mantissa_of n) (int (bit_length n) - 53) (int k) <
       dec_side 1 (int (bit_length n) - 53) (int k) \<longleftrightarrow> n < 10 ^ k"
proof -
  define l where "l = bit_length n"
  have l: "l \<le> 53" using bit_length_le [OF assms] by (simp add: l_def)
  have s: "nat (2 - (int l - 53)) = 2 + (53 - l)" using l by simp
  have "bin_side (4 * mantissa_of n) (int l - 53) (int k) = 4 * 2 ^ (53 - l) * n"
    using l by (simp add: bin_side_def scale_up_def mantissa_of_def l_def [symmetric])
  moreover have "dec_side 1 (int l - 53) (int k) = 4 * 2 ^ (53 - l) * 10 ^ k"
    unfolding dec_side_def scale_up_def s using l by (simp add: power_add)
  ultimately show ?thesis by (simp add: l_def [symmetric])
qed

text \<open>One of the candidates is large enough, and none is negative for a number of three bits.\<close>

lemma estimate_table:
  assumes "l \<le> 53"
  shows "(2 :: nat) ^ l \<le> 10 ^ ((l - 1) * 30103 div 100000 + 3) \<and>
    (10 :: nat) ^ ((l - 1) * 30103 div 100000 - 1) \<le> 2 ^ (l - 1)"
proof (cases "l < 2")
  case True
  then have "l = 0 \<or> l = 1" by auto
  then show ?thesis by auto
next
  case False
  let ?P = "\<lambda>l. (2 :: nat) ^ l \<le> 10 ^ ((l - 1) * 30103 div 100000 + 3) \<and>
    (10 :: nat) ^ ((l - 1) * 30103 div 100000 - 1) \<le> 2 ^ (l - 1)"
  have "list_all ?P [2..<54]" by simp
  then have "\<forall>l \<in> set [2..<54]. ?P l" by (simp only: list_all_iff)
  moreover have "l \<in> set [2..<54]" using assms False unfolding set_upt atLeastLessThan_iff by linarith
  ultimately show ?thesis by (rule bspec)
qed

lemmas estimate_reaches = estimate_table [THEN conjunct1]
lemmas estimate_low = estimate_table [THEN conjunct2]

lemma find_point_exact:
  assumes "0 < n" and "n < 2 ^ 53" and "10 ^ d \<le> n" and "n < 10 ^ Suc d"
    and "est \<le> Suc d" and "Suc d < est + t"
  shows "find_point (mantissa_of n) (int (bit_length n) - 53) (map int [est..<est + t]) = int (Suc d)"
  using assms(5,6)
proof (induction t arbitrary: est)
  case 0
  then show ?case by simp
next
  case (Suc t)
  have list: "[est..<est + Suc t] = est # [Suc est..<Suc est + t]" by (simp add: upt_rec)
  have step: "find_point (mantissa_of n) (int (bit_length n) - 53) (map int [est..<est + Suc t]) =
      (if n < 10 ^ est then int est
       else find_point (mantissa_of n) (int (bit_length n) - 53) (map int [Suc est..<Suc est + t]))"
    unfolding list list.map find_point.simps point_test [OF assms(1,2)] ..
  show ?case
  proof (cases "est = Suc d")
    case True
    with assms(4) step show ?thesis by (simp only: if_True)
  next
    case False
    with Suc.prems have "est \<le> d" by simp
    then have "(10 :: nat) ^ est \<le> 10 ^ d" by (rule power_increasing) simp
    with assms(3) have no: "\<not> n < 10 ^ est" by linarith
    have "Suc est \<le> Suc d" "Suc d < Suc est + t" using \<open>est \<le> d\<close> Suc.prems by simp_all
    from Suc.IH [OF this] no step show ?thesis by (simp only: if_False)
  qed
qed

text \<open>The candidates below zero, which come up for numbers of at most four bits, never match.\<close>

lemma negative_candidate:
  assumes "0 < n" and "n < 2 ^ 53"
  shows "find_point (mantissa_of n) (int (bit_length n) - 53) (- 1 # ks) =
    find_point (mantissa_of n) (int (bit_length n) - 53) ks"
proof -
  have "dec_side 1 (int (bit_length n) - 53) (- 1) = dec_side 1 (int (bit_length n) - 53) (int 0)"
    by (simp add: dec_side_def scale_up_def)
  moreover have "bin_side (4 * mantissa_of n) (int (bit_length n) - 53) (int 0) \<le>
      bin_side (4 * mantissa_of n) (int (bit_length n) - 53) (- 1)"
    by (simp add: bin_side_def scale_up_def)
  ultimately show ?thesis using point_test [OF assms, of 0] assms(1) by simp
qed

lemma decimal_point_nat:
  assumes "0 < n" and "n < 2 ^ 53" and "10 ^ d \<le> n" and "n < 10 ^ Suc d"
  shows "decimal_point (mantissa_of n) (int (bit_length n) - 53) = int (Suc d)"
proof -
  define l where "l = bit_length n"
  define q where "q = (l - 1) * 30103 div 100000"
  have m53: "bit_length (mantissa_of n) = 53"
    using bit_length_unique [of 52 "mantissa_of n"] mantissa_bounds [OF assms(1,2)] by simp
  have l: "l \<le> 53" "n < 2 ^ l" "2 ^ (l - 1) \<le> n" "1 \<le> l"
    using bit_length_bounds [OF assms(1)] bit_length_le [OF assms(1,2)] assms(1)
    by (auto simp: l_def bit_length.simps [of n])
  have "(10 :: nat) ^ (q - 1) < 10 ^ Suc d"
    using estimate_low [OF l(1)] l(3) assms(4) unfolding q_def by linarith
  then have low: "q - 1 < Suc d" by (simp only: power_strict_increasing_iff)
  have "(10 :: nat) ^ d < 10 ^ (q + 3)"
    using estimate_reaches [OF l(1)] l(2) assms(3) unfolding q_def by linarith
  then have high: "d < q + 3" by (simp only: power_strict_increasing_iff)
  have "(int 53 + (int l - 53) - 1) * 30103 div 100000 - 1 = int q - 1"
    using l(4) by (simp add: q_def of_nat_diff zdiv_int)
  then have point: "decimal_point (mantissa_of n) (int l - 53) = find_point (mantissa_of n) (int l - 53)
      [int q - 1, int q, int q + 1, int q + 2, int q + 3]"
    unfolding decimal_point_def m53 Let_def by (simp add: add.commute del: find_point.simps)
  show ?thesis
  proof (cases q)
    case 0
    then show ?thesis
      using point find_point_exact [OF assms, of 0 4] high negative_candidate [OF assms(1,2)]
      by (simp add: l_def upt_rec del: find_point.simps)
  next
    case (Suc q')
    then show ?thesis
      using point find_point_exact [OF assms, of q' 5] low high
      by (simp add: l_def upt_rec add.commute del: find_point.simps)
  qed
qed

subsection \<open>The shortest digits of an integer\<close>

text \<open>The scale at which an integer and its neighbours are compared.\<close>

definition scale_of :: "nat \<Rightarrow> nat" where
  "scale_of n = 2 ^ (55 - bit_length n)"

lemma scale_facts:
  assumes "0 < n" and "n < 2 ^ 53"
  shows "4 \<le> scale_of n" and "4 * mantissa_of n = n * scale_of n"
    and "bin_side x (int (bit_length n) - 53) (int u) = x"
    and "dec_side d (int (bit_length n) - 53) (int u) = d * 10 ^ u * scale_of n"
proof -
  define l where "l = bit_length n"
  have l: "l \<le> 53" using bit_length_le [OF assms] by (simp add: l_def)
  have "(2 :: nat) ^ 2 \<le> 2 ^ (55 - l)" using l by (intro power_increasing) simp_all
  then show "4 \<le> scale_of n" by (simp add: scale_of_def l_def)
  have e: "55 - l = 2 + (53 - l)" "nat (2 - (int l - 53)) = 55 - l" using l by simp_all
  show "4 * mantissa_of n = n * scale_of n"
    using e(1) by (simp add: mantissa_of_def scale_of_def l_def [symmetric] power_add)
  show "bin_side x (int (bit_length n) - 53) (int u) = x"
    using l by (simp add: bin_side_def scale_up_def l_def [symmetric])
  show "dec_side d (int (bit_length n) - 53) (int u) = d * 10 ^ u * scale_of n"
    unfolding dec_side_def scale_up_def l_def [symmetric] e(2) using l by (simp add: scale_of_def l_def)
qed

lemma interval_bounds:
  "in_interval m (lower_mid m e) x \<Longrightarrow> 4 * m \<le> x + 2"
  "4 * m \<le> x \<Longrightarrow> 2 ^ 52 \<le> m \<Longrightarrow> in_interval m (lower_mid m e) x"
  "in_interval m x (upper_mid m) \<Longrightarrow> x \<le> 4 * m + 2"
  by (auto simp: in_interval_def lower_mid_def upper_mid_def split: if_splits)

text \<open>A number of digits is enough exactly when the digits that are left out are zeros.\<close>

lemma shortest_step:
  assumes "0 < n" and "n < 2 ^ 53" and "j \<le> k"
  shows "shortest_from (mantissa_of n) (int (bit_length n) - 53) (int k) (j # js) =
    (if 10 ^ (k - j) dvd n then n div 10 ^ (k - j)
     else shortest_from (mantissa_of n) (int (bit_length n) - 53) (int k) js)"
proof -
  let ?m = "mantissa_of n" and ?e = "int (bit_length n) - 53" and ?u = "k - j" and ?W = "scale_of n"
  let ?d = "n div 10 ^ ?u"
  note sc = scale_facts [OF assms(1,2)]
  have u: "int k - int j = int ?u" using assms(3) by simp
  have W: "0 < ?W" "4 \<le> ?W" using sc(1) by simp_all
  have down: "bin_side (4 * ?m) ?e (int ?u) div dec_side 1 ?e (int ?u) = ?d"
    unfolding sc(3,4) unfolding sc(2) using W(1) by simp
  have split: "n = ?d * 10 ^ ?u + n mod 10 ^ ?u" "n mod 10 ^ ?u < 10 ^ ?u"
    by (simp_all only: div_mult_mod_eq) simp
  have okdown: "in_interval ?m (lower_mid ?m ?e) (?d * 10 ^ ?u * ?W) \<longleftrightarrow> 10 ^ ?u dvd n"
  proof
    assume "in_interval ?m (lower_mid ?m ?e) (?d * 10 ^ ?u * ?W)"
    then have "n * ?W \<le> ?d * 10 ^ ?u * ?W + 2" using interval_bounds(1) sc(2) by fastforce
    moreover have "n * ?W = ?d * 10 ^ ?u * ?W + n mod 10 ^ ?u * ?W"
      by (subst split(1)) (simp only: distrib_right)
    ultimately have "n mod 10 ^ ?u * ?W \<le> 2" by linarith
    then have "n mod 10 ^ ?u = 0" using W(2) by (cases "n mod 10 ^ ?u") auto
    then show "10 ^ ?u dvd n" by (simp add: dvd_eq_mod_eq_0)
  next
    assume "10 ^ ?u dvd n"
    then have "?d * 10 ^ ?u = n" by simp
    then show "in_interval ?m (lower_mid ?m ?e) (?d * 10 ^ ?u * ?W)"
      using interval_bounds(2) [of ?m "n * ?W" ?e] sc(2) mantissa_bounds [OF assms(1,2)] by simp
  qed
  have okup: "\<not> in_interval ?m (Suc ?d * 10 ^ ?u * ?W) (upper_mid ?m)"
  proof
    assume "in_interval ?m (Suc ?d * 10 ^ ?u * ?W) (upper_mid ?m)"
    then have "Suc ?d * 10 ^ ?u * ?W \<le> n * ?W + 2" using interval_bounds(3) sc(2) by fastforce
    moreover have "Suc n \<le> Suc ?d * 10 ^ ?u" using split unfolding mult_Suc by linarith
    then have "Suc n * ?W \<le> Suc ?d * 10 ^ ?u * ?W" by (rule mult_le_mono1)
    moreover have "Suc n * ?W = n * ?W + ?W" by simp
    ultimately show False using W(2) by linarith
  qed
  show ?thesis
    unfolding shortest_from.simps Let_def u down unfolding sc(3,4) using okdown okup by simp
qed

lemma shortest_from_finds:
  assumes "0 < n" and "n < 2 ^ 53" and "j \<le> k" and "k < j + t"
  shows "\<exists>u. shortest_from (mantissa_of n) (int (bit_length n) - 53) (int k) [j..<j + t] = n div 10 ^ u \<and>
     10 ^ u dvd n \<and> u \<le> k - j \<and> (u = k - j \<or> \<not> 10 ^ Suc u dvd n)"
  using assms(3,4)
proof (induction t arbitrary: j)
  case 0
  then show ?case by simp
next
  case (Suc t)
  have list: "[j..<j + Suc t] = j # [Suc j..<Suc j + t]" by (simp add: upt_rec)
  show ?case
  proof (cases "10 ^ (k - j) dvd n")
    case True
    then show ?thesis unfolding list shortest_step [OF assms(1,2) Suc.prems(1)]
      by (intro exI [of _ "k - j"]) simp
  next
    case False
    then have jk: "j \<noteq> k" by auto
    then have "Suc j \<le> k" "k < Suc j + t" using Suc.prems by simp_all
    from Suc.IH [OF this] obtain u where u:
      "shortest_from (mantissa_of n) (int (bit_length n) - 53) (int k) [Suc j..<Suc j + t] = n div 10 ^ u"
      "10 ^ u dvd n" "u \<le> k - Suc j" "u = k - Suc j \<or> \<not> 10 ^ Suc u dvd n" by blast
    have "Suc (k - Suc j) = k - j" using jk Suc.prems(1) by simp
    with False have "\<not> 10 ^ Suc (k - Suc j) dvd n" by (simp only: not_False_eq_True)
    with u(4) have "\<not> 10 ^ Suc u dvd n" by blast
    with u(1-3) False show ?thesis unfolding list shortest_step [OF assms(1,2) Suc.prems(1)]
      by (intro exI [of _ u]) simp
  qed
qed

subsection \<open>The text of an integer\<close>

lemma number_of_digits: "0 < n \<Longrightarrow> \<exists>d. 10 ^ d \<le> n \<and> n < 10 ^ Suc d \<and> length (nat_to_string n) = Suc d"
proof (induction n rule: nat_to_string.induct)
  case (1 n)
  show ?case
  proof (cases "n < 10")
    case True
    with "1.prems" show ?thesis by (intro exI [of _ 0]) (simp add: nat_to_string.simps [of n])
  next
    case False
    then have "0 < n div 10" by simp
    with False obtain d where d: "10 ^ d \<le> n div 10" "n div 10 < 10 ^ Suc d" "length (nat_to_string (n div 10)) = Suc d"
      using "1.IH" by auto
    then have "10 * 10 ^ d \<le> n" "n < 10 * 10 ^ Suc d" by linarith+
    with d(3) False show ?thesis by (intro exI [of _ "Suc d"]) (simp add: nat_to_string.simps [of n])
  qed
qed

lemma nat_to_string_times_ten:
  "0 < n \<Longrightarrow> nat_to_string (n * 10 ^ u) = nat_to_string n @ replicate u (CHR ''0'')"
proof (induction u)
  case 0
  then show ?case by simp
next
  case (Suc u)
  have "digit_char 0 = CHR ''0''" by (simp add: digit_char_def char_of_def bit_0)
  moreover have "\<not> n * 10 ^ Suc u < 10" using Suc.prems mult_le_mono2 [of 1 "n * 10 ^ u" 10] by (simp add: not_less)
  moreover have "n * 10 ^ Suc u div 10 = n * 10 ^ u" "n * 10 ^ Suc u mod 10 = 0" by simp_all
  ultimately show ?case
    using Suc by (subst nat_to_string.simps) (simp add: replicate_append_same)
qed

text \<open>The digits that remain and the zeros that lay them out give the number back.\<close>

lemma strip_zeros_split: "\<exists>v. s = strip_zeros s @ replicate v (CHR ''0'')"
proof -
  have "rev s = takeWhile (\<lambda>c. c = CHR ''0'') (rev s) @ dropWhile (\<lambda>c. c = CHR ''0'') (rev s)" by simp
  then have "s = strip_zeros s @ rev (takeWhile (\<lambda>c. c = CHR ''0'') (rev s))"
    by (metis rev_append rev_rev_ident strip_zeros.simps)
  moreover have "takeWhile (\<lambda>c. c = CHR ''0'') t = replicate (length (takeWhile (\<lambda>c. c = CHR ''0'') t)) (CHR ''0'')" for t
    by (induction t) simp_all
  ultimately show ?thesis by (metis rev_replicate)
qed

lemma fmt_f_nat:
  assumes "0 < d0" and "length (nat_to_string (d0 * 10 ^ u)) = k"
  shows "fmt_f (strip_zeros (nat_to_string d0)) (int k) = nat_to_string (d0 * 10 ^ u)"
proof -
  obtain v where v: "nat_to_string d0 = strip_zeros (nat_to_string d0) @ replicate v (CHR ''0'')"
    using strip_zeros_split by blast
  let ?s = "strip_zeros (nat_to_string d0)"
  have n: "nat_to_string (d0 * 10 ^ u) = ?s @ replicate (v + u) (CHR ''0'')"
    using nat_to_string_times_ten [OF assms(1), of u] v by (simp add: replicate_add)
  then have k: "k = length ?s + (v + u)" using assms(2) by simp
  have "0 < k" using assms(2) by auto
  then have layout: "fmt_f ds (int k) = take k ds @ replicate (k - length ds) (CHR ''0'')"
    if "length ds \<le> k" for ds using that by (simp add: fmt_f_def)
  have "length ?s \<le> k" "k - length ?s = v + u" using k by simp_all
  then show ?thesis unfolding n using layout [of ?s] by (simp del: strip_zeros.simps)
qed

lemma shortest_nat:
  assumes "0 < n" and "n < 2 ^ 53" and "length (nat_to_string n) = k" and "k \<le> 17"
  shows "\<exists>u. shortest (float_of_nat n) = (strip_zeros (nat_to_string (n div 10 ^ u)), int k) \<and>
    10 ^ u dvd n"
proof -
  obtain d where d: "10 ^ d \<le> n" "n < 10 ^ Suc d" "k = Suc d"
    using number_of_digits [OF assms(1)] assms(3) by auto
  have k: "1 \<le> k" "k < 1 + 17" using d(3) assms(4) by simp_all
  have list: "[1, 2, 3, 4, 5, 6, 7, 8, 9, 10, 11, 12, 13, 14, 15, 16, 17] = [1..<1 + 17 :: nat]"
    by (simp add: upt_conv_Cons)
  obtain u where u: "shortest_from (mantissa_of n) (int (bit_length n) - 53) (int k)
      [1, 2, 3, 4, 5, 6, 7, 8, 9, 10, 11, 12, 13, 14, 15, 16, 17] = n div 10 ^ u"
    "10 ^ u dvd n" "u \<le> k - 1" "u = k - 1 \<or> \<not> 10 ^ Suc u dvd n"
    using shortest_from_finds [OF assms(1,2) k] unfolding list [symmetric] by blast
  have "n div 10 ^ u \<noteq> 10"
  proof
    assume ten: "n div 10 ^ u = 10"
    then have "n = 10 ^ Suc u" using u(2) by (metis dvd_mult_div_cancel power_Suc2)
    with u(4) have "u = d" using d(3) by simp
    with \<open>n = 10 ^ Suc u\<close> d(2) show False by simp
  qed
  moreover have "mantissa_of n \<noteq> 0" using mantissa_bounds(1) [OF assms(1,2)] by simp
  ultimately show ?thesis
    using u(1,2) decimal_point_nat [OF assms(1,2) d(1,2)] d(3)
    by (intro exI [of _ u])
      (simp add: shortest_def float_of_nat_def shortest_at_def point_digits_def del: shortest_from.simps strip_zeros.simps)
qed

lemma digits_no_exponent: "CHR ''e'' \<notin> set (nat_to_string n)"
  using nat_to_string_digits [of n] by (auto simp: list_all_iff is_digit_def)

lemma fmt_e_has_exponent: "CHR ''e'' \<in> set (fmt_e ds k)"
  by (simp add: fmt_e_def Let_def)

text \<open>Integers of at most six digits are printed as they are, longer ones with an exponent.\<close>

lemma format_g_nat:
  assumes "0 < n" and "n < 2 ^ 53"
  shows "n < 10 ^ 6 \<Longrightarrow> format_g (float_of_nat n) = nat_to_string n"
    and "10 ^ 6 \<le> n \<Longrightarrow> CHR ''e'' \<in> set (format_g (float_of_nat n))"
proof -
  obtain d where d: "10 ^ d \<le> n" "n < 10 ^ Suc d" "length (nat_to_string n) = Suc d"
    using number_of_digits [OF assms(1)] by blast
  have "(10 :: nat) ^ d < 10 ^ 16" using d(1) assms(2) by simp
  then have "d < 16" by (simp only: power_strict_increasing_iff)
  then have "Suc d \<le> 17" by simp
  then obtain u where sh: "shortest (float_of_nat n) = (strip_zeros (nat_to_string (n div 10 ^ u)), int (Suc d))"
    and u: "10 ^ u dvd n" using shortest_nat [OF assms d(3)] by blast
  have sign: "fmt_sign (float_of_nat n) = []" by (simp add: fmt_sign_def float_of_nat_def)
  show "format_g (float_of_nat n) = nat_to_string n" if "n < 10 ^ 6"
  proof -
    have "(10 :: nat) ^ d < 10 ^ 6" using d(1) that by linarith
    then have "d < 6" by (simp only: power_strict_increasing_iff)
    moreover have "n div 10 ^ u * 10 ^ u = n" "0 < n div 10 ^ u"
      using u assms(1) by (auto elim!: dvdE)
    ultimately show ?thesis
      using fmt_f_nat [of "n div 10 ^ u" u "Suc d"] d(3)
      by (simp add: format_g_def sh sign del: strip_zeros.simps)
  qed
  show "CHR ''e'' \<in> set (format_g (float_of_nat n))" if "10 ^ 6 \<le> n"
  proof -
    have "(10 :: nat) ^ 6 < 10 ^ Suc d" using d(2) that by linarith
    then have "6 < Suc d" by (simp only: power_strict_increasing_iff)
    then show ?thesis by (simp add: format_g_def sh sign fmt_e_has_exponent del: strip_zeros.simps)
  qed
qed

lemma format_g_nat_text:
  assumes "n < 2 ^ 53"
  shows "\<exists>f. parse_float (nat_to_string n) = Some f \<and> 
    (if n < 10 ^ 6 then format_g f = nat_to_string n else CHR ''e'' \<in> set (format_g f))"
proof (cases "n = 0")
  case True
  have "parse_float (nat_to_string 0) = Some (F64 False 0 0)"
    by (simp only: parse_float_def decimal_of_nat) (simp add: scale_up_def nearest_float_def)
  moreover have "format_g (F64 False 0 0) = nat_to_string 0"
    by (simp add: format_g_def shortest_def fmt_sign_def fmt_f_def nat_to_string_eval)
  ultimately show ?thesis using True by simp
next
  case False
  then have n: "0 < n" by simp
  show ?thesis
    using parse_float_nat [OF n assms] format_g_nat [OF n assms]
    by (cases "n < 10 ^ 6") (auto simp: not_less)
qed

subsection \<open>Negative integers\<close>

definition negative :: "float64 \<Rightarrow> float64" where
  "negative f = F64 True (f_mant f) (f_exp f)"

lemma pack_float_negative:
  "pack_float False m e = Some f \<Longrightarrow> pack_float True m e = Some (negative f)"
  by (auto simp: pack_float_def negative_def split: if_splits)

lemma nearest_float_negative:
  "nearest_float False n d = Some f \<Longrightarrow> nearest_float True n d = Some (negative f)"
  by (auto simp: nearest_float_def float_at_def negative_def intro: pack_float_negative [unfolded negative_def]
      split: if_splits)

lemma decimal_of_negative: "decimal_of_literal (''-'' @ nat_to_string n) = (True, n, 0)"
proof -
  have all: "takeWhile is_digit (nat_to_string n) = nat_to_string n" "dropWhile is_digit (nat_to_string n) = []"
    using nat_to_string_digits [of n] by (simp_all add: takeWhile_eq_all_conv dropWhile_eq_Nil_conv list_all_iff)
  show ?thesis by (simp add: decimal_of_literal_def digits_value_nat_to_string Let_def all)
qed

lemma parse_float_negative:
  assumes "parse_float (nat_to_string n) = Some f"
  shows "parse_float (''-'' @ nat_to_string n) = Some (negative f)"
  using assms nearest_float_negative
  by (simp only: parse_float_def decimal_of_nat decimal_of_negative Let_def prod.case)

lemma format_g_negative: "\<not> f_neg f \<Longrightarrow> format_g (negative f) = ''-'' @ format_g f"
  by (simp add: format_g_def shortest_def negative_def fmt_sign_def Let_def case_prod_beta)

lemma nearest_float_sign: "nearest_float False n d = Some f \<Longrightarrow> \<not> f_neg f"
  by (auto simp: nearest_float_def float_at_def pack_float_def split: if_splits)

lemma format_g_int_text:
  assumes "\<bar>i\<bar> < 2 ^ 53"
  shows "\<exists>f. parse_float (itoa i) = Some f \<and>
    (if \<bar>i\<bar> < 10 ^ 6 then format_g f = itoa i else CHR ''e'' \<in> set (format_g f))"
proof -
  let ?n = "nat \<bar>i\<bar>"
  have "?n < 2 ^ 53" using assms by simp
  then obtain f where f: "parse_float (nat_to_string ?n) = Some f"
    "if ?n < 10 ^ 6 then format_g f = nat_to_string ?n else CHR ''e'' \<in> set (format_g f)"
    using format_g_nat_text by blast
  have sign: "\<not> f_neg f" using f(1) by (auto simp: parse_float_def decimal_of_nat dest: nearest_float_sign)
  have small: "?n < 10 ^ 6 \<longleftrightarrow> \<bar>i\<bar> < 10 ^ 6" by (simp add: nat_less_iff)
  show ?thesis
  proof (cases "i < 0")
    case True
    then have "itoa i = ''-'' @ nat_to_string ?n" by (simp add: itoa_def)
    then show ?thesis
      using parse_float_negative [OF f(1)] format_g_negative [OF sign] f(2)
      by (intro exI [of _ "negative f"]) (simp add: small split: if_splits)
  next
    case False
    then have "itoa i = nat_to_string ?n" by (simp add: itoa_def)
    then show ?thesis using f by (intro exI [of _ f]) (simp add: small split: if_splits)
  qed
qed

lemma itoa_no_exponent: "CHR ''e'' \<notin> set (itoa i)"
  using digits_no_exponent by (simp add: itoa_def)

end
