(* ===== verification/Spec2Isabelle.thy ===== *)
theory Spec2Isabelle
  imports Demo_Telemetry Demo_Serving Result_Text Float_Integers
begin

text \<open>
  The processor is an Envoy \<open>ext_proc\<close> filter that lets MCP clients call the operations of OpenAPI
  documents as tools. Envoy opens one gRPC stream and sends the phases of each HTTP exchange as
  messages; the filter buffers the JSON-RPC body, answers it itself or rewrites it into a call of the
  upstream, and translates the upstream's answer back into a tool result.

  How the parts interact. \<open>RunServer\<close> validates the configuration, loads the documents into a
  registry, filters it and builds the host allowlist. \<open>Process\<close> runs a state machine over the messages
  of a stream. Its first state checks method and host, captures the MCP headers and starts buffering;
  at the end of the body \<open>mcpRequestHandler\<close> decodes the message, resolves the protocol era, checks the
  headers and dispatches; a tool call looks its configuration up in the registry, builds the endpoint
  request and is framed onto the stream; the response phase buffers the upstream's body, and
  \<open>mcpResponseHandler\<close> turns it into a result in the envelope of the era.

  The theories, bottom up, with the files they model.

    \<^item> \<open>Prelude\<close>: fact collections, association lists for Go maps in visiting order, \<open>slices.BinarySearchFunc\<close>
      and \<open>slices.Insert\<close>.
    \<^item> \<open>Go_Strings\<close>, \<open>Go_Strconv\<close>, \<open>Go_Float\<close>, \<open>Go_Json\<close>, \<open>Go_Value\<close>, \<open>Go_Net\<close>, \<open>Go_Base64\<close>: what the program
      uses of Go's standard library, on byte strings: UTF-8 and the string operations, decimal integers
      and quoting, \<open>float64\<close> read and printed, the JSON grammar with decoding and encoding, queries and
      \<open>SplitHostPort\<close>, Base64. \<open>Json_Text\<close> shows that encoded JSON is read back, \<open>Float_Integers\<close> what \<open>%v\<close> makes of integers.
    \<^item> \<open>Ext_Proc\<close> (\<open>extproc_response.go\<close>, \<open>const.go\<close>): the messages, their constructors, and \<open>frame\<close>, whose
      contract is the locale \<open>framing\<close>, interpreted for the request and the response factory.
    \<^item> \<open>Header_Validation\<close> (\<open>header_validation.go\<close>) and \<open>Host_Validation\<close> (\<open>host_validation.go\<close>): capture and
      check of the MCP headers; the allowlist and the locale \<open>host_policy\<close> it is used through.
    \<^item> \<open>Registry\<close> (\<open>registry.go\<close>): the sorted registry with its invariant; the locale \<open>tool_store\<close> is the
      interface the loader relies on.
    \<^item> \<open>Endpoint_Request\<close> (\<open>endpoint_request.go\<close>): arguments become path, query, headers and body.
    \<^item> \<open>Mcp_Era\<close> (\<open>mcp.go\<close>, \<open>result.go\<close>): versions, the two eras as \<open>protocol_era\<close> with one function per method of
      the Go interface, and the locale \<open>era_contract\<close>, interpreted for each era and for the dispatch on both.
    \<^item> \<open>Mcp_Handler\<close> (\<open>mcp_handler.go\<close>): the request and the response handler.
    \<^item> \<open>Stream_State\<close> (\<open>stream_state.go\<close>): one \<open>handle\<close> function per state, the step relation over it and the
      locale \<open>machine\<close> with invariants by rule induction.
    \<^item> \<open>Openapi\<close> (\<open>openapi.go\<close>): schemas, operations, documents and files into a registry.
    \<^item> \<open>Server\<close> (\<open>server.go\<close>): \<open>Process\<close>, the configuration, and \<open>RunServer\<close> with its effects in order.
    \<^item> \<open>Exchange\<close> (over \<open>stream_state.go\<close> and \<open>server.go\<close>): the abstract specification, whole exchanges answered
      without any state, and the proof that the stream refines it.
    \<^item> \<open>Serving\<close> (\<open>server.go\<close>): the goroutines of the running server, one per stream and the one that stops
      gRPC, interleaved action by action over the one server value they share; histories and what gRPC documents.
    \<^item> \<open>Json_Compact\<close> and \<open>Result_Text\<close>: compacting JSON keeps its value, and so a client reads from a tool
      result the upstream's data back.
    \<^item> \<open>Spans\<close> and \<open>Stream_Spans\<close> (over \<open>mcp_handler.go\<close>, \<open>stream_state.go\<close>, \<open>server.go\<close>): every function that
      touches a span once more, with the operations on it and the clock.
    \<^item> \<open>Telemetry\<close> (\<open>log.go\<close>, \<open>tracing.go\<close>, \<open>telemetry.go\<close>): the set-up of loggers and tracer on libraries given by
      their documented laws; \<open>Example_Main\<close> (\<open>examples/mcp-server/main.go\<close>): the example program.
    \<^item> \<open>Demo\<close>, \<open>Demo_Serving\<close> and \<open>Demo_Telemetry\<close>: a concrete server, requests and replies at which the theorems are applied.

  Correspondence. A struct is a record, an interface a datatype, a nil pointer or absent value \<open>None\<close>, a
  returned error the left side of a sum or \<open>None\<close>, a byte slice and a string a list of bytes. A Go map
  that is only looked up is an association list read with \<open>map_of\<close>; where the code loops over a map the
  order of the list is the order of the loop, and theorems say whether it matters. Mutation is state
  passing: \<open>stream\<close> holds the buffer, and each state handler returns the next stream, state and replies.
  Constant texts of error messages are kept where a client can see them.

  What is shown. \<open>stream_refines_exchanges\<close> is the refinement of the contract in \<open>Exchange\<close>, and
  \<open>every_request_is_answered\<close> that nothing is left waiting; \<open>chunking_irrelevant\<close>, \<open>disallowed_host_is_drained\<close>,
  \<open>reachable_states_safe\<close>, \<open>process_stops_at_violation\<close> and \<open>handle_accepts_exactly\<close> are about the protocol of
  a stream; \<open>forwarded_exactly\<close> to \<open>modern_refusals\<close> and \<open>initialize_negotiates_legacy\<close> about the request handler,
  the rewritten request and the two eras; \<open>tool_result_members\<close> to \<open>content_length_is_exact\<close> about the response
  handler and what a client reads from it; \<open>frame_roundtrip\<close> about framing; then come hosts,
  registry and loader, start-up, spans and logging. \<open>streams_do_not_interfere\<close> carries what is proved of one
  stream over to a server with many, \<open>shutdown_is_graceful\<close> and \<open>server_can_stop\<close> are about its end; last come
  the places where the stream ends although the peer did nothing wrong (\<open>strict_phases\<close>).

  Parameters. \<open>runtime\<close> holds the Unicode tables for case mapping, the JSON-RPC and MCP SDK (\<open>sdk\<close>: decoding
  and encoding of messages and of the SDK's own result types), the order in which the loop over the map of
  extra headers visits it, and the hostname \<open>net/url\<close> finds in an origin. \<open>file_access\<close> holds globbing, file status
  and the OpenAPI parser. \<open>socket_ops\<close> holds the
  operating system and the result of \<open>Serve\<close>; which actions gRPC takes while the server runs is a predicate on
  its state, bounded by \<open>documented\<close>. \<open>telemetry_lib\<close> holds zap and OpenTelemetry, \<open>span_texts\<close> the texts of
  errors that spans record. Nothing is assumed of these but what a theorem states as a hypothesis.

  Fuel and bounds. Only \<open>openApiSchemaToMap\<close> has fuel, since a schema may lead back into itself:
  \<open>schema_translation_returns_iff\<close> shows that some fuel is enough exactly when no chain of pointers is
  infinite; \<open>translate_ranked\<close> bounds it by the height. All other loops are structural or have a
  measure. Integers of the program that come from outside, status codes, are read at 64 bits by \<open>atoi\<close>, with
  its range check; lengths are naturals. JSON nests at most 10000 deep, as in \<open>encoding/json\<close>.

  Not modelled. Log lines, which the program writes and never reads; the options of the gRPC server,
  which only add the spans of its library; what exporters send, and the encoders of the log cores.
  \<open>json.Marshal\<close> of a value that was decoded from JSON and of the error data cannot fail, so the branches for its failure in \<open>marshalRequestBody\<close> (with its trace)
  and \<open>encodeJSONRPCErrorWithData\<close> are absent. A schema's map of properties holds references, each with a
  \<open>Value\<close> that may be nil; a nil reference, on which \<open>openApiSchemaToMap\<close> would panic, is not representable.
\<close>
section \<open>The stream refines its contract\<close>

text \<open>C1: The refinement theorem of the stream. For any sequence of complete exchanges (bodiless requests,
  requests refused for their host, forwarded tool calls with their upstream response), cut into messages
  in any way, \<open>Process\<close> sends exactly the answers that the stateless specification gives for the whole
  bodies, one exchange after the other, and returns without an error when the stream is closed.\<close>

theorem stream_refines_exchanges:
  assumes "\<And>sent rep. send sent rep = None" and "list_all (completes rt s) xs"
  shows "Process rt s send (map Received (concat (map wire xs)) @ [StreamClosed]) =
    (concat (map (answer rt s) xs), Returned None)"
  by (rule process_refines [OF assms])

theorem stream_refines_exchanges_witness:
  "\<exists>out. Process demo_runtime demo_server (\<lambda>sent rep. None)
     (map Received (concat (map wire
        [Bodiless [], Refused [] [''{''] None,
         ToolCall demo_headers [take 5 demo_body] (Some (drop 5 demo_body))
           (BodyResponse [header_of '':status'' ''200''] [''[1,''] (Some ''2]'')),
         Bodiless []])) @ [StreamClosed]) =
     (out, Returned None) \<and> out \<noteq> []"
proof -
  have "body_of [take 5 demo_body] (Some (drop 5 demo_body)) = demo_body" by (simp add: body_of_def)
  then have p: "handler_reply demo_runtime demo_server demo_headers
      (body_of [take 5 demo_body] (Some (drop 5 demo_body))) = demo_reply"
    by (simp only: handler_reply_def demo_capture demo_forwarded)
  have refused: "post_allowed []" "\<not> host_allowed demo_runtime demo_server []"
    by (simp_all add: post_allowed_def host_allowed_def checkHeaders_def request_host_def)
  have "forwarded demo_reply" "id_is_valid (Id demo_reply)"
    by (simp_all add: demo_reply_def forward_call_def forwarded_def id_is_valid_def)
  then have "list_all (completes demo_runtime demo_server)
     [Bodiless [], Refused [] [''{''] None,
      ToolCall demo_headers [take 5 demo_body] (Some (drop 5 demo_body))
        (BodyResponse [header_of '':status'' ''200''] [''[1,''] (Some ''2]'')), Bodiless []]"
    using demo_start refused by (simp only: list.pred_inject completes.simps p) simp
  moreover have "(\<And>sent rep. (\<lambda>sent rep. None) sent rep = (None :: string option))" by simp
  ultimately show ?thesis
    using stream_refines_exchanges [of "\<lambda>sent rep. None" demo_runtime demo_server]
    by (intro exI conjI) (assumption | simp add: forbiddenResponse_def httpStatusResponse_def immediateResponse_def)+
qed

text \<open>C2: Nothing is left waiting. A complete request without a body always gets one immediate response. So
  does, at its end, a complete POST request with a body (or one that names no method), unless it is
  forwarded: then it gets the framed rewrite, and if its identifier is valid any response of the upstream
  completes the exchange with the answer of the specification. The side condition on the method is needed:
  the body of any other request ends the stream (\<open>strict_phases\<close>).\<close>

theorem every_request_is_answered:
  assumes "post_allowed hs"
  shows "(\<forall>hs'. \<exists>ir. handle rt (strm, AwaitingRequestHeaders) (RequestHeaders hs' True) =
       Inr ((strm, AwaitingRequestHeaders), immediateResponse ir)) \<and>
     (\<exists>c out. feed (handle rt) (strm, AwaitingRequestHeaders)
       (RequestHeaders hs False # request_body bs lst) = Inr (c, out) \<and>
     ((\<exists>ir. out = immediateResponse ir) \<or>
      (\<exists>m rc. out = frame m requestFactory (lst = None) \<and> snd c = AwaitingResponseHeaders rc \<and>
         (id_is_valid (jsonrpcID rc) \<longrightarrow>
            (\<forall>resp. \<exists>b. feed (handle rt) c (wire_response resp) =
               Inr (((fst c)\<lparr>buf := b\<rparr>, AwaitingRequestHeaders), response_answer rt rc resp))))))"
proof
  show "\<forall>hs'. \<exists>ir. handle rt (strm, AwaitingRequestHeaders) (RequestHeaders hs' True) =
       Inr ((strm, AwaitingRequestHeaders), immediateResponse ir)"
    by (auto simp: handle_defs start_request_def methodNotAllowedResponse_def forbiddenResponse_def
        httpStatusResponse_def newImmediateBodyResponse_def newImmediateBodyResponseWithStatus_def)
  have completed: "\<exists>b. feed (handle rt) c (wire_response resp) =
      Inr (((fst c)\<lparr>buf := b\<rparr>, AwaitingRequestHeaders), response_answer rt rc resp)"
    if "snd c = AwaitingResponseHeaders rc" "isToolCall rc" for c rc resp
    using that response_refines [of rc rt "fst c" resp] by (cases c) simp
  show "\<exists>c out. feed (handle rt) (strm, AwaitingRequestHeaders)
       (RequestHeaders hs False # request_body bs lst) = Inr (c, out) \<and>
     ((\<exists>ir. out = immediateResponse ir) \<or>
      (\<exists>m rc. out = frame m requestFactory (lst = None) \<and> snd c = AwaitingResponseHeaders rc \<and>
         (id_is_valid (jsonrpcID rc) \<longrightarrow>
            (\<forall>resp. \<exists>b. feed (handle rt) c (wire_response resp) =
               Inr (((fst c)\<lparr>buf := b\<rparr>, AwaitingRequestHeaders), response_answer rt rc resp)))))"
    using request_answered [OF assms, of rt strm bs lst] completed by blast
qed

theorem every_request_is_answered_witness:
  "\<exists>c out. feed (handle demo_runtime) (demo_stream, AwaitingRequestHeaders)
     (RequestHeaders demo_headers False # request_body [demo_body] None) = Inr (c, out)"
  using every_request_is_answered [OF demo_start(1), of demo_runtime demo_stream "[demo_body]" None] by blast

section \<open>A whole exchange\<close>

text \<open>C3: How a request body is cut into chunks makes no difference: two ways to send the same bytes
  that end in the same way, by an end-of-stream chunk or by trailers, give the same messages and the
  same state.\<close>

theorem chunking_irrelevant:
  assumes "post_allowed hs" and "body_of bs lst = body_of bs' lst'" and "(lst = None) = (lst' = None)"
  shows "feed (handle rt) (strm, AwaitingRequestHeaders) (RequestHeaders hs False # request_body bs lst) =
    feed (handle rt) (strm, AwaitingRequestHeaders) (RequestHeaders hs False # request_body bs' lst')"
proof (cases "host_allowed rt (server strm) hs")
  case True
  then show ?thesis using request_phase [OF assms(1)] assms(2,3) by simp
next
  case False
  then show ?thesis using rejected_phase [OF assms(1)] by simp
qed

theorem chunking_irrelevant_witness:
  "feed (handle demo_runtime) (demo_stream, AwaitingRequestHeaders)
     (RequestHeaders demo_headers False # request_body [''{'', ''}''] None) =
   feed (handle demo_runtime) (demo_stream, AwaitingRequestHeaders)
     (RequestHeaders demo_headers False # request_body [''{}''] None)"
  by (rule chunking_irrelevant) (simp_all add: demo_start body_of_def)

text \<open>C4: A POST request whose Host or Origin is not allowed never reaches the MCP handler. While its
  body is in flight nothing is sent; the body is read to its end, the answer is the 403 alone, and the
  stream is ready for the next request.\<close>

theorem disallowed_host_is_drained:
  assumes "post_allowed hs" and "\<not> host_allowed rt (server strm) hs"
  shows "feed (handle rt) (strm, AwaitingRequestHeaders)
           (RequestHeaders hs False # map (\<lambda>b. RequestBody b False) bs) =
         Inr ((strm, DrainingRequest forbiddenResponse), []) \<and>
         feed (handle rt) (strm, AwaitingRequestHeaders) (RequestHeaders hs False # request_body bs lst) =
         Inr ((strm, AwaitingRequestHeaders), forbiddenResponse)"
proof
  show "feed (handle rt) (strm, AwaitingRequestHeaders)
      (RequestHeaders hs False # map (\<lambda>b. RequestBody b False) bs) =
    Inr ((strm, DrainingRequest forbiddenResponse), [])"
    using start_request_cases(2) [OF assms] by (simp add: handle_defs feed_drained_chunks)
  show "feed (handle rt) (strm, AwaitingRequestHeaders) (RequestHeaders hs False # request_body bs lst) =
    Inr ((strm, AwaitingRequestHeaders), forbiddenResponse)"
    by (rule rejected_phase [OF assms])
qed

theorem disallowed_host_is_drained_witness:
  "feed (handle demo_runtime) (demo_stream, AwaitingRequestHeaders)
     (RequestHeaders [] False # request_body [''{'', ''}''] None) =
   Inr ((demo_stream, AwaitingRequestHeaders), forbiddenResponse)"
  using disallowed_host_is_drained [of "[]" demo_runtime demo_stream "[''{'', ''}'']" None]
  by (simp add: post_allowed_def host_allowed_def checkHeaders_def request_host_def)

text \<open>C5: In every state a stream can reach, the server and its configuration are unchanged, a draining
  state holds the 403, the response states belong to forwarded calls. And every emission on the way is of
  the side, request or response, that Envoy waits for in the state the messages before it lead to, and
  starts with its only headers message.\<close>

theorem reachable_states_safe:
  assumes "run (handle rt) (initial s) tr c"
  shows "state_ok s c \<and>
     (\<forall>pre req out post. tr = pre @ (req, out) # post \<longrightarrow>
        (\<exists>d d'. run (handle rt) (initial s) pre d \<and> handle rt d req = Inr (d', out) \<and>
           state_ok s d \<and> well_sided (snd d) out))"
proof -
  have init: "state_ok s (initial s)" by (simp add: initial_def state_ok_def)
  with assms have "state_ok s c" by (rule ep.run_inv)
  then show ?thesis using ep.run_at [OF _ init] assms by blast
qed

theorem reachable_states_safe_witness:
  "state_ok demo_server (demo_stream, AwaitingRequestHeaders) \<and>
   (\<exists>d. run (handle demo_runtime) (initial demo_server) [(RequestHeaders [] False, [])] d \<and>
      well_sided (snd d) forbiddenResponse)"
proof -
  have run: "run (handle demo_runtime) (initial demo_server)
      [(RequestHeaders [] False, []), (RequestTrailers, forbiddenResponse)] (demo_stream, AwaitingRequestHeaders)"
    by (simp add: run_Cons_iff run_Nil_iff initial_def handle_defs start_request_def checkHeaders_def
        request_host_def demo_stream_def)
  have "[(RequestHeaders [] False, []), (RequestTrailers, forbiddenResponse)] =
      [(RequestHeaders [] False, [])] @ (RequestTrailers, forbiddenResponse) # []" by simp
  with reachable_states_safe [OF run] show ?thesis by blast
qed

text \<open>C6: \<open>Process\<close> follows the protocol and nothing else: a message the current state does not accept
  ends the stream with the protocol violation, after exactly the replies to the messages before it have
  been sent.\<close>

theorem process_stops_at_violation:
  assumes "\<And>xs x. send xs x = None" and "feed (handle rt) (initial s) reqs = Inr (c, out)"
    and "\<not> accepts (snd c) req"
  shows "\<exists>expected. Process rt s send (map Received reqs @ Received req # es) =
     (out, Returned (Some (Violation (ProtocolViolation expected req))))"
  using process_loop_violation [of send rt "initial s" reqs c out req "[]" es] assms
  by (simp add: Process_def)

theorem process_stops_at_violation_witness:
  "\<exists>expected. Process demo_runtime demo_server (\<lambda>sent rep. None)
     (map Received [] @ Received ResponseTrailers # []) =
     ([], Returned (Some (Violation (ProtocolViolation expected ResponseTrailers))))"
  by (rule process_stops_at_violation [where c = "initial demo_server" and out = "[]"])
    (simp_all add: initial_def accepts_def)

text \<open>C7: Which messages each state takes: exactly the ones of its phase, and upstream response headers
  only for a call that was forwarded under a valid identifier. Every other message is a violation.\<close>

theorem handle_accepts_exactly:
  "handle rt (strm, st) req \<in> range Inr \<longleftrightarrow> accepts st req"
proof -
  have "x \<in> range Inr \<longleftrightarrow> \<not> isl x" for x :: handled by (cases x) auto
  then show ?thesis by (simp add: handle_accepts)
qed

section \<open>The request handler\<close>

text \<open>C8: The handler forwards a message upstream in exactly one case: it is a \<open>tools/call\<close> request that
  its era admits (version served, method served, headers valid), its parameters decode, they name a
  registered tool and the arguments fit the operation. The rewrite is the one for that tool.\<close>

theorem forwarded_exactly:
  "Reroute (mcpRequestHandler rt s body hdrs) = Some m \<longleftrightarrow>
     (\<exists>req e c r b. DecodeMessage (rsdk rt) body = Some (RequestMessage req) \<and>
        rq_method req = methodToolsCall \<and> admitted rt s req hdrs e \<and>
        call_of rt s (rq_params req) = Some (c, r, b) \<and>
        m = the (Reroute (forward_call rt e (rq_id req) c r b (paramHeaderNames hdrs))))"
  by (rule mcpRequestHandler_Reroute)

text \<open>C9: Every message is either answered, with one immediate response and nothing forwarded, or forwarded
  with its rewrite, the tool's response configuration and its era, and no immediate response.\<close>

theorem answered_or_forwarded:
  "answered (mcpRequestHandler rt s body hdrs) \<noteq> forwarded (mcpRequestHandler rt s body hdrs)"
  using mcpRequestHandler_either [of rt s body hdrs] answered_not_forwarded by blast

text \<open>C10: A modern request is forwarded only if its headers mirror its body, and the tool that is called is
  the one the \<open>Mcp-Name\<close> header names: whatever acted on the header acted on the tool that runs.\<close>

theorem modern_call_matches_headers:
  assumes "Reroute (mcpRequestHandler rt s body hdrs) = Some m"
    and "Era (mcpRequestHandler rt s body hdrs) = Some (ModernEra e)"
  shows "\<exists>req n c args r. DecodeMessage (rsdk rt) body = Some (RequestMessage req) \<and>
     headers_mirror_body req (metaProtocolVersion (rq_params req)) hdrs \<and>
     decodeHeaderValue (mh_name hdrs) = Some n \<and>
     GetConfig (registry s) n = Some c \<and>
     decode_call_params (rq_params req) = Some \<lparr>cp_Name = n, cp_Arguments = args\<rparr> \<and>
     newEndpointRequest (Endpoint c) args = Inr r \<and>
     m = the (Reroute (forward_call rt (ModernEra e) (rq_id req) c r
                (marshalRequestBody (unicode rt) (Endpoint c) args) (paramHeaderNames hdrs)))"
proof -
  from assms(1) obtain req e' c r b where req: "DecodeMessage (rsdk rt) body = Some (RequestMessage req)"
    "rq_method req = methodToolsCall" and adm: "admitted rt s req hdrs e'"
    and call: "call_of rt s (rq_params req) = Some (c, r, b)"
    and m: "m = the (Reroute (forward_call rt e' (rq_id req) c r b (paramHeaderNames hdrs)))"
    unfolding mcpRequestHandler_Reroute by blast
  have "mcpRequestHandler rt s body hdrs = forward_call rt e' (rq_id req) c r b (paramHeaderNames hdrs)"
    by (rule mcpRequestHandler_forward [OF req adm call])
  with assms(2) have e': "e' = ModernEra e" by (simp add: forward_call_def)
  with adm have mirror: "headers_mirror_body req (metaProtocolVersion (rq_params req)) hdrs"
    by (simp add: admitted_def validate_iff_mirror Let_def)
  then obtain n where n: "decode_name_params (rq_params req) = Some n"
    "decodeHeaderValue (mh_name hdrs) = Some n"
    using req(2) by (auto simp: headers_mirror_body_def)
  from call obtain n' args where "decode_name_params (rq_params req) = Some n'"
    "GetConfig (registry s) n' = Some c" "newEndpointRequest (Endpoint c) args = Inr r"
    "b = marshalRequestBody (unicode rt) (Endpoint c) args"
    "decode_call_params (rq_params req) = Some \<lparr>cp_Name = n', cp_Arguments = args\<rparr>"
    by (rule call_of_tool)
  with n req mirror m e' show ?thesis by auto
qed

theorem modern_call_matches_headers_witness:
  "\<exists>req n. DecodeMessage (rsdk demo_runtime) demo_modern_body = Some (RequestMessage req) \<and>
     headers_mirror_body req v20260728 demo_modern_captured \<and>
     decodeHeaderValue (mh_name demo_modern_captured) = Some n"
proof -
  have dec: "DecodeMessage (rsdk demo_runtime) demo_modern_body = Some (RequestMessage (demo_request demo_modern_body))"
    by (simp add: demo_runtime_def demo_sdk_def)
  obtain m where "Reroute (mcpRequestHandler demo_runtime demo_server demo_modern_body demo_modern_captured) = Some m"
    "Era (mcpRequestHandler demo_runtime demo_server demo_modern_body demo_modern_captured) =
       Some (ModernEra (serverInfo demo_server))"
    by (simp add: demo_modern_forwarded forward_call_def)
  from modern_call_matches_headers [OF this] dec show ?thesis
    by (auto simp: demo_request_def demo_modern_declared)
qed

text \<open>C11: A forwarded request carries none of the headers of the MCP revision: every header of the
  incoming request whose name, in any case, is one of the three MCP names or has the parameter prefix
  is removed by its lower-case name, and so are the content length and type of the JSON-RPC body.\<close>

theorem forwarded_strips_mcp_headers:
  assumes "Reroute (mcpRequestHandler rt s body (captureMCPRequestHeaders (unicode rt) hs)) = Some m"
  shows "\<exists>hm. mutation_of (sm_headers m) = Some hm \<and>
     {''content-length'', ''content-type''} \<subseteq> set (remove_headers hm) \<and>
     (\<forall>h \<in> set hs. is_mcp_header (to_lower (unicode rt) (hkey h)) \<longrightarrow>
        to_lower (unicode rt) (hkey h) \<in> set (remove_headers hm))"
proof -
  let ?H = "captureMCPRequestHeaders (unicode rt) hs"
  from assms obtain req e c r b where "DecodeMessage (rsdk rt) body = Some (RequestMessage req)"
    "rq_method req = methodToolsCall" "admitted rt s req ?H e" "call_of rt s (rq_params req) = Some (c, r, b)"
    and m: "m = the (Reroute (forward_call rt e (rq_id req) c r b (paramHeaderNames ?H)))"
    unfolding mcpRequestHandler_Reroute by blast
  obtain m' hm where "Reroute (forward_call rt e (rq_id req) c r b (paramHeaderNames ?H)) = Some m'"
    "mutation_of (sm_headers m') = Some hm"
    "set (remove_headers hm) = set removeOnRoutingHeaders \<union> set (paramHeaderNames ?H)"
    using forward_call_mutation [of rt e "rq_id req" c r b "paramHeaderNames ?H"] by blast
  with m mcp_headers_stripped [of _ hs "unicode rt"] show ?thesis
    by (auto simp: removeOnRoutingHeaders_def)
qed

theorem forwarded_strips_mcp_headers_witness:
  "\<exists>m hm. Reroute (mcpRequestHandler demo_runtime demo_server demo_modern_body
       (captureMCPRequestHeaders (unicode demo_runtime) demo_modern_headers)) = Some m \<and>
     mutation_of (sm_headers m) = Some hm \<and> ''content-length'' \<in> set (remove_headers hm)"
proof -
  obtain m where m: "Reroute (mcpRequestHandler demo_runtime demo_server demo_modern_body
      (captureMCPRequestHeaders (unicode demo_runtime) demo_modern_headers)) = Some m"
    by (simp add: demo_modern_capture demo_modern_forwarded forward_call_def)
  from forwarded_strips_mcp_headers [OF m] m show ?thesis by auto
qed

text \<open>C12: What reaches the upstream from a started server, as a function of the client's request. A
  forwarded message is a call of a registered tool, the one its parameters name. It goes to the tool's host
  with the operation's method. The path is the template filled with the client's arguments, under the
  conditions of \<open>path_template_filled\<close>; the query the upstream parses has, for every declared query
  parameter, exactly the strings of the argument in order, and nothing else; the extra headers are the
  declared header arguments over the defaults, each once, if the loop over their map visits every entry
  once; the body is the \<open>body\<close> argument.\<close>

theorem upstream_request_carries_arguments:
  assumes "starts (RunServer U fa fuel os ctx (Some cfg)) s"
    and "\<And>hs. mset (header_order rt hs) = mset hs"
    and "Reroute (mcpRequestHandler rt s body hdrs) = Some m"
  shows "\<exists>req cp c hm extra path query qs.
     DecodeMessage (rsdk rt) body = Some (RequestMessage req) \<and> rq_method req = methodToolsCall \<and>
     decode_call_params (rq_params req) = Some cp \<and>
     GetConfig (registry s) (cp_Name cp) = Some c \<and>
     mutation_of (sm_headers m) = Some hm \<and>
     header_pairs (set_headers hm) = extra @
       [('':method'', to_upper (unicode rt) (Method (Endpoint c))),
        ('':path'', path @ (if qs = [] then [] else ''?'' @ query)),
        ('':authority'', Host (Endpoint c))] \<and>
     distinct (map fst extra) \<and> map_of extra = header_value_of (Endpoint c) (cp_Arguments cp) \<and>
     (\<forall>segs. template_ok (Endpoint c) (cp_Arguments cp) segs \<longrightarrow>
        path = fill (path_values (Endpoint c) (cp_Arguments cp)) segs) \<and>
     parse_query query = map Some qs \<and>
     (\<forall>k. map snd (filter (\<lambda>p. fst p = k) qs) = query_values (Endpoint c) (cp_Arguments cp) k) \<and>
     sm_body m = marshalRequestBody (unicode rt) (Endpoint c) (cp_Arguments cp)"
proof -
  from assms(3) obtain req e c r b where req: "DecodeMessage (rsdk rt) body = Some (RequestMessage req)"
    "rq_method req = methodToolsCall"
    and call: "call_of rt s (rq_params req) = Some (c, r, b)"
    and m: "m = the (Reroute (forward_call rt e (rq_id req) c r b (paramHeaderNames hdrs)))"
    unfolding mcpRequestHandler_Reroute by blast
  from call obtain cp where cp: "decode_call_params (rq_params req) = Some cp"
    "GetConfig (registry s) (cp_Name cp) = Some c"
    and new: "newEndpointRequest (Endpoint c) (cp_Arguments cp) = Inr r"
    and b: "b = marshalRequestBody (unicode rt) (Endpoint c) (cp_Arguments cp)"
    by (auto simp: call_of_def split: option.splits sum.splits)
  have declared: "distinct (map fst (Parameters (Endpoint c)))"
    by (rule started_parameters_distinct [OF assms(1) cp(2)])
  note r = newEndpointRequest_spec [OF new declared, unfolded request_of_def]
  obtain m' hm where "Reroute (forward_call rt e (rq_id req) c r b (paramHeaderNames hdrs)) = Some m'"
    and hm: "mutation_of (sm_headers m') = Some hm" "sm_body m' = b"
    and hp: "header_pairs (set_headers hm) = header_order rt (extraHeaders r) @
       [('':method'', to_upper (unicode rt) (Method (Endpoint c))), ('':path'', fullPath r),
        ('':authority'', Host (Endpoint c))]"
    using forward_call_mutation [of rt e "rq_id req" c r b "paramHeaderNames hdrs"] by blast
  with m have m': "m' = m" by simp
  let ?qs = "values_pairs (queryParams r)" and ?extra = "header_order rt (extraHeaders r)"
  have extra: "distinct (map fst ?extra)" "map_of ?extra = header_value_of (Endpoint c) (cp_Arguments cp)"
    using visited_once [OF assms(2), of "extraHeaders r"] r by auto
  have qs: "\<forall>k. map snd (filter (\<lambda>p. fst p = k) ?qs) = query_values (Endpoint c) (cp_Arguments cp) k"
    using r values_pairs_of_key [of "queryParams r"] by simp
  have path: "\<forall>segs. template_ok (Endpoint c) (cp_Arguments cp) segs \<longrightarrow>
      rpath r = fill (path_values (Endpoint c) (cp_Arguments cp)) segs"
    using newEndpointRequest_path [OF new declared] by blast
  show ?thesis
    by (intro exI conjI)
      (rule req cp hm(1) [unfolded m'] hp [unfolded newEndpointRequest_fullPath [OF new]] extra path
        parse_query_encode qs hm(2) [unfolded m' b])+
qed

theorem upstream_request_carries_arguments_witness:
  "\<exists>hm extra path query qs. mutation_of (sm_headers (the (Reroute demo_reply))) = Some hm \<and>
     header_pairs (set_headers hm) = extra @
       [('':method'', to_upper (unicode demo_runtime) (Method demo_endpoint)),
        ('':path'', path @ (if qs = [] then [] else ''?'' @ query)), ('':authority'', Host demo_endpoint)] \<and>
     path = fill (path_values demo_endpoint demo_arguments) [Lit ''/pets/'', Hole ''id''] \<and>
     parse_query query = map Some qs \<and>
     map snd (filter (\<lambda>p. fst p = ''tag'') qs) = query_values demo_endpoint demo_arguments ''tag''"
proof -
  have forwarded: "Reroute (mcpRequestHandler demo_runtime demo_server demo_body demo_captured) =
      Some (the (Reroute demo_reply))"
    by (simp add: demo_forwarded demo_reply_def forward_call_def)
  have order: "mset (header_order demo_runtime hs) = mset hs" for hs by (simp add: demo_runtime_def)
  have request: "cp = \<lparr>cp_Name = ''get'', cp_Arguments = demo_arguments\<rparr>" "c = demo_config"
    if "DecodeMessage (rsdk demo_runtime) demo_body = Some (RequestMessage req)"
      "decode_call_params (rq_params req) = Some cp" "GetConfig (registry demo_server) (cp_Name cp) = Some c"
    for req cp c
    using that demo_only_config by (auto simp: demo_runtime_def demo_sdk_def demo_request_def demo_decode)
  have tool: "Endpoint demo_config = demo_endpoint" by (simp add: demo_config_def)
  from upstream_request_carries_arguments [OF demo_started order forwarded]
  obtain req cp c hm extra path query qs where *:
    "DecodeMessage (rsdk demo_runtime) demo_body = Some (RequestMessage req)"
    "decode_call_params (rq_params req) = Some cp" "GetConfig (registry demo_server) (cp_Name cp) = Some c"
    and hm: "mutation_of (sm_headers (the (Reroute demo_reply))) = Some hm"
    and pairs: "header_pairs (set_headers hm) = extra @
       [('':method'', to_upper (unicode demo_runtime) (Method (Endpoint c))),
        ('':path'', path @ (if qs = [] then [] else ''?'' @ query)), ('':authority'', Host (Endpoint c))]"
    and path: "\<forall>segs. template_ok (Endpoint c) (cp_Arguments cp) segs \<longrightarrow>
        path = fill (path_values (Endpoint c) (cp_Arguments cp)) segs"
    and query: "parse_query query = map Some qs"
      "\<forall>k. map snd (filter (\<lambda>p. fst p = k) qs) = query_values (Endpoint c) (cp_Arguments cp) k"
    by (elim exE conjE)
  have same: "Endpoint c = demo_endpoint" "cp_Arguments cp = demo_arguments"
    using request [OF *] by (simp_all add: tool)
  have "path = fill (path_values demo_endpoint demo_arguments) [Lit ''/pets/'', Hole ''id'']"
    using path demo_template_ok unfolding same by blast
  with hm pairs query show ?thesis unfolding same by blast
qed

text \<open>C13: Building the upstream request succeeds exactly when every declared parameter is fit: present if
  required, and a scalar (or for the query an array of scalars) if present. The query values and the
  headers of the result do not depend on the order in which the map of parameters is visited.\<close>

theorem endpoint_request_order_independent:
  assumes "distinct (map fst (Parameters e))" and "distinct (map fst ps)"
    and "set ps = set (Parameters e)"
  shows "((\<exists>r. newEndpointRequest e args = Inr r) \<longleftrightarrow> arguments_ok e args) \<and>
     (\<forall>r. newEndpointRequest e args = Inr r \<longrightarrow>
        (\<exists>r'. newEndpointRequest (e\<lparr>Parameters := ps\<rparr>) args = Inr r' \<and>
           values_of (queryParams r') = values_of (queryParams r) \<and>
           map_of (extraHeaders r') = map_of (extraHeaders r)))"
  using newEndpointRequest_ok_iff visit_order_irrelevant [OF assms] by blast

theorem endpoint_request_order_independent_witness:
  "\<exists>r'. newEndpointRequest (demo_endpoint\<lparr>Parameters := rev (Parameters demo_endpoint)\<rparr>) demo_arguments = Inr r' \<and>
     values_of (queryParams r') ''tag'' = [''a b'']"
proof -
  have "distinct (map fst (Parameters demo_endpoint))" by (simp add: demo_endpoint_def)
  then have "\<exists>r'. newEndpointRequest (demo_endpoint\<lparr>Parameters := rev (Parameters demo_endpoint)\<rparr>) demo_arguments = Inr r' \<and>
      values_of (queryParams r') = values_of (queryParams demo_endpoint_request)"
    using endpoint_request_order_independent [of demo_endpoint "rev (Parameters demo_endpoint)" demo_arguments]
      demo_new_request by (auto simp: rev_map [symmetric])
  moreover have "values_of (queryParams demo_endpoint_request) ''tag'' = [''a b'']"
    by (simp add: demo_endpoint_request_def values_of_def)
  ultimately show ?thesis by auto
qed

text \<open>C14: The path is the template with every placeholder of a declared path parameter replaced by the
  text of its argument, in whatever order the parameters are visited, provided no argument text contains
  an opening brace and the names are free of braces.\<close>

theorem path_template_filled:
  assumes "newEndpointRequest e args = Inr r" and "distinct (map fst (Parameters e))"
    and "template_ok e args segs"
  shows "rpath r = fill (path_values e args) segs"
  using assms by (rule newEndpointRequest_path)

theorem path_template_filled_witness:
  "rpath demo_endpoint_request = fill (path_values demo_endpoint demo_arguments) [Lit ''/pets/'', Hole ''id'']"
  by (rule path_template_filled [OF demo_new_request _ demo_template_ok]) (simp add: demo_endpoint_def)

text \<open>C15: How a JSON integer argument, written without fraction or exponent and below \<open>2 ^ 53\<close> in size,
  reaches a path, a query or a header: of at most six digits as the integer it is, of either sign; from a
  million on in exponent form, so \<open>12345678\<close> becomes \<open>1.2345678e+07\<close> and \<open>-5000000\<close> becomes \<open>-5e+06\<close>.\<close>

theorem integer_arguments_as_text:
  assumes "\<bar>i\<bar> < 2 ^ 53"
  shows "\<exists>v s. value_of_json (JNum (itoa i)) = Some v \<and> jsonScalarToString v = Some s \<and>
    (if \<bar>i\<bar> < 10 ^ 6 then s = itoa i else CHR ''e'' \<in> set s \<and> s \<noteq> itoa i)"
proof -
  obtain f where "parse_float (itoa i) = Some f"
    "if \<bar>i\<bar> < 10 ^ 6 then format_g f = itoa i else CHR ''e'' \<in> set (format_g f)"
    using format_g_int_text [OF assms] by blast
  then show ?thesis using itoa_no_exponent [of i]
    by (intro exI [of _ "VFloat f"] exI [of _ "format_g f"]) (auto split: if_splits)
qed

theorem integer_arguments_as_text_witness:
  "(\<exists>v s. value_of_json (JNum (itoa (- 5000000))) = Some v \<and> jsonScalarToString v = Some s \<and>
      CHR ''e'' \<in> set s) \<and>
   (\<exists>v. value_of_json (JNum (itoa (- 42))) = Some v \<and> jsonScalarToString v = Some (itoa (- 42)))"
  using integer_arguments_as_text [of "- 5000000"] integer_arguments_as_text [of "- 42"] by auto

section \<open>Eras, versions and statuses\<close>

text \<open>C16: The status of an answer in the legacy era, to which the two messages of the handshake belong
  whatever version they or the headers name, and every other request that names no modern version. The
  initialized notification is answered 202 and everything else 200, protocol errors included, unless it is
  forwarded and so gets its status from the response of the upstream.\<close>

theorem legacy_answers_are_success:
  assumes "DecodeMessage (rsdk rt) body = Some (RequestMessage req)"
    and "rq_method req \<in> {methodInitialize, methodNotificationsInitialized} \<or>
      (\<not> isModernVersion (metaProtocolVersion (rq_params req)) \<and> \<not> isModernVersion (protocolVersion hdrs))"
  shows "reply_status (mcpRequestHandler rt s body hdrs) =
     (if rq_method req = methodNotificationsInitialized then Some 202
      else if Reroute (mcpRequestHandler rt s body hdrs) = None then Some 200
      else None)"
proof -
  have "fst (resolveEra (serverInfo s) (rq_method req) (metaProtocolVersion (rq_params req))
      (protocolVersion hdrs)) = LegacyEra"
    using assms(2) resolveEra_legacy resolveEra_handshake by fastforce
  from legacy_status [OF this, of rt] show ?thesis
    using assms(1) by (simp add: mcpRequestHandler_def http_codes)
qed

theorem legacy_answers_are_success_witness:
  "reply_status (mcpRequestHandler demo_runtime demo_server demo_body demo_captured) = None"
proof -
  have "DecodeMessage (rsdk demo_runtime) demo_body = Some (RequestMessage (demo_request demo_body))"
    by (simp add: demo_runtime_def demo_sdk_def)
  moreover have "rq_method (demo_request demo_body) \<in> {methodInitialize, methodNotificationsInitialized} \<or>
      (\<not> isModernVersion (metaProtocolVersion (rq_params (demo_request demo_body))) \<and>
       \<not> isModernVersion (protocolVersion demo_captured))"
    by (simp add: demo_request_def demo_declared demo_captured_def isModernVersion_def version_defs)
  ultimately show ?thesis
    using legacy_answers_are_success [of demo_runtime demo_body "demo_request demo_body" demo_captured demo_server]
    by (simp add: demo_forwarded demo_reply_def demo_request_def method_defs)
qed

text \<open>C17: In the modern era the protocol errors have the statuses the revision asks for: an unsupported
  version 400, a method the era does not serve 404, headers that do not mirror the body 400.\<close>

theorem modern_refusals:
  assumes "DecodeMessage (rsdk rt) body = Some (RequestMessage req)"
    and "resolveEra (serverInfo s) (rq_method req) (metaProtocolVersion (rq_params req))
           (protocolVersion hdrs) = (ModernEra e, v, ok)"
  shows "reply_status (mcpRequestHandler rt s body hdrs) =
     (if \<not> ok then Some StatusBadRequest
      else if \<not> modern_serves (rq_method req) then Some StatusNotFound
      else if \<not> headers_mirror_body req (metaProtocolVersion (rq_params req)) hdrs then Some StatusBadRequest
      else reply_status (dispatch rt s (ModernEra e) req (paramHeaderNames hdrs)))"
  using assms
  by (auto simp: mcpRequestHandler_def handle_request_def modern_errorStatus_def rpc_codes
      validate_iff_mirror [symmetric, of _ _ _ "unicode rt"] split: option.split)

theorem modern_refusals_witness:
  "reply_status (mcpRequestHandler demo_runtime demo_server demo_modern_body
     (demo_modern_captured\<lparr>mh_method := ''tools/list''\<rparr>)) = Some StatusBadRequest"
proof -
  have dec: "DecodeMessage (rsdk demo_runtime) demo_modern_body = Some (RequestMessage (demo_request demo_modern_body))"
    by (simp add: demo_runtime_def demo_sdk_def)
  have era: "resolveEra (serverInfo demo_server) (rq_method (demo_request demo_modern_body))
      (metaProtocolVersion (rq_params (demo_request demo_modern_body)))
      (protocolVersion (demo_modern_captured\<lparr>mh_method := ''tools/list''\<rparr>)) =
    (ModernEra (serverInfo demo_server), v20260728, True)"
    by (simp add: demo_request_def demo_modern_declared resolveEra_def era_simps method_defs)
  from modern_refusals [OF dec era] show ?thesis
    by (simp add: headers_mirror_body_def demo_request_def demo_modern_captured_def method_defs modern_serves_def)
qed

text \<open>C18: The handshake never leaves the legacy era: whatever version the client asks for, even a modern one
  in the header or the body, \<open>initialize\<close> is answered in the legacy era with a version that is supported
  and legacy, and with the client's own version when that is such a version.\<close>

theorem initialize_negotiates_legacy:
  assumes "DecodeMessage (rsdk rt) body = Some (RequestMessage req)" and "rq_method req = methodInitialize"
    and "unmarshalInitialize (rsdk rt) (rq_params req) = Inr v"
  shows "mcpRequestHandler rt s body hdrs =
       resultResponse rt LegacyEra (rq_id req) (InitializeResult (Some (initialize_answer s v))) \<and>
     isSupportedVersion (in_ProtocolVersion (initialize_answer s v)) \<and>
     \<not> isModernVersion (in_ProtocolVersion (initialize_answer s v)) \<and>
     (isSupportedVersion v \<and> \<not> isModernVersion v \<longrightarrow> in_ProtocolVersion (initialize_answer s v) = v)"
  using assms negotiated_is_legacy [of v] negotiated_keeps [of v]
  by (simp add: mcpRequestHandler_def handle_request_def resolveEra_handshake legacy_serves_def
      legacy_validateHeaders_def dispatch_def handleInitialize_def initialize_answer_def)

theorem initialize_negotiates_legacy_witness:
  "in_ProtocolVersion (initialize_answer demo_server v20250618) = v20250618"
proof -
  let ?req = "\<lparr>rq_id = Some (IntId 1), rq_method = methodInitialize, rq_params = ''{}''\<rparr>"
  let ?rt = "demo_runtime\<lparr>rsdk := demo_sdk\<lparr>DecodeMessage := (\<lambda>body. Some (RequestMessage ?req))\<rparr>\<rparr>"
  have "DecodeMessage (rsdk ?rt) [] = Some (RequestMessage ?req)" by simp
  moreover have "rq_method ?req = methodInitialize" by simp
  moreover have "unmarshalInitialize (rsdk ?rt) (rq_params ?req) = Inr v20250618"
    by (simp add: demo_sdk_def v20250618_def)
  ultimately show ?thesis
    using initialize_negotiates_legacy [of ?rt "[]" ?req v20250618 demo_server demo_captured] era_simps
    by blast
qed

section \<open>The response handler\<close>

text \<open>C19: The result of a tool call. Its content is the upstream body as one text block, whatever the body
  is; the error flag is set exactly for an unknown status or one from 400 on; the body appears again as
  structured content exactly when the tool declares an output schema, the status is not an error and the
  body is JSON; the era adds its envelope members in front and changes none of these.\<close>

theorem tool_result_members:
  assumes "id_is_valid (jsonrpcID rc)" and "rc_toolResponseConfig rc = Some config"
    and "meta_members (rsdk rt) (stamp_of (protocolEra rc) no_meta) = Some ms"
    and "EncodeMessage (rsdk rt) (jsonrpcID rc)
       (RpcResult (json_object (ms @
         [(''content'', json_array
            [json_object [(''type'', json_quote ''text''), (''text'', json_quote body)]])] @
         (if UseStructuredOutput config \<and> \<not> isHTTPErrorStatus (upstreamStatusCode rc) \<and> json_valid body
          then [(''structuredContent'', compact False body)] else []) @
         (if isHTTPErrorStatus (upstreamStatusCode rc) then [(''isError'', ''true'')] else [])))) = Some buf'"
  shows "fst (buildMCPResponsePayload rt rc body) = buf'"
proof -
  let ?o = "tool_outcome config (upstreamStatusCode rc) body"
  have "encodeResult (rsdk rt) (protocolEra rc) (CallToolResult (Some ?o)) =
      Some (json_object (ms @ the (call_members ?o)))"
    using assms(3) by (simp add: era.call_result_members tool_outcome_members)
      (simp add: tool_outcome_def call_result_def)
  then show ?thesis
    using assms(4) buildMCPResponse_outcome [OF assms(1,2), of rt body]
    by (simp add: buildMCPResponsePayload_def tool_outcome_members)
qed

theorem tool_result_members_witness:
  "fst (buildMCPResponsePayload demo_runtime (demo_context 200) ''[1]'') =
   ''result '' @ json_object
     ([] @ [(''content'', json_array [json_object [(''type'', json_quote ''text''), (''text'', json_quote ''[1]'')]])] @
      [(''structuredContent'', compact False ''[1]'')] @ [])"
proof (rule tool_result_members [where config = "\<lparr>UseStructuredOutput = True\<rparr>" and ms = "[]"])
  have valid: "json_valid ''[1]''" by code_simp
  show "EncodeMessage (rsdk demo_runtime) (jsonrpcID (demo_context 200))
     (RpcResult (json_object ([] @
       [(''content'', json_array [json_object [(''type'', json_quote ''text''), (''text'', json_quote ''[1]'')]])] @
       (if UseStructuredOutput \<lparr>UseStructuredOutput = True\<rparr> \<and>
           \<not> isHTTPErrorStatus (upstreamStatusCode (demo_context 200)) \<and> json_valid ''[1]''
        then [(''structuredContent'', compact False ''[1]'')] else []) @
       (if isHTTPErrorStatus (upstreamStatusCode (demo_context 200)) then [(''isError'', ''true'')] else [])))) =
    Some (''result '' @ json_object
     ([] @ [(''content'', json_array [json_object [(''type'', json_quote ''text''), (''text'', json_quote ''[1]'')]])] @
      [(''structuredContent'', compact False ''[1]'')] @ []))"
    by (simp only: demo_encode_result demo_context_simps isHTTPErrorStatus_def valid tool_response_config.simps)
      simp
qed (simp_all add: meta_members_def no_meta_def)

text \<open>C20: The tool result reads back. Whatever bytes a result text holds, an upstream body or an error
  message, a client that parses the encoded legacy result gets one text block with exactly that text
  (invalid bytes replaced by U+FFFD) and the error flag, and no other member: no text can break out of
  its string or add to the envelope.\<close>

theorem tool_result_reads_back:
  "\<exists>mj. encodeResult S LegacyEra (CallToolResult (Some (call_result text [] isErr))) = Some mj \<and>
     parse_json mj = Some (JObj
       ((''content'', JArr [JObj [(''type'', JStr ''text''), (''text'', JStr (to_valid text))]]) #
        (if isErr then [(''isError'', JBool True)] else [])))"
  using result_reads [where S = S and e = LegacyEra and sj = None and structured = "[]" and msg = "text"
      and isErr = isErr]
  by (simp add: identity_reads_def era_members_def outcome_members_def)

text \<open>C21: The structured content is the upstream's data. When a tool with an output schema is called with
  success and the upstream answers with JSON (nested at most one level less deep than the parser allows), a
  client that parses the result finds that very JSON value as structured content and the text of the body
  beside it, in either era: compacting and escaping on the way change no value and move nothing into or
  out of it.\<close>

theorem structured_content_reads_back:
  assumes "id_is_valid (jsonrpcID rc)" and "rc_toolResponseConfig rc = Some config"
    and "UseStructuredOutput config" and "\<not> isHTTPErrorStatus (upstreamStatusCode rc)"
    and "parse_value (max_nesting_depth - 1) body = Some (v, r)" and "skip_ws r = []"
    and "identity_reads (rsdk rt) (protocolEra rc) impl"
  shows "\<exists>mj. parse_json mj = Some (JObj (era_members (protocolEra rc) impl @
        [(''content'', JArr [JObj [(''type'', JStr ''text''), (''text'', JStr (to_valid body))]]),
         (''structuredContent'', v)])) \<and>
     (\<forall>b. EncodeMessage (rsdk rt) (jsonrpcID rc) (RpcResult mj) = Some b \<longrightarrow>
        fst (buildMCPResponsePayload rt rc body) = b)"
proof -
  from structured_reads [OF assms(3-7)] obtain mj where
    mj: "encodeResult (rsdk rt) (protocolEra rc)
      (CallToolResult (Some (tool_outcome config (upstreamStatusCode rc) body))) = Some mj"
    "parse_json mj = Some (JObj (era_members (protocolEra rc) impl @ outcome_members body (Some v) False))"
    by blast
  have "fst (buildMCPResponsePayload rt rc body) = b"
    if "EncodeMessage (rsdk rt) (jsonrpcID rc) (RpcResult mj) = Some b" for b
    using buildMCPResponse_outcome [OF assms(1,2), of rt body] mj(1) that
    by (simp add: buildMCPResponsePayload_def Let_def)
  with mj(2) show ?thesis by (auto simp: outcome_members_def)
qed

theorem structured_content_reads_back_witness:
  "\<exists>mj. parse_json mj = Some (JObj
        [(''content'', JArr [JObj [(''type'', JStr ''text''), (''text'', JStr (to_valid '' [1 ] ''))]]),
         (''structuredContent'', JArr [JNum ''1''])]) \<and>
     fst (buildMCPResponsePayload demo_runtime (demo_context 200) '' [1 ] '') = ''result '' @ mj"
proof -
  have "parse_value (max_nesting_depth - 1) '' [1 ] '' = Some (JArr [JNum ''1''], '' '')" by code_simp
  from structured_content_reads_back [of "demo_context 200" "\<lparr>UseStructuredOutput = True\<rparr>", OF _ _ _ _ this,
      where rt = demo_runtime and impl = JNull]
  show ?thesis
    by (auto simp: isHTTPErrorStatus_def identity_reads_def era_members_def skip_ws_def is_ws_def
        demo_encode_result)
qed

text \<open>C22: An upstream response without a body becomes one message that replaces it and holds a tool result
  with no structured content: a client that parses it finds, in either era, the text that describes the
  status and the error flag for that status; status 200 towards the client, and content headers that
  belong to the new body.\<close>

theorem empty_upstream_response:
  assumes "id_is_valid (jsonrpcID rc)" and "rc_toolResponseConfig rc = Some config"
    and "identity_reads (rsdk rt) (protocolEra rc) impl"
  shows "\<exists>mj. parse_json mj = Some (JObj (era_members (protocolEra rc) impl @
        outcome_members (describeEmptyUpstreamResponse (upstreamStatusCode rc)) None
          (isHTTPErrorStatus (upstreamStatusCode rc)))) \<and>
     (\<forall>b. EncodeMessage (rsdk rt) (jsonrpcID rc) (RpcResult mj) = Some b \<longrightarrow>
        buildEndOfStreamResponse rt rc =
          newReplacedResponse
            (appendHeader (appendHeader [] ''content-type'' ''application/json'') ''content-length''
               (itoa (int (length b)))) b)"
proof -
  let ?msg = "describeEmptyUpstreamResponse (upstreamStatusCode rc)"
  have o': "tool_outcome config (upstreamStatusCode rc) ?msg =
      call_result ?msg [] (isHTTPErrorStatus (upstreamStatusCode rc))"
    by (simp add: tool_outcome_def describe_not_json)
  have "\<exists>mj. encodeResult (rsdk rt) (protocolEra rc)
        (CallToolResult (Some (call_result ?msg [] (isHTTPErrorStatus (upstreamStatusCode rc))))) = Some mj \<and>
      parse_json mj = Some (JObj (era_members (protocolEra rc) impl @
        outcome_members ?msg None (isHTTPErrorStatus (upstreamStatusCode rc))))"
    by (rule result_reads [OF assms(3)]) simp
  then obtain mj where mj: "encodeResult (rsdk rt) (protocolEra rc)
        (CallToolResult (Some (tool_outcome config (upstreamStatusCode rc) ?msg))) = Some mj"
    "parse_json mj = Some (JObj (era_members (protocolEra rc) impl @
        outcome_members ?msg None (isHTTPErrorStatus (upstreamStatusCode rc))))"
    unfolding o' by blast
  then show ?thesis
    using buildMCPResponse_outcome [OF assms(1,2), of rt ?msg]
    by (intro exI [of _ mj]) (simp add: buildEndOfStreamResponse_def buildMCPResponsePayload_def Let_def)
qed

theorem empty_upstream_response_witness:
  "\<exists>mj. parse_json mj = Some (JObj (outcome_members
        ''API returned HTTP 204 (No Content) with no response body.'' None False)) \<and>
     buildEndOfStreamResponse demo_runtime (demo_context 204) =
       newReplacedResponse
         (appendHeader (appendHeader [] ''content-type'' ''application/json'') ''content-length''
            (itoa (int (length (''result '' @ mj))))) (''result '' @ mj)"
proof -
  have "itoa 204 = ''204''" by code_simp
  then have "describeEmptyUpstreamResponse 204 = ''API returned HTTP 204 (No Content) with no response body.''"
    by (simp add: describeEmptyUpstreamResponse_def StatusText_def status_texts_def)
  then show ?thesis
    using empty_upstream_response [of "demo_context 204" "\<lparr>UseStructuredOutput = True\<rparr>" demo_runtime JNull]
    by (auto simp: isHTTPErrorStatus_def identity_reads_def era_members_def demo_encode_result)
qed

text \<open>C23: The first message of a translated response continues the response with the JSON content type and
  a content length in place of those of the upstream; the length reads back as the number of bytes a peer
  reassembles from the messages that follow.\<close>

theorem content_length_is_exact:
  assumes "int (length (sm_body (mcpResponseHandler rt body rc))) \<le> int64_max"
  shows "\<exists>cr hm len chunks b.
     frame (mcpResponseHandler rt body rc) responseFactory t = ResponseHeadersResponse cr # chunks \<and>
     cr_status cr = CONTINUE \<and> cr_headers cr = Some hm \<and>
     header_pairs (set_headers hm) = [(''content-type'', ''application/json''), (''content-length'', len)] \<and>
     remove_headers hm = [''content-length'', ''content-type''] \<and>
     reassemble [] chunks = Some (b, t, []) \<and> atoi len = Some (int (length b))"
proof -
  let ?m = "mcpResponseHandler rt body rc"
  obtain cr hm where hs: "sm_headers ?m = ResponseHeadersResponse cr" "cr_headers cr = Some hm"
    "cr_status cr = CONTINUE" "remove_headers hm = [''content-length'', ''content-type'']"
    and pairs: "header_pairs (set_headers hm) =
       [(''content-type'', ''application/json''), (''content-length'', itoa (int (length (sm_body ?m))))]"
    using response_mutation [of rt body rc] by blast
  have peer: "reassemble [] (tl (frame ?m responseFactory t)) = Some (sm_body ?m, t, [])"
    using resp.reassemble_frame [of ?m t "[]"] by simp
  have wire: "frame ?m responseFactory t = ResponseHeadersResponse cr # tl (frame ?m responseFactory t)"
    by (simp add: frame_def hs(1))
  have "int64_min \<le> int (length (sm_body ?m))" by (simp add: int64_min_def)
  then have "atoi (itoa (int (length (sm_body ?m)))) = Some (int (length (sm_body ?m)))"
    using assms by (rule atoi_itoa)
  with wire hs(2-4) pairs peer show ?thesis by blast
qed

theorem content_length_is_exact_witness:
  "\<exists>cr chunks b len. frame (mcpResponseHandler demo_runtime ''x'' no_context) responseFactory True =
     ResponseHeadersResponse cr # chunks \<and> reassemble [] chunks = Some (b, True, []) \<and>
     atoi len = Some (int (length b))"
proof -
  have "int (length (sm_body (mcpResponseHandler demo_runtime ''x'' no_context))) \<le> int64_max"
    by (simp add: mcpResponseHandler_def case_prod_beta no_context_payload int64_max_def)
  from content_length_is_exact [OF this, of True] show ?thesis by blast
qed

section \<open>Framing\<close>

text \<open>C24: Framing loses nothing. A peer that appends the chunks after the headers message until one carries
  end-of-stream or trailers come gets the body back, of a request and of a response alike, knows whether
  trailers ended it, and has consumed exactly the framed messages. All chunks but the last have exactly the
  chunk size, the last one has the rest and is no larger, and only the last one can carry end-of-stream,
  which it does unless trailers follow. An empty body is one empty chunk.\<close>

theorem frame_roundtrip:
  "reassemble [] (tl (frame m requestFactory t) @ ms) = Some (sm_body m, t, ms) \<and>
   reassemble [] (tl (frame m responseFactory t) @ ms) = Some (sm_body m, t, ms) \<and>
   (let b = sm_body m; full = (length b - 1) div streamChunkSize; rest = length b - full * streamChunkSize in
    chunk_sizes (frame_chunks requestFactory t b) = replicate full streamChunkSize @ [rest] \<and>
    chunk_flags (frame_chunks requestFactory t b) = replicate full False @ [\<not> t] \<and>
    rest \<le> streamChunkSize)"
proof -
  let ?b = "sm_body m"
  have "length ?b - (length ?b - 1) div streamChunkSize * streamChunkSize \<le> streamChunkSize"
    using div_mult_mod_eq [of "length ?b - 1" streamChunkSize]
      mod_less_divisor [OF streamChunkSize_pos, of "length ?b - 1"]
    by linarith
  then show ?thesis
    by (simp only: req.reassemble_frame resp.reassemble_frame req.sizes_frame_chunks req.flags_frame_chunks
        Let_def simp_thms)
qed

section \<open>Headers and hosts\<close>

text \<open>C25: The check of a request fails closed. With the allowlist built from the configuration, or from the
  local defaults when that is empty, it passes exactly if the request names a non-empty host whose
  normalised name some entry matches and, when it has an Origin, that parses to a non-empty hostname
  which some entry matches.\<close>

theorem request_check:
  "fst (checkHeaders U uh (newHostAllowlist U allowed) hs) \<longleftrightarrow>
     (let matched = (\<lambda>h. \<exists>e \<in> set (if allowed = [] then [''localhost'', ''127.0.0.1'', ''::1''] else allowed).
            host_matches U e h) in
      (\<exists>h. request_host hs = Some h \<and> h \<noteq> [] \<and> matched (normalizeHostname U h)) \<and>
      (findHeader hs ''origin'' = None \<or>
         (\<exists>o' u. findHeader hs ''origin'' = Some o' \<and> uh o' = Some u \<and> u \<noteq> [] \<and> matched (to_lower U u))))"
proof -
  have "fst (checkHeaders U uh a hs) \<longleftrightarrow>
     (\<exists>h. request_host hs = Some h \<and> h \<noteq> [] \<and> allows a (normalizeHostname U h)) \<and>
     (findHeader hs ''origin'' = None \<or>
        (\<exists>o' u. findHeader hs ''origin'' = Some o' \<and> uh o' = Some u \<and> u \<noteq> [] \<and> allows a (to_lower U u)))"
    for a
  proof (cases "findHeader hs ''origin''")
    case None
    then show ?thesis by (simp add: hp.check_iff)
  next
    case (Some r)
    then show ?thesis by (cases "uh r") (auto simp: hp.check_iff origin_hostname_def)
  qed
  then show ?thesis by (simp only: allows_iff_matches defaultAllowedHosts_def Let_def)
qed

text \<open>C26: What the allowlist built from the entries allows. A list allows what some entry of it allows. The
  star allows everything; a wildcard entry every subdomain at any depth and never the apex; a plain entry
  a request's host exactly if it is the same name, whatever the ports and the case of the ASCII letters of
  either. A wildcard with a space before it passes the configuration check but is no wildcard: it allows
  only its own text, so no subdomain.\<close>

theorem allowlist_entry_forms:
  assumes "list_all is_ascii d" and "plain_host h" and "CHR ''*'' \<notin> set h" and "plain_host g"
    and "list_all is_digit port" and "list_all is_digit rport"
  shows "(es \<noteq> [] \<longrightarrow> allows (newHostAllowlist U es) x = (\<exists>e \<in> set es. allows (newHostAllowlist U [e]) x)) \<and>
     allows (newHostAllowlist U [''*'']) x \<and>
     (allows (newHostAllowlist U [''*.'' @ d]) x \<longleftrightarrow> (\<exists>sub. x = sub @ ''.'' @ map ascii_lower d)) \<and>
     \<not> allows (newHostAllowlist U [''*.'' @ d]) (map ascii_lower d) \<and>
     (\<forall>e \<in> {h, h @ CHR '':'' # port}. \<forall>r \<in> {g, g @ CHR '':'' # rport}.
        allows (newHostAllowlist U [e]) (normalizeHostname U r) \<longleftrightarrow> map ascii_lower g = map ascii_lower h) \<and>
     (CHR ''/'' \<notin> set h \<longrightarrow>
        validAllowedHost (CHR '' '' # ''*.'' @ h) \<and>
        (allows (newHostAllowlist U [CHR '' '' # ''*.'' @ h]) x \<longleftrightarrow> x = ''*.'' @ map ascii_lower h))"
proof -
  have single: "allows (newHostAllowlist U [e]) y \<longleftrightarrow> host_matches U e y" for e y
    by (simp add: allows_iff_matches)
  have apex: "map ascii_lower d \<noteq> sub @ ''.'' @ map ascii_lower d" for sub
  proof
    assume "map ascii_lower d = sub @ ''.'' @ map ascii_lower d"
    then have "length (map ascii_lower d) = length (sub @ ''.'' @ map ascii_lower d)" by (rule arg_cong)
    then show False by simp
  qed
  have plain: "host_matches U e y \<longleftrightarrow> y = map ascii_lower h" if "e \<in> {h, h @ CHR '':'' # port}" for e y
    using that plain_matches [OF assms(2,3,5)] by blast
  have requested: "normalizeHostname U r = map ascii_lower g" if "r \<in> {g, g @ CHR '':'' # rport}" for r
    using that normalize_port [OF assms(4,6)] normalize_plain [OF assms(4)] by auto
  have "host_matches U ''*'' x" by (simp add: host_matches_def)
  moreover have "es \<noteq> [] \<longrightarrow> allows (newHostAllowlist U es) x = (\<exists>e \<in> set es. host_matches U e x)"
    by (simp add: allows_iff_matches)
  ultimately show ?thesis
    unfolding single using wildcard_matches [OF assms(1)] apex plain requested
      spaced_wildcard [OF assms(2,3)] by auto
qed

theorem allowlist_entry_forms_witness:
  "allows (newHostAllowlist demo_unicode [''*.'' @ ''a.b'']) (''x.y'' @ ''.'' @ map ascii_lower ''a.b'') \<and>
   allows (newHostAllowlist demo_unicode [''A.b'' @ CHR '':'' # ''80''])
     (normalizeHostname demo_unicode (''a.B'' @ CHR '':'' # ''8080''))"
proof -
  have "list_all is_ascii ''a.b''" "plain_host ''A.b''" "CHR ''*'' \<notin> set ''A.b''" "plain_host ''a.B''"
    "list_all is_digit ''80''" "list_all is_digit ''8080''"
    by (simp_all add: plain_host_def is_ascii_def is_space_def is_digit_def)
  note forms = allowlist_entry_forms [OF this, of "[]" demo_unicode "''x.y'' @ ''.'' @ map ascii_lower ''a.b''"]
  have "map ascii_lower ''a.B'' = map ascii_lower ''A.b''" by code_simp
  with forms show ?thesis by blast
qed

section \<open>The registry and the loader\<close>

text \<open>C27: Registering keeps the registry well formed, sorted by name without duplicates and with one
  configuration per tool, and succeeds exactly for a valid name that is not taken; then the tool and its
  configuration are there and all others are as before.\<close>

theorem register_correct:
  assumes "registry_inv r"
  shows "((\<exists>r'. Register r (Some t) (Some c) = Inr r') \<longleftrightarrow>
       validateToolName (Name t) = None \<and> GetConfig r (Name t) = None) \<and>
     (\<forall>r'. Register r (Some t) (Some c) = Inr r' \<longrightarrow>
       registry_inv r' \<and> set (Tools r') = insert t (set (Tools r)) \<and>
       GetConfig r' = (GetConfig r)(Name t \<mapsto> c))"
  using Register_Inr [OF assms] Register_inv [OF assms]
  by (auto simp: GetConfig_def Tools_def fun_eq_iff domIff)

theorem register_correct_witness:
  "\<exists>r'. Register newToolRegistry (Some demo_tool) (Some demo_config) = Inr r' \<and> registry_inv r'"
proof -
  have "validateToolName (Name demo_tool) = None" "GetConfig newToolRegistry (Name demo_tool) = None"
    using demo_name_ok by (simp_all add: demo_tool_def GetConfig_def newToolRegistry_def)
  then show ?thesis using register_correct [OF registry_inv_new, of demo_tool demo_config] by blast
qed

text \<open>C28: The allowlist filter keeps exactly the listed tools, in the same order and with the same
  configurations, and the registry well formed; it fails if the list is empty or names a tool that is not
  there, so a misspelt name is never silently dropped.\<close>

theorem allowlist_filter:
  assumes "registry_inv r"
  shows "((\<exists>r'. FilterByAllowlist r allowlist = Inr r') \<longleftrightarrow>
       allowlist \<noteq> [] \<and> (\<forall>n \<in> set allowlist. GetConfig r n \<noteq> None)) \<and>
     (\<forall>r'. FilterByAllowlist r allowlist = Inr r' \<longrightarrow>
       registry_inv r' \<and> Tools r' = filter (\<lambda>t. Name t \<in> set allowlist) (Tools r) \<and>
       GetConfig r' = (GetConfig r) |` set allowlist)"
  using filter_ok_iff [of r allowlist] filter_result [OF assms]
  by (auto simp: GetConfig_def Tools_def fun_eq_iff domIff subset_iff restrict_map_def)

theorem allowlist_filter_witness:
  "\<exists>r'. FilterByAllowlist demo_registry [''get''] = Inr r' \<and> registry_inv r'"
proof -
  have "GetConfig demo_registry ''get'' \<noteq> None" using demo_config_stored by (simp add: demo_server_def)
  then show ?thesis using allowlist_filter [OF demo_registry_inv, of "[''get'']"] by auto
qed

text \<open>C29: A server that starts has a well-formed, non-empty registry in which every tool agrees with its
  configuration: the declared parameters have distinct names, each with a place and a required flag and
  each a property of the input schema; every required name is a property; and structured output is on
  exactly for the tools that advertise an output schema.\<close>

theorem started_server_agrees:
  assumes "starts (RunServer U fa fuel os ctx (Some cfg)) s"
  shows "reg.all_stored agrees (registry s) \<and> Tools (registry s) \<noteq> []"
proof -
  from assms obtain rc loaded where load: "newToolRegistryFromConfig U fa fuel rc = Inr loaded"
    and filt: "(if ToolAllowlist rc \<noteq> [] then FilterByAllowlist loaded (ToolAllowlist rc) else Inr loaded) =
       Inr (registry s)"
    by (rule started_server)
  note l = newToolRegistryFromConfig_agrees [OF load]
  have "Tools (registry s) \<noteq> []"
  proof (cases "ToolAllowlist rc = []")
    case True
    with filt l show ?thesis by (simp add: Tools_def)
  next
    case False
    then have f: "FilterByAllowlist loaded (ToolAllowlist rc) = Inr (registry s)" using filt by simp
    have inv: "registry_inv loaded" using l by (simp add: reg.all_stored_def)
    have "hd (ToolAllowlist rc) \<in> dom (configs loaded)"
      using f False filter_ok_iff [of loaded "ToolAllowlist rc"] by (metis hd_in_set subset_iff)
    then obtain t where "t \<in> set (tools loaded)" "Name t = hd (ToolAllowlist rc)"
      using inv by (auto simp: registry_inv_def)
    with False have "t \<in> set (filter (\<lambda>t. Name t \<in> set (ToolAllowlist rc)) (tools loaded))" by simp
    then show ?thesis unfolding Tools_def filter_result(2) [OF inv f] by (metis empty_iff list.set(1))
  qed
  with started_agrees [OF assms] show ?thesis by blast
qed

theorem started_server_agrees_witness: "reg.all_stored agrees (registry demo_server)"
  using started_server_agrees [OF demo_started] by blast

text \<open>C30: Among the responses of an operation the schema of the lowest successful status is the output
  schema, whatever the order in which the map of responses is visited.\<close>

theorem output_schema_of_lowest_success:
  assumes "e \<in> set rs" and "success_entry e \<noteq> None"
  shows "\<exists>e' \<in> set rs. \<exists>code p. success_entry e' = Some (code, p) \<and>
           findJSONSchemaFromResponses (Some rs) = Some p \<and>
           (\<forall>e'' \<in> set rs. \<forall>code' p'. success_entry e'' = Some (code', p') \<longrightarrow> code \<le> code')"
  using assms by (rule lowest_success_chosen)

theorem output_schema_of_lowest_success_witness:
  "\<exists>p. findJSONSchemaFromResponses
     (Some [(''201'', Some [(''application/json'', Some \<lparr>mt_Schema = Some (Some 7)\<rparr>)])]) = Some p"
proof -
  have "success_entry (''201'', Some [(''application/json'', Some \<lparr>mt_Schema = Some (Some 7)\<rparr>)]) \<noteq> None"
    by code_simp
  from output_schema_of_lowest_success [OF _ this] show ?thesis by (meson list.set_intros(1))
qed

text \<open>C31: The translation of a schema returns, for some fuel, exactly when every chain of pointers from it
  ends; without fuel it can only run out of fuel. So on a recursive schema the recursion of the loader
  does not return.\<close>

theorem schema_translation_returns_iff:
  "((\<exists>fuel m. openApiSchemaToMap fuel S p = Inr m) \<longleftrightarrow> finite_height S p) \<and>
   openApiSchemaToMap fuel S p \<in> range Inr \<union> {Inl OutOfFuel}"
proof -
  have "openApiSchemaToMap fuel S p \<in> range Inr \<union> {Inl OutOfFuel}"
    by (cases "openApiSchemaToMap fuel S p") (auto dest: translate_error)
  then show ?thesis by (simp only: translate_returns_iff simp_thms)
qed

section \<open>Start-up and telemetry\<close>

text \<open>C32: What a start does to its surroundings, in order. Without a context, or with a configuration, a
  document or an allowlist that is refused, nothing happens at all: no socket is removed or opened.
  Otherwise the configuration was valid, at most the old socket file is removed, and either the socket
  cannot be had and no server is ever registered, or exactly the configured server is registered on the
  listening socket before serving begins, and the listener is closed at the end.\<close>

theorem run_server_effects:
  "(ctx = None \<longrightarrow> RunServer U fa fuel os ctx cfgp = ([], Some ContextMissing)) \<and>
   (\<forall>e. ctx \<noteq> None \<and> configured_server U fa fuel cfgp = Inl e \<longrightarrow>
      RunServer U fa fuel os ctx cfgp = ([], Some e)) \<and>
   (\<forall>path s. ctx \<noteq> None \<and> configured_server U fa fuel cfgp = Inr (path, s) \<longrightarrow>
      (\<exists>cfg. cfgp = Some cfg \<and> validate cfg = None \<and> path = SocketPath cfg) \<and>
      (\<exists>cleared. set cleared \<subseteq> {RemovedFile path} \<and>
         ((\<exists>err. RunServer U fa fuel os ctx cfgp = (cleared, Some (SocketError err))) \<or>
          RunServer U fa fuel os ctx cfgp =
            (cleared @ [Listening path, Registered s, Serving, ListenerClosed],
             map_option ServeFailed (serve_grpc os s)))))"
proof (intro conjI allI impI)
  show "RunServer U fa fuel os ctx cfgp = ([], Some ContextMissing)" if "ctx = None"
    using that by (simp add: RunServer_def)
  show "RunServer U fa fuel os ctx cfgp = ([], Some e)"
    if "ctx \<noteq> None \<and> configured_server U fa fuel cfgp = Inl e" for e
    using that by (simp add: RunServer_def)
  fix path s assume ok: "ctx \<noteq> None \<and> configured_server U fa fuel cfgp = Inr (path, s)"
  then show "\<exists>cfg. cfgp = Some cfg \<and> validate cfg = None \<and> path = SocketPath cfg"
    by (auto simp: configured_server_def split: option.splits sum.splits if_splits)
  from ok have "RunServer U fa fuel os ctx cfgp = serve_on_socket os path s" by (auto simp: RunServer_def)
  then show "\<exists>cleared. set cleared \<subseteq> {RemovedFile path} \<and>
         ((\<exists>err. RunServer U fa fuel os ctx cfgp = (cleared, Some (SocketError err))) \<or>
          RunServer U fa fuel os ctx cfgp =
            (cleared @ [Listening path, Registered s, Serving, ListenerClosed],
             map_option ServeFailed (serve_grpc os s)))"
    using serve_on_socket_cases [of os path s] by auto
qed

theorem run_server_effects_witness:
  "\<exists>cfg. Some demo_server_config = Some cfg \<and> validate cfg = None \<and> ''/tmp/s'' = SocketPath cfg"
proof -
  have "Some () \<noteq> None \<and>
      configured_server demo_unicode demo_files 2 (Some demo_server_config) = Inr (''/tmp/s'', demo_server)"
    by (simp add: demo_configured)
  from run_server_effects [where U = demo_unicode and fa = demo_files and fuel = 2 and os = demo_socket
      and ctx = "Some ()" and cfgp = "Some demo_server_config", THEN conjunct2, THEN conjunct2, rule_format, OF this] show ?thesis by blast
qed

text \<open>C33: What a stream leaves in the trace. The log of the loop with its spans and its clock has the replies
  and the outcome of \<open>Process\<close>. While the loop runs there is no span of \<open>Process\<close> in it; once it has
  returned, that span is the last entry, it has an error exactly if an error was returned, and then the
  recorded error and the status of the span agree with the gRPC status that Envoy gets. Every other span is
  one of the four phases, and the span of a body is dated at a headers message of its own
  direction that announced a body.\<close>

theorem stream_log_truthful:
  "case traced_Process X rt s send es of (log, res) \<Rightarrow>
     Process rt s send (map snd es) = (replies_of log, res) \<and>
     (case res of
        Blocked \<Rightarrow> list_all (phase_span (set es)) (spans_of log)
      | Returned r \<Rightarrow> \<exists>log' sp. log = log' @ [Ended sp] \<and> list_all (phase_span (set es)) (spans_of log') \<and>
          span_name sp = ''ext_proc.Process'' \<and> span_kind sp = SpanKindServer \<and>
          (case r of
             None \<Rightarrow> span_ops sp = []
           | Some err \<Rightarrow> \<exists>e msg. span_ops sp = [RecordError e, SetStatus msg] \<and>
               (process_status X err = (Unknown, msg @ '': '' @ e) \<or>
                (\<exists>d. process_status X err = (FailedPrecondition, d) \<and>
                   e = statusText X FailedPrecondition d \<and> msg = e))))"
proof -
  obtain log res where t: "traced_Process X rt s send es = (log, res)" by fastforce
  then have loop: "traced_loop X rt send (initial s, 0) [] es = (log, res)" by (simp add: traced_Process_def)
  have replies: "Process rt s send (map snd es) = (replies_of log, res)"
    using traced_loop_replies [of rt send "(initial s, 0)" "[]" es X] loop by (simp add: Process_def)
  have "dated (set es) (initial s, 0)" by (simp add: initial_def)
  from traced_loop_spans [OF this order_refl, of "[]" X rt send] loop
  have spans: "case res of
        Blocked \<Rightarrow> list_all (phase_span (set es)) (spans_of log)
      | Returned r \<Rightarrow> \<exists>log' ops. log = log' @ [Ended (process_span ops)] \<and>
          list_all (phase_span (set es)) (spans_of log') \<and> return_ops X r ops"
    by simp
  have verdict: "case r of
        None \<Rightarrow> span_ops (process_span ops) = []
      | Some err \<Rightarrow> \<exists>e msg. span_ops (process_span ops) = [RecordError e, SetStatus msg] \<and>
          (process_status X err = (Unknown, msg @ '': '' @ e) \<or>
           (\<exists>d. process_status X err = (FailedPrecondition, d) \<and>
              e = statusText X FailedPrecondition d \<and> msg = e))"
    if "return_ops X r ops" for r ops
    using that by (auto simp: process_span_def return_ops_def process_status_def split: option.splits process_error.splits)
  show ?thesis
  proof (cases res)
    case Blocked
    then show ?thesis using t replies spans by simp
  next
    case (Returned r)
    with spans obtain log' ops where log': "log = log' @ [Ended (process_span ops)]"
      "list_all (phase_span (set es)) (spans_of log')" "return_ops X r ops" by auto
    show ?thesis unfolding t prod.case replies Returned outcome.case
    proof (intro conjI refl exI [of _ log'] exI [of _ "process_span ops"])
      show "span_name (process_span ops) = ''ext_proc.Process''" "span_kind (process_span ops) = SpanKindServer"
        by (simp_all add: process_span_def)
    qed (rule log' verdict [OF log'(3)])+
  qed
qed

text \<open>C34: The span of a request tells the truth about its reply. It has an error status exactly for a JSON-RPC
  error, once and with the message the client gets; without one the call is forwarded, the notification
  acknowledged or an encoded result returned. And whatever a client sends, the method and version labels
  come from a fixed finite set.\<close>

theorem request_span_truthful:
  "(case statuses (fst (traced_mcpRequestHandler X rt s body hdrs)) of
      [] \<Rightarrow> success rt (mcpRequestHandler rt s body hdrs)
    | [m] \<Rightarrow> refusal rt m (mcpRequestHandler rt s body hdrs)
    | _ \<Rightarrow> False) \<and>
   set (attr_values (CustomKey attrMCPMethod) (fst (traced_mcpRequestHandler X rt s body hdrs))) \<subseteq>
     StringValue ` {''initialize'', ''notifications/initialized'', ''tools/list'', ''tools/call'',
       ''server/discover'', ''unknown''} \<and>
   set (attr_values (CustomKey attrMCPProtocolVersion) (fst (traced_mcpRequestHandler X rt s body hdrs))) \<subseteq>
     StringValue ` {''2026-07-28'', ''2025-11-25'', ''2025-06-18'', ''unsupported''}"
proof -
  have labels: "method_labels = {''initialize'', ''notifications/initialized'', ''tools/list'', ''tools/call'',
       ''server/discover'', ''unknown''}"
    "version_labels = {''2026-07-28'', ''2025-11-25'', ''2025-06-18'', ''unsupported''}"
    by (auto simp: method_labels_def method_defs version_labels_def version_defs)
  show ?thesis
    using sound_requests(3) [of rt X s body hdrs] attr_values_request [of X rt s body hdrs]
    unfolding sound_trace_def traced_requests(3) labels by blast
qed

text \<open>C35: The spans of a forwarded call. However both bodies are cut into messages, the stream ends exactly
  four spans, one per phase and in order. The span of a body is dated at the headers message that began
  its buffering, not at its end. None has an error status, unless the result cannot be encoded, and the
  last one says whether the result is a tool error, with a reason exactly then.\<close>

theorem forwarded_call_spans:
  assumes "post_allowed hs" and "host_allowed rt (server strm) hs"
    and "p = mcpRequestHandler rt (server strm) (body_of bs lst) (captureMCPRequestHeaders (unicode rt) hs)"
    and "forwarded p" and "id_is_valid (Id p)"
    and "rc = with_upstream_status (request_context_of p) hs'"
    and "map snd qs = request_body bs lst" and "map snd ps = response_body bs' lst'"
  shows "\<exists>c os. feed (traced_handle X rt) ((strm, AwaitingRequestHeaders), t)
       ((tq, RequestHeaders hs False) # qs @ (tr, ResponseHeaders hs' False) # ps) = Inr (c, os) \<and>
     map span_outline (spans_of os) =
       [(''ext_proc.request_headers'', None, []), (''ext_proc.request_body'', Some tq, []),
        (''ext_proc.response_headers'', None, []),
        (''ext_proc.response_body'', Some tr,
         if buildMCPResponse rt rc (body_of bs' lst') (httpStatusToErrorInfo (upstreamStatusCode rc)) = None
         then [''failed to build MCP response''] else [])] \<and>
     attr_values (CustomKey attrToolIsError) (span_ops (last (spans_of os))) =
       [BoolValue (isHTTPErrorStatus (upstreamStatusCode rc))] \<and>
     (attr_values (CustomKey attrToolErrorReason) (span_ops (last (spans_of os))) = [] \<longleftrightarrow>
        \<not> isHTTPErrorStatus (upstreamStatusCode rc))"
proof -
  have "isToolCall rc"
    using assms(4,5,6)
    by (auto simp: forwarded_def isToolCall_def request_context_of_def with_upstream_status_def
        split: option.split)
  note attrs = traced_payload_tool_call [OF this, of X rt "body_of bs' lst'"]
  show ?thesis
    using tool_call_spans [OF assms, of X t tq tr] attrs
    by (auto simp: response_span httpStatusToErrorInfo_def)
qed

theorem forwarded_call_spans_witness:
  "\<exists>c os. feed (traced_handle demo_texts demo_runtime) (initial demo_server, 0)
       ((3, RequestHeaders demo_headers False) # [(4, RequestBody demo_body True)] @
        (7, ResponseHeaders [header_of '':status'' ''200''] False) # [(9, ResponseBody ''[1]'' True)]) = Inr (c, os) \<and>
     map span_timestamp (spans_of os) = [None, Some 3, None, Some 7]"
proof -
  have p: "demo_reply = mcpRequestHandler demo_runtime (server \<lparr>server = demo_server, buf = []\<rparr>)
      (body_of [] (Some demo_body)) (captureMCPRequestHeaders (unicode demo_runtime) demo_headers)"
    by (simp add: body_of_def demo_capture demo_forwarded)
  have f: "forwarded demo_reply" "id_is_valid (Id demo_reply)"
    by (simp_all add: demo_reply_def forward_call_def forwarded_def id_is_valid_def)
  have "host_allowed demo_runtime (server \<lparr>server = demo_server, buf = []\<rparr>) demo_headers"
    using demo_start(2) by simp
  from forwarded_call_spans [OF demo_start(1) this p f refl,
      where qs = "[(4, RequestBody demo_body True)]" and ps = "[(9, ResponseBody ''[1]'' True)]"
        and bs' = "[]" and lst' = "Some ''[1]''" and hs' = "[header_of '':status'' ''200'']"
        and X = demo_texts and t = 0 and tq = 3 and tr = 7]
  obtain c os where r: "feed (traced_handle demo_texts demo_runtime) (initial demo_server, 0)
       ((3, RequestHeaders demo_headers False) # [(4, RequestBody demo_body True)] @
        (7, ResponseHeaders [header_of '':status'' ''200''] False) # [(9, ResponseBody ''[1]'' True)]) = Inr (c, os)"
    and o': "map (fst \<circ> snd) (map span_outline (spans_of os)) = [None, Some 3, None, Some 7]"
    by (auto simp: request_body_def response_body_def initial_def)
  from o' have "map span_timestamp (spans_of os) = [None, Some 3, None, Some 7]"
    by (simp only: map_map o_def span_outline_def fst_conv snd_conv)
  then show ?thesis using r by (intro exI conjI)
qed

text \<open>C36: Setting up the logger. If it fails, the logger, tracer and propagator in use stay as they were. If
  it succeeds, the level was understood and the new logger sends an entry to standard output and to
  OpenTelemetry from that level on, standard output only below error; standard error gets the entries
  from error on whatever the level says.\<close>

theorem init_logger_routes:
  assumes "zap_documented L"
  shows "(\<forall>err g'. InitLogger U L cfg g = (Some err, g') \<longrightarrow>
       global_logger g' = global_logger g \<and> global_tracer_provider g' = global_tracer_provider g \<and>
       global_propagator g' = global_propagator g) \<and>
     (\<forall>g'. InitLogger U L cfg g = (None, g') \<longrightarrow>
       (\<exists>lvl lg. ParseLevel L (LogLevel cfg) = Inr lvl \<and> global_logger g' = Some lg \<and>
          (\<forall>l. (Stdout \<in> reaches L (lg_core lg) l \<longleftrightarrow> lvl \<le> l \<and> l < ErrorLevel) \<and>
               (Stderr \<in> reaches L (lg_core lg) l \<longleftrightarrow> ErrorLevel \<le> l) \<and>
               (Otel \<in> reaches L (lg_core lg) l \<longleftrightarrow> lvl \<le> l))))"
proof (cases rule: InitLogger_cases [of U L cfg g])
  case (failed err hs)
  then show ?thesis by simp
next
  case (installed lvl c h)
  note r = createLoggerCore_reaches [OF assms installed(2)]
  show ?thesis
    using installed(1) by (auto simp: installed(3) CreateNewLoggerFromCore_def r split: if_splits)
qed

theorem init_logger_routes_witness:
  "\<exists>lg. global_logger (snd (InitLogger demo_unicode demo_lib demo_telemetry demo_globals)) = Some lg \<and>
     Stderr \<in> reaches demo_lib (lg_core lg) ErrorLevel \<and> Otel \<notin> reaches demo_lib (lg_core lg) ErrorLevel"
proof -
  obtain g' where g': "InitLogger demo_unicode demo_lib demo_telemetry demo_globals = (None, g')"
    using demo_init by (cases "InitLogger demo_unicode demo_lib demo_telemetry demo_globals") auto
  have lvl: "ParseLevel demo_lib (LogLevel demo_telemetry) = Inr FatalLevel"
    by (simp add: demo_lib_def demo_telemetry_def)
  have "\<not> FatalLevel \<le> ErrorLevel" by (simp add: less_eq_level_def)
  then show ?thesis
    using init_logger_routes [OF demo_zap, of demo_unicode demo_telemetry demo_globals] g' lvl by auto
qed

section \<open>Many streams and the shutdown\<close>

text \<open>C37: Streams do not interfere. In any interleaving of any number of streams with each other, with the
  cancellation and with the shutdown, and whatever gRPC does, the server value that all streams share stays
  as it was, and each opened stream has sent and returned exactly what \<open>Process\<close> alone would have for the
  messages of that stream; so a stream of complete exchanges has sent the answers of the specification.\<close>

theorem streams_do_not_interfere:
  assumes "history rt send grpc s tr n" and "OpenStream i \<in> set tr"
  shows "shared n = s \<and>
     (\<exists>g. goroutines n i = Some g \<and> progress g = Process rt s (send i) (received i tr) \<and>
        (\<forall>xs. (\<forall>sent rep. send i sent rep = None) \<and> list_all (completes rt s) xs \<and>
           received i tr = map Received (concat (map wire xs)) @ [StreamClosed] \<longrightarrow>
           progress g = (concat (map (answer rt s) xs), Returned None)))"
proof -
  have "shared n = s" using history_isolated [OF assms(1)] by (simp add: isolated_def)
  moreover obtain g where "goroutines n i = Some g" "progress g = Process rt s (send i) (received i tr)"
    using assms by (rule history_stream)
  ultimately show ?thesis using process_refines [of "send i" rt s] by auto
qed

theorem streams_do_not_interfere_witness:
  "Process demo_runtime demo_server (\<lambda>sent rep. None)
     [Received (RequestHeaders [] True), StreamClosed] = (forbiddenResponse, Returned None) \<and>
   answer demo_runtime demo_server (Bodiless []) = forbiddenResponse"
proof -
  have opened: "OpenStream 0 \<in> set (demo_run_start @ demo_run_end)" by (simp add: demo_run_start_def)
  have whole: "(\<forall>(sent :: processing_response list) (rep :: processing_response). (None :: string option) = None) \<and>
      list_all (completes demo_runtime demo_server) [Bodiless []] \<and>
      received 0 (demo_run_start @ demo_run_end) =
        map Received (concat (map wire [Bodiless []])) @ [StreamClosed]"
    by (simp add: demo_run_start_def demo_run_end_def)
  obtain g where g: "goroutines (demo_running (Finished forbiddenResponse None) WatcherFinished
        (ServeReturned None) True) 0 = Some g"
    "progress g = Process demo_runtime demo_server (\<lambda>sent rep. None) (received 0 (demo_run_start @ demo_run_end))"
    "progress g = (concat (map (answer demo_runtime demo_server) [Bodiless []]), Returned None)"
    using streams_do_not_interfere [OF demo_history opened] whole by blast
  moreover from g(1) have "g = Finished forbiddenResponse None" by (simp add: demo_running_def)
  ultimately show ?thesis by (simp add: demo_run_start_def demo_run_end_def)
qed

text \<open>C38: The shutdown, with a gRPC that behaves as documented. It is only stopped after the context was
  cancelled. Once \<open>GracefulStop\<close> has returned, every stream that was ever opened has returned from
  \<open>Process\<close>. And \<open>RunServer\<close> returns without an error only if its context was cancelled.\<close>

theorem shutdown_is_graceful:
  assumes "grpc_documented grpc" and "history rt send grpc s tr n"
  shows "(\<forall>us vs. tr = us @ CallGracefulStop # vs \<longrightarrow> CancelContext \<in> set us) \<and>
     (GracefulStopReturns \<in> set tr \<longrightarrow>
        (\<forall>i. OpenStream i \<in> set tr \<longrightarrow>
           (\<exists>r. snd (Process rt s (send i) (received i tr)) = Returned r))) \<and>
     (\<forall>path. configured_server U fa fuel cfgp = Inr (path, s) \<and>
        snd (RunServer U fa fuel os (Some ()) cfgp) = None \<and>
        serve_at n = ServeReturned (serve_grpc os s) \<longrightarrow> CancelContext \<in> set tr)"
proof (intro conjI allI impI)
  show "CancelContext \<in> set us" if "tr = us @ CallGracefulStop # vs" for us vs
    using assms(2) stop_after_cancel unfolding that by blast
  show "\<exists>r. snd (Process rt s (send i) (received i tr)) = Returned r"
    if "GracefulStopReturns \<in> set tr" and "OpenStream i \<in> set tr" for i
  proof -
    obtain g where g: "goroutines n i = Some g" "progress g = Process rt s (send i) (received i tr)"
      using assms(2) \<open>OpenStream i \<in> set tr\<close> by (rule history_stream)
    have "\<not> running_stream n i"
      using stopped_drained [OF assms] watcher_history [OF assms(2)] that(1) by blast
    with g show ?thesis by (cases g) (auto simp: running_stream_def simp flip: g(2))
  qed
  show "CancelContext \<in> set tr"
    if run: "configured_server U fa fuel cfgp = Inr (path, s) \<and>
        snd (RunServer U fa fuel os (Some ()) cfgp) = None \<and>
        serve_at n = ServeReturned (serve_grpc os s)" for path
  proof -
    have "serve_grpc os s = None"
      using run serve_on_socket_cases [of os path s] by (auto simp: RunServer_def)
    then have "CallGracefulStop \<in> set tr" using served_without_error [OF assms] run by simp
    then obtain us vs where "tr = us @ CallGracefulStop # vs" by (auto simp: in_set_conv_decomp)
    with assms(2) stop_after_cancel show ?thesis by fastforce
  qed
qed

theorem shutdown_is_graceful_witness:
  "(\<exists>r. snd (Process demo_runtime demo_server (\<lambda>sent rep. None)
      (received 1 (demo_run_start @ demo_run_end))) = Returned r) \<and>
   CancelContext \<in> set (demo_run_start @ demo_run_end)"
proof -
  have ev: "GracefulStopReturns \<in> set (demo_run_start @ demo_run_end)"
    "OpenStream 1 \<in> set (demo_run_start @ demo_run_end)"
    by (simp_all add: demo_run_start_def demo_run_end_def)
  have run: "configured_server demo_unicode demo_files 2 (Some demo_server_config) = Inr (''/tmp/s'', demo_server) \<and>
      snd (RunServer demo_unicode demo_files 2 demo_socket (Some ()) (Some demo_server_config)) = None \<and>
      serve_at (demo_running (Finished forbiddenResponse None) WatcherFinished (ServeReturned None) True) =
        ServeReturned (serve_grpc demo_socket demo_server)"
    by (simp add: demo_configured demo_run demo_running_def) (simp add: demo_socket_def)
  note graceful = shutdown_is_graceful [OF documented_self demo_history, where U = demo_unicode
      and fa = demo_files and fuel = 2 and os = demo_socket and cfgp = "Some demo_server_config"]
  show ?thesis
    using graceful [THEN conjunct2, THEN conjunct1, rule_format, OF ev]
      graceful [THEN conjunct2, THEN conjunct2, rule_format, OF run] by blast
qed

text \<open>C39: The shutdown cannot get stuck. From any state that a serving server can reach, whatever its streams
  are doing, there is a continuation in which the watcher ends and \<open>Serve\<close> returns without an error; it
  opens no stream, and Envoy need only close the streams that still run.\<close>

theorem server_can_stop:
  assumes "history rt send documented s tr n" and "serve_at n = InServe"
  shows "\<exists>vs n'. history rt send documented s (tr @ vs) n' \<and>
     watcher n' = WatcherFinished \<and> serve_at n' = ServeReturned None \<and>
     (\<forall>i e. Receive i e \<in> set vs \<longrightarrow> e = StreamClosed \<and> running_stream n i) \<and>
     (\<forall>i. OpenStream i \<notin> set vs)"
proof -
  obtain js n' where js: "set js = {i. running_stream n i}"
    and hist: "history rt send documented s
       (tr @ stopping_calls (watcher n) @ closing js @ resting_calls (watcher n)) n'"
    and rest: "watcher n' = WatcherFinished" "serve_at n' = ServeReturned None"
    using assms by (rule can_rest)
  show ?thesis
  proof (intro exI conjI)
    show "history rt send documented s
       (tr @ stopping_calls (watcher n) @ closing js @ resting_calls (watcher n)) n'" by (rule hist)
  qed (use js rest in \<open>auto simp: stopping_calls_def closing_def resting_calls_def split: if_splits\<close>)
qed

theorem server_can_stop_witness:
  "\<exists>vs n'. history demo_runtime (\<lambda>i sent rep. None) documented demo_server (demo_run_start @ vs) n' \<and>
     watcher n' = WatcherFinished"
proof -
  have "serve_at (demo_running (InLoop [] AwaitingRequestHeaders forbiddenResponse) AwaitingCancel InServe False) = InServe"
    by (simp add: demo_running_def)
  from server_can_stop [OF demo_history_start this] show ?thesis by blast
qed

section \<open>Where the state machine is stricter than the traffic\<close>

text \<open>C40: Two kinds of traffic end the stream although no peer did anything wrong. A \<open>tools/call\<close> without an
  identifier, a JSON-RPC notification, is forwarded to the upstream like any call, but whatever follows is a
  protocol violation. A request refused for its method is answered at once with 405 and the stream goes back
  to waiting for headers, so that the first chunk of its body is a violation; a request refused for its host
  is drained for that reason.\<close>

theorem strict_phases:
  "(\<forall>hs bs lst p m. post_allowed hs \<and> host_allowed rt (server strm) hs \<and>
      p = mcpRequestHandler rt (server strm) (body_of bs lst) (captureMCPRequestHeaders (unicode rt) hs) \<and>
      Reroute p = Some m \<and> Id p = None \<longrightarrow>
      feed (handle rt) (strm, AwaitingRequestHeaders) (RequestHeaders hs False # request_body bs lst) =
        Inr ((strm\<lparr>buf := body_of bs lst\<rparr>, AwaitingResponseHeaders (request_context_of p)),
             frame m requestFactory (lst = None)) \<and>
      (\<forall>req. \<not> accepts (AwaitingResponseHeaders (request_context_of p)) req)) \<and>
   (\<forall>hs b eos. \<not> post_allowed hs \<longrightarrow>
      handle rt (strm, AwaitingRequestHeaders) (RequestHeaders hs False) =
        Inr ((strm, AwaitingRequestHeaders), methodNotAllowedResponse) \<and>
      feed (handle rt) (strm, AwaitingRequestHeaders) [RequestHeaders hs False, RequestBody b eos] =
        Inl (ProtocolViolation ''RequestHeaders'' (RequestBody b eos)))"
  using notification_call_blocks [of _ rt strm] refused_method_blocks [of _ rt strm] by blast

theorem strict_phases_witness:
  "(\<exists>p. (\<exists>m. Reroute p = Some m) \<and> (\<forall>req. \<not> accepts (AwaitingResponseHeaders (request_context_of p)) req)) \<and>
   feed (handle demo_runtime) (demo_stream, AwaitingRequestHeaders)
     [RequestHeaders [header_of '':method'' ''PUT''] False, RequestBody ''x'' True] =
   Inl (ProtocolViolation ''RequestHeaders'' (RequestBody ''x'' True))"
proof -
  let ?req = "(demo_request demo_body)\<lparr>rq_id := None\<rparr>"
  let ?rt = "demo_runtime\<lparr>rsdk := demo_sdk\<lparr>DecodeMessage := (\<lambda>body. Some (RequestMessage ?req))\<rparr>\<rparr>"
  let ?p = "forward_call ?rt LegacyEra None demo_config demo_endpoint_request [] []"
  have call: "call_of ?rt demo_server (rq_params ?req) = Some (demo_config, demo_endpoint_request, [])"
    by (simp add: call_of_def demo_request_def demo_decode demo_config_stored demo_new_request demo_config_def
        marshalRequestBody_def) code_simp
  have adm: "admitted ?rt demo_server ?req demo_captured LegacyEra"
    using demo_admitted by (simp add: admitted_def demo_request_def legacy_validateHeaders_def Let_def)
  have "mcpRequestHandler ?rt demo_server (body_of [] (Some demo_body)) demo_captured =
      forward_call ?rt LegacyEra (rq_id ?req) demo_config demo_endpoint_request [] (paramHeaderNames demo_captured)"
    by (rule mcpRequestHandler_forward [OF _ _ adm call]) (simp_all add: demo_request_def)
  then have p: "?p = mcpRequestHandler ?rt (server demo_stream) (body_of [] (Some demo_body))
      (captureMCPRequestHeaders (unicode ?rt) demo_headers)"
    using demo_capture by (simp add: demo_captured_def)
  have "host_allowed ?rt (server demo_stream) demo_headers"
    using demo_start(2) by (simp add: host_allowed_def)
  moreover obtain m where "Reroute ?p = Some m" "Id ?p = None" by (simp add: forward_call_def)
  ultimately have "\<forall>req. \<not> accepts (AwaitingResponseHeaders (request_context_of ?p)) req"
    using strict_phases [THEN conjunct1, rule_format, of demo_headers ?rt demo_stream, OF conjI [OF demo_start(1)]] p
    by blast
  moreover have "\<not> post_allowed [header_of '':method'' ''PUT'']" by (simp add: post_allowed_def header_of_def)
  ultimately show ?thesis
    using \<open>Reroute ?p = Some m\<close> strict_phases [THEN conjunct2, rule_format] by blast
qed

end
